(* ===== verification/HL2_Prelude.thy ===== *)
theory HL2_Prelude imports Complex_Main "HOL-Library.Word" begin

text \<open>
  Prelude of the HyperL2 development: the machine types of the Go code, the two ways a Go
  call can end badly (an error value or a run-time panic), Go's integer conversions, and the
  generic list and word lemmas that the component theories share.
\<close>

unbundle bit_operations_syntax

section \<open>Machine types\<close>

type_synonym byte = "8 word"
type_synonym u16 = "16 word"
type_synonym u32 = "32 word"
type_synonym u64 = "64 word"

text \<open>
  A Go \<^verbatim>\<open>int64\<close> whose wrap-around matters is a 64-bit word read by \<^const>\<open>sint\<close>.
\<close>

type_synonym i64 = "64 word"

text \<open>
  A Go \<^verbatim>\<open>int\<close> (64 bits wide on the platforms the program targets) that is computed with
  is an \<^typ>\<open>int\<close> whose wrap-around is written out: \<open>wrap64\<close> brings a mathematical result back
  into the range of the type.
\<close>

definition wrap64 :: "int \<Rightarrow> int" where
  "wrap64 i = signed_take_bit 63 i"

definition int64_range :: "int \<Rightarrow> bool" where
  "int64_range i \<longleftrightarrow> - (2 ^ 63) \<le> i \<and> i < 2 ^ 63"

lemma wrap64_id [simp]: "int64_range i \<Longrightarrow> wrap64 i = i"
  by (simp add: wrap64_def int64_range_def signed_take_bit_int_eq_self_iff)

lemma wrap64_range [simp]: "int64_range (wrap64 i)"
  using signed_take_bit_int_less_exp [of 63 i] signed_take_bit_int_greater_eq_minus_exp [of 63 i]
  by (simp add: wrap64_def int64_range_def)

lemma wrap64_small: "0 \<le> i \<Longrightarrow> i < 2 ^ 63 \<Longrightarrow> wrap64 i = i"
  by (rule wrap64_id) (simp add: int64_range_def)

text \<open>Go's integer division and remainder truncate towards zero.\<close>

definition go_quot :: "int \<Rightarrow> int \<Rightarrow> int" where
  "go_quot a b = sgn a * sgn b * (\<bar>a\<bar> div \<bar>b\<bar>)"

definition go_rem :: "int \<Rightarrow> int \<Rightarrow> int" where
  "go_rem a b = a - b * go_quot a b"

lemma go_quot_nonneg: "0 \<le> a \<Longrightarrow> 0 < b \<Longrightarrow> go_quot a b = a div b"
  by (cases "a = 0") (simp_all add: go_quot_def)

lemma go_rem_nonneg: "0 \<le> a \<Longrightarrow> 0 < b \<Longrightarrow> go_rem a b = a mod b"
  by (simp add: go_rem_def go_quot_nonneg minus_mult_div_eq_mod)

section \<open>Outcomes of a Go call\<close>

text \<open>
  A call that can fail returns \<open>'e + 'a\<close>, the error on the left. \<open>bind_res\<close> is the early return
  \<^verbatim>\<open>if err != nil { return err }\<close>.
\<close>

definition bind_res :: "'e + 'a \<Rightarrow> ('a \<Rightarrow> 'e + 'b) \<Rightarrow> 'e + 'b" where
  "bind_res r f = (case r of Inl e \<Rightarrow> Inl e | Inr x \<Rightarrow> f x)"

lemma bind_res_simps [simp]:
  "bind_res (Inl e) f = Inl e"
  "bind_res (Inr x) f = f x"
  by (simp_all add: bind_res_def)

lemma bind_res_eq_Inr:
  "bind_res r f = Inr y \<longleftrightarrow> (\<exists>x. r = Inr x \<and> f x = Inr y)"
  by (cases r) simp_all

lemma bind_res_eq_Inl:
  "bind_res r f = Inl e \<longleftrightarrow> r = Inl e \<or> (\<exists>x. r = Inr x \<and> f x = Inl e)"
  by (cases r) simp_all

section \<open>Collections of rewrite rules\<close>

named_theorems le_simps \<open>little-endian reads and writes\<close>
named_theorems frame_simps \<open>layout of the wire frames\<close>
named_theorems l1_simps \<open>field effects of the L1 node's operations\<close>
named_theorems agg_simps \<open>field effects of the aggregator's operations\<close>

section \<open>Lists\<close>

lemma concat_map_length_const:
  "(\<And>x. x \<in> set xs \<Longrightarrow> length (f x) = k) \<Longrightarrow> length (concat (map f xs)) = length xs * k"
  by (induction xs) auto

text \<open>Two lists of equal length cut at the same place agree piecewise.\<close>

lemma list_eq_take_drop: "xs = ys \<longleftrightarrow> take n xs = take n ys \<and> drop n xs = drop n ys"
  by (metis append_take_drop_id)

section \<open>Words\<close>

lemma bit_byte_ge [simp]: "8 \<le> n \<Longrightarrow> \<not> bit (a :: byte) n"
  by (auto dest: bit_imp_le_length)

text \<open>Small naturals are told apart by their words.\<close>

lemma u16_of_nat_inj: "i < 2 ^ 16 \<Longrightarrow> j < 2 ^ 16 \<Longrightarrow> (of_nat i :: u16) = of_nat j \<longleftrightarrow> i = j"
  by (simp add: word_of_nat_eq_iff take_bit_nat_eq_self)

lemma unat_u32_small: "n < 2 ^ 32 \<Longrightarrow> unat (of_nat n :: u32) = n"
  by (simp add: unsigned_of_nat take_bit_nat_eq_self)

lemma unat_two_power: "k < LENGTH('a) \<Longrightarrow> unat (2 ^ k :: 'a::len word) = 2 ^ k"
  using unsigned_of_nat [of "2 ^ k", where 'a = nat and 'b = 'a] by (simp add: take_bit_nat_eq_self)

lemma bit_unat: "bit (unat w) n \<longleftrightarrow> bit w n"
  by (simp add: bit_unsigned_iff)

lemma bit_nat_top: "2 ^ k \<le> n \<Longrightarrow> n < 2 ^ Suc k \<Longrightarrow> bit n k" for n :: nat
proof -
  assume "2 ^ k \<le> n" "n < 2 ^ Suc k"
  then have "n div 2 ^ k = 1" by (intro div_nat_eqI) simp_all
  then show ?thesis by (simp add: bit_iff_odd)
qed

text \<open>The test \<open>c & (c - 1) = 0\<close> that the Go code uses for powers of two.\<close>

lemma power_of_two_test:
  fixes c :: "'a::len word"
  shows "c \<noteq> 0 \<and> c AND (c - 1) = 0 \<longleftrightarrow> (\<exists>k < LENGTH('a). c = 2 ^ k)"
proof
  assume c: "c \<noteq> 0 \<and> c AND (c - 1) = 0"
  then have n: "0 < unat c" by (simp add: unat_gt_0)
  obtain k where k: "2 ^ k \<le> unat c" "unat c < 2 ^ Suc k"
    using ex_power_ivl1 [of 2 "unat c"] n by auto
  have lt: "k < LENGTH('a)"
  proof -
    have "(2::nat) ^ k < 2 ^ LENGTH('a)" using k(1) unsigned_less [of c, where 'a = nat] by linarith
    then show ?thesis by simp
  qed
  have u: "unat c = 2 ^ k"
  proof (rule ccontr)
    assume "unat c \<noteq> 2 ^ k"
    moreover have "unat (c - 1) = unat c - 1" using c by (simp add: unat_minus_one)
    ultimately have "bit (unat (c - 1)) k" "bit (unat c) k"
      using k by (auto intro!: bit_nat_top)
    then have "bit (c AND (c - 1)) k" by (simp add: bit_unat bit_and_iff)
    then show False using c by simp
  qed
  have "c = of_nat (unat c)" by simp
  also have "\<dots> = 2 ^ k" unfolding u by simp
  finally have "c = 2 ^ k" .
  then show "\<exists>k < LENGTH('a). c = 2 ^ k" using lt by blast
next
  assume "\<exists>k < LENGTH('a). c = 2 ^ k"
  then obtain k where k: "k < LENGTH('a)" "c = 2 ^ k" by blast
  have "c AND (c - 1) = 0"
  proof (rule bit_word_eqI)
    fix n assume "n < LENGTH('a)"
    then show "bit (c AND (c - 1)) n = bit (0 :: 'a word) n"
      by (auto simp: k(2) bit_simps simp flip: mask_eq_exp_minus_1)
  qed
  then show "c \<noteq> 0 \<and> c AND (c - 1) = 0" using k by simp
qed

lemma capacity_test:
  "\<not> (cap < 2 \<or> cap AND (cap - 1) \<noteq> 0) \<longleftrightarrow> (\<exists>k < 64. 0 < k \<and> cap = 2 ^ k)" for cap :: u64
proof -
  have two: "\<not> (2 ^ k :: u64) < 2 \<longleftrightarrow> 0 < k" if "k < 64" for k
  proof (cases k)
    case (Suc j)
    have "unat (2 ^ k :: u64) = 2 ^ k" using that by (intro unat_two_power) simp
    then show ?thesis by (simp only: word_less_nat_alt Suc) simp
  qed (simp add: word_less_nat_alt)
  have "\<not> cap < 2 \<Longrightarrow> cap \<noteq> 0" by (auto simp: word_less_nat_alt)
  moreover have "cap \<noteq> 0 \<and> cap AND (cap - 1) = 0 \<longleftrightarrow> (\<exists>k < 64. cap = 2 ^ k)"
    using power_of_two_test [of cap] by simp
  ultimately show ?thesis using two by metis
qed

end
