(* ===== verification/Queue_Interface.thy ===== *)
theory Queue_Interface imports HL2_Prelude begin

text \<open>
  The contract the pipeline relies on when its stages hand jobs to each other: a bounded FIFO
  queue whose operations return at once, \<^term>\<open>False\<close> meaning full or empty.  The locale states the
  laws; the lemmas inside it are what the stages use, proved from the laws alone.  The ring of
  \<^verbatim>\<open>internal/queue\<close> is shown to satisfy it in the theory \<^verbatim>\<open>Ring\<close>.
\<close>

section \<open>Operation sequences\<close>

datatype 'a queue_op = Enq 'a | Deq

datatype 'a queue_out = Enqueued bool | Dequeued "'a option"

text \<open>The reference: a list and a capacity.\<close>

fun spec_step :: "nat \<Rightarrow> 'a queue_op \<Rightarrow> 'a list \<Rightarrow> 'a queue_out \<times> 'a list" where
  "spec_step cap (Enq x) xs = (if length xs < cap then (Enqueued True, xs @ [x]) else (Enqueued False, xs))"
| "spec_step cap Deq [] = (Dequeued None, [])"
| "spec_step cap Deq (x # xs) = (Dequeued (Some x), xs)"

fun spec_run :: "nat \<Rightarrow> 'a queue_op list \<Rightarrow> 'a list \<Rightarrow> 'a queue_out list" where
  "spec_run cap [] xs = []"
| "spec_run cap (op # ops) xs = (case spec_step cap op xs of (r, xs') \<Rightarrow> r # spec_run cap ops xs')"

text \<open>
  The same run on an implementation, whose calls return a value and the new queue;
  \<^const>\<open>None\<close> is a call that does not return.
\<close>

fun impl_run ::
    "('a \<Rightarrow> 'q \<Rightarrow> (bool \<times> 'q) option) \<Rightarrow> ('q \<Rightarrow> (('a \<times> bool) \<times> 'q) option)
     \<Rightarrow> 'a queue_op list \<Rightarrow> 'q \<Rightarrow> 'a queue_out list option" where
  "impl_run enq deq [] q = Some []"
| "impl_run enq deq (Enq x # ops) q =
     (case enq x q of None \<Rightarrow> None
      | Some (ok, q') \<Rightarrow> map_option ((#) (Enqueued ok)) (impl_run enq deq ops q'))"
| "impl_run enq deq (Deq # ops) q =
     (case deq q of None \<Rightarrow> None
      | Some ((v, ok), q') \<Rightarrow>
          map_option ((#) (Dequeued (if ok then Some v else None))) (impl_run enq deq ops q'))"

section \<open>The contract\<close>

locale bounded_queue =
  fixes enq :: "'a \<Rightarrow> 'q \<Rightarrow> (bool \<times> 'q) option"
    and deq :: "'q \<Rightarrow> (('a \<times> bool) \<times> 'q) option"
    and contents :: "'q \<Rightarrow> 'a list"
    and capacity :: "'q \<Rightarrow> nat"
    and valid :: "'q \<Rightarrow> bool"
  assumes enq_room: "valid q \<Longrightarrow> length (contents q) < capacity q \<Longrightarrow>
      \<exists>q'. enq x q = Some (True, q') \<and> valid q' \<and> capacity q' = capacity q \<and> contents q' = contents q @ [x]"
    and enq_full: "valid q \<Longrightarrow> capacity q \<le> length (contents q) \<Longrightarrow> enq x q = Some (False, q)"
    and deq_some: "valid q \<Longrightarrow> contents q = x # xs \<Longrightarrow>
      \<exists>q'. deq q = Some ((x, True), q') \<and> valid q' \<and> capacity q' = capacity q \<and> contents q' = xs"
    and deq_empty: "valid q \<Longrightarrow> contents q = [] \<Longrightarrow> \<exists>z. deq q = Some ((z, False), q)"
begin

lemma run_refines_spec:
  "valid q \<Longrightarrow> impl_run enq deq ops q = Some (spec_run (capacity q) ops (contents q))"
proof (induction ops arbitrary: q)
  case Nil
  then show ?case by simp
next
  case (Cons op ops)
  show ?case
  proof (cases op)
    case (Enq x)
    show ?thesis
    proof (cases "length (contents q) < capacity q")
      case True
      then obtain q' where "enq x q = Some (True, q')" "valid q'" "capacity q' = capacity q"
        "contents q' = contents q @ [x]"
        using enq_room Cons.prems by blast
      then show ?thesis using Cons.IH [of q'] True by (simp add: Enq)
    next
      case False
      then show ?thesis using enq_full [of q x] Cons by (simp add: Enq)
    qed
  next
    case Deq
    show ?thesis
    proof (cases "contents q")
      case Nil
      then obtain z where "deq q = Some ((z, False), q)" using deq_empty Cons.prems by blast
      then show ?thesis using Cons Nil by (simp add: Deq)
    next
      case (Cons x xs)
      then obtain q' where "deq q = Some ((x, True), q')" "valid q'" "capacity q' = capacity q"
        "contents q' = xs"
        using deq_some Cons.prems by blast
      then show ?thesis using Cons.IH [of q'] Cons by (simp add: Deq)
    qed
  qed
qed

lemma enq_cases:
  assumes "valid q"
  obtains (room) q' where "enq x q = Some (True, q')" "valid q'" "capacity q' = capacity q"
      "contents q' = contents q @ [x]"
    | (full) "enq x q = Some (False, q)" "capacity q \<le> length (contents q)"
  using assms enq_room enq_full by (meson not_le)

lemma deq_cases:
  assumes "valid q"
  obtains (some) x q' where "deq q = Some ((x, True), q')" "valid q'" "capacity q' = capacity q"
      "contents q = x # contents q'"
    | (empty) z where "deq q = Some ((z, False), q)" "contents q = []"
  using assms deq_some deq_empty by (metis neq_Nil_conv)

end

text \<open>Filling and draining: FIFO order over any number of jobs that fit.\<close>

lemma spec_run_append:
  "spec_run cap (ops @ ops') xs =
     spec_run cap ops xs @ spec_run cap ops' (fold (\<lambda>op xs. snd (spec_step cap op xs)) ops xs)"
  by (induction ops arbitrary: xs) (auto split: prod.splits)

lemma spec_run_drain: "spec_run cap (replicate (length xs) Deq) xs = map (Dequeued \<circ> Some) xs"
  by (induction xs) auto

lemma spec_run_fill:
  "length ys + length xs \<le> cap \<Longrightarrow>
   spec_run cap (map Enq xs) ys = map (\<lambda>_. Enqueued True) xs
   \<and> fold (\<lambda>op xs. snd (spec_step cap op xs)) (map Enq xs) ys = ys @ xs"
  by (induction xs arbitrary: ys) auto

end
