(* ===== verification/Ring.thy ===== *)
theory Ring imports Queue_Interface begin

text \<open>
  \<^verbatim>\<open>internal/queue/ring.go\<close> as one goroutine sees it: the bounded ring with per-cell sequence
  numbers.  Positions are 64-bit words that wrap around and cells are addressed by \<open>pos & mask\<close>,
  as in the code; the comparison of sequence and position is the signed difference.  The main
  result is that the ring is a bounded FIFO queue: it interprets the queue contract.
\<close>

section \<open>State and operations\<close>

record 'a cell =
  sequence :: u64
  cvalue :: 'a

record 'a Ring =
  ring_mask :: u64
  ring_cells :: "'a cell list"
  enqueuePos :: u64
  dequeuePos :: u64
  ring_length :: i64

datatype ring_error = ErrCapacityPowerOfTwo u64

text \<open>\<open>zero\<close> is the zero value of the element type.\<close>

definition NewRing :: "'a \<Rightarrow> u64 \<Rightarrow> ring_error + 'a Ring" where
  "NewRing zero capacity =
     (if capacity < 2 \<or> capacity AND (capacity - 1) \<noteq> 0 then Inl (ErrCapacityPowerOfTwo capacity)
      else Inr \<lparr> ring_mask = capacity - 1,
                 ring_cells = map (\<lambda>i. \<lparr> sequence = of_nat i, cvalue = zero \<rparr>) [0..<unat capacity],
                 enqueuePos = 0, dequeuePos = 0, ring_length = 0 \<rparr>)"

definition cell_index :: "'a Ring \<Rightarrow> u64 \<Rightarrow> nat" where
  "cell_index q pos = unat (pos AND ring_mask q)"

text \<open>
  One turn of the loop in \<^verbatim>\<open>Enqueue\<close>; \<^const>\<open>None\<close> is the turn that yields to the scheduler and goes
  round again.  Without a concurrent caller the compare-and-swap succeeds.
\<close>

definition enqueue_turn :: "'a \<Rightarrow> 'a Ring \<Rightarrow> (bool \<times> 'a Ring) option" where
  "enqueue_turn v q =
     (let pos = enqueuePos q; ix = cell_index q pos; c = ring_cells q ! ix;
          seq = sequence c; dif = sint (seq - pos)
      in if dif = 0
         then Some (True, q\<lparr> enqueuePos := pos + 1,
                             ring_cells := (ring_cells q)[ix := \<lparr> sequence = pos + 1, cvalue = v \<rparr>],
                             ring_length := ring_length q + 1 \<rparr>)
         else if dif < 0 then Some (False, q)
         else None)"

partial_function (option) Enqueue :: "'a \<Rightarrow> 'a Ring \<Rightarrow> (bool \<times> 'a Ring) option" where
  "Enqueue v q = (case enqueue_turn v q of Some r \<Rightarrow> Some r | None \<Rightarrow> Enqueue v q)"

definition dequeue_turn :: "'a \<Rightarrow> 'a Ring \<Rightarrow> (('a \<times> bool) \<times> 'a Ring) option" where
  "dequeue_turn zero q =
     (let pos = dequeuePos q; ix = cell_index q pos; c = ring_cells q ! ix;
          seq = sequence c; dif = sint (seq - (pos + 1))
      in if dif = 0
         then Some ((cvalue c, True),
                    q\<lparr> dequeuePos := pos + 1,
                       ring_cells := (ring_cells q)[ix := \<lparr> sequence = pos + ring_mask q + 1, cvalue = zero \<rparr>],
                       ring_length := ring_length q - 1 \<rparr>)
         else if dif < 0 then Some ((zero, False), q)
         else None)"

partial_function (option) Dequeue :: "'a \<Rightarrow> 'a Ring \<Rightarrow> (('a \<times> bool) \<times> 'a Ring) option" where
  "Dequeue zero q = (case dequeue_turn zero q of Some r \<Rightarrow> Some r | None \<Rightarrow> Dequeue zero q)"

definition Len :: "'a Ring \<Rightarrow> i64" where
  "Len q = ring_length q"

definition Capacity :: "'a Ring \<Rightarrow> u64" where
  "Capacity q = of_nat (length (ring_cells q))"

lemma Enqueue_turn: "enqueue_turn v q = Some r \<Longrightarrow> Enqueue v q = Some r"
  by (simp add: Enqueue.simps)

lemma Dequeue_turn: "dequeue_turn zero q = Some r \<Longrightarrow> Dequeue zero q = Some r"
  by (simp add: Dequeue.simps)

section \<open>The abstract queue and the invariant\<close>

text \<open>
  The cell that holds position \<open>dequeuePos + i\<close>.  The elements in the queue are those of the
  positions from \<open>dequeuePos\<close> up to \<open>enqueuePos\<close>, oldest first.
\<close>

definition slot :: "'a Ring \<Rightarrow> nat \<Rightarrow> nat" where
  "slot q i = (unat (dequeuePos q) + i) mod length (ring_cells q)"

definition pending :: "'a Ring \<Rightarrow> nat" where
  "pending q = unat (enqueuePos q - dequeuePos q)"

definition ring_list :: "'a Ring \<Rightarrow> 'a list" where
  "ring_list q = map (\<lambda>i. cvalue (ring_cells q ! slot q i)) [0..<pending q]"

definition ring_capacity :: "'a Ring \<Rightarrow> nat" where
  "ring_capacity q = length (ring_cells q)"

text \<open>
  A full slot carries the position after its own, an empty one its own position: the next
  producer of the slot finds equality, the next consumer finds one more.  The capacity is
  \<open>2 ^ k\<close>.
\<close>

definition ring_view :: "'a Ring \<Rightarrow> nat \<Rightarrow> bool" where
  "ring_view q k \<longleftrightarrow>
     0 < k \<and> k < 64 \<and> length (ring_cells q) = 2 ^ k \<and> ring_mask q = 2 ^ k - 1
     \<and> pending q \<le> 2 ^ k
     \<and> ring_length q = of_nat (pending q)
     \<and> (\<forall>i < 2 ^ k. sequence (ring_cells q ! slot q i)
            = dequeuePos q + of_nat i + (if i < pending q then 1 else 0))"

definition ring_inv :: "'a Ring \<Rightarrow> bool" where
  "ring_inv q \<longleftrightarrow> (\<exists>k < 64. ring_view q k)"

lemma length_ring_list [simp]: "length (ring_list q) = pending q"
  by (simp add: ring_list_def)

subsection \<open>Addressing\<close>

lemma unat_mask: "unat (p AND (2 ^ k - 1)) = unat p mod 2 ^ k" for p :: u64
proof -
  have "p AND (2 ^ k - 1) = take_bit k p"
    by (simp add: take_bit_eq_mask mask_eq_exp_minus_1)
  then have "unat (p AND (2 ^ k - 1)) = take_bit k (unat p)"
    by (simp only: unsigned_take_bit_eq)
  then show ?thesis by (simp only: take_bit_eq_mod)
qed

lemma unat_add_mod_power:
  assumes "k < 64" shows "unat (p + of_nat i :: u64) mod 2 ^ k = (unat p + i) mod 2 ^ k"
proof -
  have d: "(2::nat) ^ k dvd 2 ^ 64" using assms by (intro le_imp_power_dvd) simp
  have "unat (p + of_nat i :: u64) = (unat p + i) mod 2 ^ 64"
    by (simp add: unat_word_ariths unsigned_of_nat take_bit_eq_mod mod_add_right_eq)
  then show ?thesis using d by (simp add: mod_mod_cancel)
qed

lemma slot_inj:
  fixes a c :: nat assumes "i < c" "j < c" "(a + i) mod c = (a + j) mod c" shows "i = j"
proof (rule ccontr)
  assume "i \<noteq> j"
  have "(a + i) mod c = (a + j) mod c \<Longrightarrow> i < j \<Longrightarrow> j < c \<Longrightarrow> False" for i j
    using mod_eq_dvd_iff_nat [of "a + i" "a + j" c] by (auto dest: dvd_imp_le)
  then show False using assms \<open>i \<noteq> j\<close> by (metis nat_neq_iff)
qed

lemma cell_index_slot:
  assumes "length (ring_cells q) = 2 ^ k" "ring_mask q = 2 ^ k - 1" "k < 64"
  shows "cell_index q (dequeuePos q + of_nat i) = slot q i"
  using assms by (simp add: cell_index_def slot_def unat_mask unat_add_mod_power)

lemma slot_wrap: "slot q (length (ring_cells q)) = slot q 0"
  by (simp add: slot_def)

lemma slot_less: "ring_cells q \<noteq> [] \<Longrightarrow> slot q i < length (ring_cells q)"
  by (simp add: slot_def)

text \<open>The facts an operation starts from.\<close>

lemma ring_viewD:
  assumes "ring_view q k"
  shows "0 < k" "k < 64" "length (ring_cells q) = 2 ^ k" "ring_mask q = 2 ^ k - 1"
    "ring_cells q \<noteq> []" "pending q \<le> 2 ^ k" "enqueuePos q = dequeuePos q + of_nat (pending q)"
    "ring_length q = of_nat (pending q)"
    "i < 2 ^ k \<Longrightarrow> sequence (ring_cells q ! slot q i)
        = dequeuePos q + of_nat i + (if i < pending q then 1 else 0)"
    "cell_index q (dequeuePos q + of_nat j) = slot q j"
proof -
  show k: "0 < k" "k < 64" "length (ring_cells q) = 2 ^ k" "ring_mask q = 2 ^ k - 1"
    "pending q \<le> 2 ^ k" "ring_length q = of_nat (pending q)"
    "i < 2 ^ k \<Longrightarrow> sequence (ring_cells q ! slot q i)
        = dequeuePos q + of_nat i + (if i < pending q then 1 else 0)"
    using assms by (simp_all add: ring_view_def)
  show "ring_cells q \<noteq> []" using k(3) by force
  show "enqueuePos q = dequeuePos q + of_nat (pending q)" by (simp add: pending_def)
  show "cell_index q (dequeuePos q + of_nat j) = slot q j" using k by (intro cell_index_slot)
qed

section \<open>Correctness of the operations\<close>

lemma pow_less_64: "k < 64 \<Longrightarrow> (2::nat) ^ k < 2 ^ 64"
  by (rule power_strict_increasing) simp_all

lemma unat_small: "n \<le> 2 ^ k \<Longrightarrow> k < 64 \<Longrightarrow> unat (of_nat n :: u64) = n"
  using pow_less_64 [of k] by (simp only: unsigned_of_nat) (simp add: take_bit_nat_eq_self)

lemma sint_neg_capacity:
  assumes "0 < k" "k < 64" shows "sint (1 - of_nat (2 ^ k) :: u64) = 1 - 2 ^ k"
proof -
  have "(2 :: int) ^ k \<le> 2 ^ 63" using assms(2) by (intro power_increasing) auto
  moreover have "(0 :: int) < 2 ^ k" by simp
  ultimately have "- (2 ^ 63) \<le> (1 - 2 ^ k :: int)" "(1 - 2 ^ k :: int) < 2 ^ 63" by linarith+
  then have "signed_take_bit 63 (1 - 2 ^ k :: int) = 1 - 2 ^ k"
    by (simp only: signed_take_bit_int_eq_self_iff)
  moreover have "(1 - of_nat (2 ^ k) :: u64) = of_int (1 - 2 ^ k)" by simp
  ultimately show ?thesis by (simp only: signed_of_int) simp
qed

lemma Enqueue_full:
  assumes inv: "ring_inv q" and full: "ring_capacity q \<le> length (ring_list q)"
  shows "Enqueue v q = Some (False, q)"
proof -
  from inv obtain k where V: "ring_view q k" by (auto simp: ring_inv_def)
  note f = ring_viewD [OF V]
  have n: "pending q = 2 ^ k" using f(3,6) full by (simp add: ring_capacity_def)
  have "cell_index q (enqueuePos q) = slot q 0"
    using slot_wrap [of q] f(7,10) by (simp only: n f(3))
  moreover have "sequence (ring_cells q ! slot q 0) - enqueuePos q = 1 - of_nat (2 ^ k)"
    using f(9) [of 0] by (simp add: f(7) n)
  moreover have "(1 :: int) < 2 ^ k" using f(1) by simp
  ultimately have "enqueue_turn v q = Some (False, q)"
    using sint_neg_capacity [OF f(1,2)] by (simp add: enqueue_turn_def Let_def)
  then show ?thesis by (rule Enqueue_turn)
qed

text \<open>The other slots are untouched when one slot is written.\<close>

lemma slot_write:
  assumes "ring_view q k" "i < 2 ^ k" "n < 2 ^ k"
  shows "(ring_cells q)[slot q n := c] ! slot q i = (if i = n then c else ring_cells q ! slot q i)"
proof (cases "i = n")
  case True
  then show ?thesis using slot_less [OF ring_viewD(5) [OF assms(1)]] by simp
next
  case False
  then have "slot q n \<noteq> slot q i"
    using slot_inj [of i "2 ^ k" n "unat (dequeuePos q)"] assms ring_viewD(3) [OF assms(1)]
    by (auto simp: slot_def)
  then show ?thesis using False by simp
qed

lemma Enqueue_room:
  assumes inv: "ring_inv q" and room: "length (ring_list q) < ring_capacity q"
  shows "\<exists>q'. Enqueue v q = Some (True, q') \<and> ring_inv q' \<and> ring_capacity q' = ring_capacity q
      \<and> ring_list q' = ring_list q @ [v]"
proof -
  from inv obtain k where V: "ring_view q k" by (auto simp: ring_inv_def)
  note f = ring_viewD [OF V]
  define n where "n = pending q"
  have n: "n < 2 ^ k" using room f(3) by (simp add: n_def ring_capacity_def)
  have pos: "enqueuePos q = dequeuePos q + of_nat n" using f(7) by (simp add: n_def)
  define c where "c = \<lparr> sequence = enqueuePos q + 1, cvalue = v \<rparr>"
  define q' where "q' = q\<lparr> enqueuePos := enqueuePos q + 1,
      ring_cells := (ring_cells q)[slot q n := c], ring_length := ring_length q + 1 \<rparr>"
  have "enqueue_turn v q = Some (True, q')"
    using f(9) [OF n] f(10) [of n] by (simp add: enqueue_turn_def Let_def pos n_def [symmetric] q'_def c_def)
  then have ret: "Enqueue v q = Some (True, q')" by (rule Enqueue_turn)
  have pend: "pending q' = Suc n"
    using unat_small [of "Suc n" k] n f(2) by (simp add: pending_def q'_def pos add.commute)
  have slot: "slot q' i = slot q i" for i by (simp add: slot_def q'_def)
  have cell: "ring_cells q' ! slot q i = (if i = n then c else ring_cells q ! slot q i)"
    if "i < 2 ^ k" for i
    using slot_write [OF V that n] by (simp add: q'_def)
  have "ring_view q' k"
    unfolding ring_view_def
  proof (intro conjI allI impI)
    fix i :: nat assume i: "i < 2 ^ k"
    show "sequence (ring_cells q' ! slot q' i)
        = dequeuePos q' + of_nat i + (if i < pending q' then 1 else 0)"
      using f(9) [OF i] by (auto simp: slot cell [OF i] pend c_def pos n_def [symmetric]) (simp_all add: q'_def)
  qed (use f n pend in \<open>auto simp: q'_def n_def\<close>)
  moreover have "ring_list q' = ring_list q @ [v]"
    using n by (simp add: ring_list_def pend slot cell n_def [symmetric] c_def)
  ultimately show ?thesis using ret f(2) by (auto simp: ring_capacity_def ring_inv_def q'_def)
qed

lemma Dequeue_empty:
  assumes inv: "ring_inv q" and empty: "ring_list q = []"
  shows "Dequeue zero q = Some ((zero, False), q)"
proof -
  from inv obtain k where V: "ring_view q k" by (auto simp: ring_inv_def)
  note f = ring_viewD [OF V]
  have n: "pending q = 0" using empty by (metis length_ring_list list.size(3))
  have "sequence (ring_cells q ! cell_index q (dequeuePos q)) = dequeuePos q"
    using f(9) [of 0] f(10) [of 0] by (simp add: n)
  then have "dequeue_turn zero q = Some ((zero, False), q)"
    by (simp add: dequeue_turn_def Let_def)
  then show ?thesis by (rule Dequeue_turn)
qed

lemma Dequeue_some:
  assumes inv: "ring_inv q" and some: "ring_list q = x # xs"
  shows "\<exists>q'. Dequeue zero q = Some ((x, True), q') \<and> ring_inv q' \<and> ring_capacity q' = ring_capacity q
      \<and> ring_list q' = xs"
proof -
  from inv obtain k where V: "ring_view q k" by (auto simp: ring_inv_def)
  note f = ring_viewD [OF V]
  obtain n where n: "pending q = Suc n"
    using some by (metis length_ring_list list.size(4) add_Suc_right)
  have k0: "0 < (2 :: nat) ^ k" by simp
  define c where "c = \<lparr> sequence = dequeuePos q + ring_mask q + 1, cvalue = zero \<rparr>"
  define q' where "q' = q\<lparr> dequeuePos := dequeuePos q + 1,
      ring_cells := (ring_cells q)[slot q 0 := c], ring_length := ring_length q - 1 \<rparr>"
  have ix: "cell_index q (dequeuePos q) = slot q 0" using f(10) [of 0] by simp
  have hd: "cvalue (ring_cells q ! slot q 0) = x"
    using some by (simp add: ring_list_def n upt_conv_Cons del: upt_Suc)
  have "dequeue_turn zero q = Some ((x, True), q')"
    using f(9) [OF k0] by (simp add: dequeue_turn_def Let_def ix n hd q'_def c_def)
  then have ret: "Dequeue zero q = Some ((x, True), q')" by (rule Dequeue_turn)
  have "enqueuePos q = dequeuePos q + of_nat (Suc n)" using f(7) by (simp only: n)
  then have "enqueuePos q' - dequeuePos q' = of_nat n" by (simp add: q'_def)
  then have pend: "pending q' = n"
    using unat_small [of n k] n f(2,6) by (simp only: pending_def)
  have len: "length (ring_cells q') = 2 ^ k" using f(3) by (simp add: q'_def)
  have slot: "slot q' i = slot q (Suc i)" for i
  proof -
    have "slot q' i = cell_index q (dequeuePos q + 1 + of_nat i)"
      using cell_index_slot [of q' k i] len f(2,4) by (simp add: q'_def cell_index_def)
    also have "dequeuePos q + 1 + of_nat i = dequeuePos q + of_nat (Suc i)" by simp
    finally show ?thesis by (simp only: f(10))
  qed
  have last: "slot q (2 ^ k) = slot q 0" using slot_wrap [of q] f(3) by simp
  have cell: "ring_cells q' ! slot q i = ring_cells q ! slot q i" if "0 < i" "i < 2 ^ k" for i
    using slot_write [OF V that(2) k0] that(1) by (simp add: q'_def)
  have "ring_view q' k"
    unfolding ring_view_def
  proof (intro conjI allI impI)
    fix i :: nat assume i: "i < 2 ^ k"
    show "sequence (ring_cells q' ! slot q' i)
        = dequeuePos q' + of_nat i + (if i < pending q' then 1 else 0)"
    proof (cases "Suc i = 2 ^ k")
      case True
      have "sequence (ring_cells q' ! slot q' i) = dequeuePos q + ring_mask q + 1"
        using slot_write [OF V k0 k0, of c] by (simp only: slot True last) (simp add: q'_def c_def)
      moreover have "(of_nat i :: u64) = 2 ^ k - 1"
      proof -
        have "(of_nat (Suc i) :: u64) = of_nat (2 ^ k)" by (simp only: True)
        then have "(of_nat i :: u64) + 1 = 2 ^ k" by (simp add: add.commute)
        then show ?thesis by (simp only: eq_diff_eq)
      qed
      moreover have "\<not> i < pending q'" using True f(6) by (simp add: pend n)
      ultimately show ?thesis by (simp add: f(4) q'_def)
    next
      case False
      then have si: "Suc i < 2 ^ k" using i by simp
      show ?thesis
        using f(9) [OF si] cell [of "Suc i"] si by (simp add: slot pend n) (simp add: q'_def)
    qed
  qed (use f n pend in \<open>auto simp: q'_def\<close>)
  moreover have "ring_list q' = xs"
  proof -
    have tl_upt: "tl [0..<Suc n] = map Suc [0..<n]"
      by (simp add: map_Suc_upt upt_conv_Cons del: upt_Suc)
    have "ring_list q' = map (\<lambda>i. cvalue (ring_cells q ! slot q (Suc i))) [0..<n]"
      using cell n f(6) by (simp add: ring_list_def pend slot)
    also have "\<dots> = tl (ring_list q)"
      using tl_upt by (simp only: ring_list_def n map_tl [symmetric] map_map comp_def)
    finally show ?thesis using some by simp
  qed
  ultimately show ?thesis using ret f(2) by (auto simp: ring_capacity_def ring_inv_def q'_def)
qed

section \<open>The ring is a bounded FIFO queue\<close>

interpretation ring_queue: bounded_queue Enqueue "Dequeue zero" ring_list ring_capacity ring_inv
proof unfold_locales
  fix q :: "'a Ring" and x assume "ring_inv q" "length (ring_list q) < ring_capacity q"
  then show "\<exists>q'. Enqueue x q = Some (True, q') \<and> ring_inv q' \<and> ring_capacity q' = ring_capacity q
      \<and> ring_list q' = ring_list q @ [x]" by (rule Enqueue_room)
next
  fix q :: "'a Ring" and x xs assume "ring_inv q" "ring_list q = x # xs"
  then show "\<exists>q'. Dequeue zero q = Some ((x, True), q') \<and> ring_inv q' \<and> ring_capacity q' = ring_capacity q
      \<and> ring_list q' = xs" by (rule Dequeue_some)
qed (auto simp: Enqueue_full Dequeue_empty)

lemma NewRing_inv:
  assumes "NewRing zero capacity = Inr q"
  shows "ring_inv q" "ring_list q = []" "ring_capacity q = unat capacity"
proof -
  from assms have ok: "\<not> (capacity < 2 \<or> capacity AND (capacity - 1) \<noteq> 0)"
    and q: "q = \<lparr> ring_mask = capacity - 1,
       ring_cells = map (\<lambda>i. \<lparr> sequence = of_nat i, cvalue = zero \<rparr>) [0..<unat capacity],
       enqueuePos = 0, dequeuePos = 0, ring_length = 0 \<rparr>"
    by (auto simp: NewRing_def split: if_splits)
  obtain k where k: "k < 64" "0 < k" "capacity = 2 ^ k" using ok capacity_test [of capacity] by blast
  have u: "unat capacity = 2 ^ k" using k by (simp add: unat_two_power)
  have "ring_view q k"
    using k(1,2) by (simp add: ring_view_def q u slot_def pending_def) (simp add: k(3))
  then show "ring_inv q" using k(1) by (auto simp: ring_inv_def)
  show "ring_list q = []" "ring_capacity q = unat capacity"
    by (simp_all add: ring_list_def pending_def ring_capacity_def q)
qed

lemma Len_ring_list: "ring_inv q \<Longrightarrow> Len q = of_nat (length (ring_list q))"
  by (auto simp: Len_def ring_inv_def ring_view_def)

text \<open>C1. For any sequence of enqueues and dequeues, a ring created with a valid capacity answers exactly as a FIFO
  list bounded by that capacity does: full and empty are reported when and only when the list is full or empty,
  elements come out in order, no call spins, and neither the wrap-around of the 64-bit positions nor the reuse of
  cells is visible.\<close>

theorem ring_refines_bounded_fifo:
  assumes "NewRing zero capacity = Inr q"
  shows "impl_run Enqueue (Dequeue zero) ops q = Some (spec_run (unat capacity) ops [])"
  using ring_queue.run_refines_spec [of q zero ops] NewRing_inv [OF assms] by simp

theorem ring_refines_bounded_fifo_witness:
  "\<exists>q. NewRing (0 :: nat) 2 = Inr q
     \<and> impl_run Enqueue (Dequeue 0) [Enq 7, Enq 8, Enq 9, Deq, Enq 9, Deq, Deq, Deq] q
       = Some [Enqueued True, Enqueued True, Enqueued False, Dequeued (Some 7), Enqueued True,
               Dequeued (Some 8), Dequeued (Some 9), Dequeued None]"
proof -
  obtain q where q: "NewRing (0 :: nat) 2 = Inr q" by (simp add: NewRing_def)
  show ?thesis
    using q ring_refines_bounded_fifo [OF q, of "[Enq 7, Enq 8, Enq 9, Deq, Enq 9, Deq, Deq, Deq]"] by simp
qed

text \<open>The capacity test is needed as it stands: \<^verbatim>\<open>NewRing\<close> succeeds exactly for the powers of two from 2 on, and
  then the ring is empty and has room for exactly that many elements.\<close>

theorem NewRing_iff:
  "case NewRing zero capacity of
     Inl e \<Rightarrow> e = ErrCapacityPowerOfTwo capacity \<and> \<not> (\<exists>k < 64. 0 < k \<and> capacity = 2 ^ k)
   | Inr q \<Rightarrow> ring_inv q \<and> ring_list q = [] \<and> ring_capacity q = unat capacity \<and> Len q = 0
       \<and> (\<exists>k < 64. 0 < k \<and> capacity = 2 ^ k)"
proof (cases "NewRing zero capacity")
  case (Inl e)
  then show ?thesis using capacity_test [of capacity] by (auto simp: NewRing_def split: if_splits)
next
  case (Inr q)
  then have "\<not> (capacity < 2 \<or> capacity AND (capacity - 1) \<noteq> 0)" by (auto simp: NewRing_def split: if_splits)
  then show ?thesis
    using NewRing_inv [OF Inr] capacity_test [of capacity] Len_ring_list [of q] by (simp add: Inr)
qed

end
