(* ===== verification/Ring_Conc.thy ===== *)
theory Ring_Conc imports Ring "HOL-Library.Multiset" begin

text \<open>
  \<^verbatim>\<open>internal/queue/ring.go\<close> as many goroutines see it at once.  The theory \<^verbatim>\<open>Ring\<close> runs each call
  alone; here a call is the sequence of its accesses to shared memory, and the calls of any number
  of goroutines interleave access by access.  The history of the calls is recorded beside the
  ring.  The invariant gives three results: no two goroutines ever race on the value of a cell,
  every value that was enqueued is dequeued at most once and in order, and a call that answers
  full or empty had a reason to.  When no call is in progress the ring is again the sequential
  queue of the theory \<^verbatim>\<open>Ring\<close>.
\<close>

section \<open>The accesses of the two calls\<close>

text \<open>
  Where a goroutine stands in \<^verbatim>\<open>Enqueue\<close> or \<^verbatim>\<open>Dequeue\<close>.  A \<open>start\<close> is the head of the loop;
  \<open>loaded\<close> has read the position counter; \<open>Enq_free\<close> and \<open>Deq_full\<close> have read a sequence number
  with \<open>dif = 0\<close> and stand before the compare-and-swap; \<open>won\<close> has moved the counter; \<open>returned\<close>
  is a call that has returned its result.
\<close>

datatype 'a pc =
    Idle
  | Enq_start 'a
  | Enq_loaded 'a u64
  | Enq_free 'a u64
  | Enq_won 'a u64
  | Enq_written u64
  | Enq_published
  | Enq_returned bool
  | Deq_start
  | Deq_loaded u64
  | Deq_full u64
  | Deq_won u64
  | Deq_read 'a u64
  | Deq_cleared 'a u64
  | Deq_released 'a
  | Deq_returned 'a bool

definition cell_at :: "'a Ring \<Rightarrow> u64 \<Rightarrow> 'a cell" where
  "cell_at q pos = ring_cells q ! cell_index q pos"

definition set_value :: "u64 \<Rightarrow> 'a \<Rightarrow> 'a Ring \<Rightarrow> 'a Ring" where
  "set_value pos v q = q\<lparr> ring_cells := (ring_cells q)[cell_index q pos := (cell_at q pos)\<lparr> cvalue := v \<rparr>] \<rparr>"

definition set_sequence :: "u64 \<Rightarrow> u64 \<Rightarrow> 'a Ring \<Rightarrow> 'a Ring" where
  "set_sequence pos n q =
     q\<lparr> ring_cells := (ring_cells q)[cell_index q pos := (cell_at q pos)\<lparr> sequence := n \<rparr>] \<rparr>"

text \<open>One access of a goroutine inside a call, and where it stands afterwards.\<close>

fun advance :: "'a \<Rightarrow> 'a Ring \<Rightarrow> 'a pc \<Rightarrow> 'a pc \<times> 'a Ring" where
  "advance zero q (Enq_start v) = (Enq_loaded v (enqueuePos q), q)"
| "advance zero q (Enq_loaded v pos) =
     (let dif = sint (sequence (cell_at q pos) - pos)
      in (if dif = 0 then Enq_free v pos else if dif < 0 then Enq_returned False else Enq_start v, q))"
| "advance zero q (Enq_free v pos) =
     (if enqueuePos q = pos then (Enq_won v pos, q\<lparr> enqueuePos := pos + 1 \<rparr>) else (Enq_start v, q))"
| "advance zero q (Enq_won v pos) = (Enq_written pos, set_value pos v q)"
| "advance zero q (Enq_written pos) = (Enq_published, set_sequence pos (pos + 1) q)"
| "advance zero q Enq_published = (Enq_returned True, q\<lparr> ring_length := ring_length q + 1 \<rparr>)"
| "advance zero q Deq_start = (Deq_loaded (dequeuePos q), q)"
| "advance zero q (Deq_loaded pos) =
     (let dif = sint (sequence (cell_at q pos) - (pos + 1))
      in (if dif = 0 then Deq_full pos else if dif < 0 then Deq_returned zero False else Deq_start, q))"
| "advance zero q (Deq_full pos) =
     (if dequeuePos q = pos then (Deq_won pos, q\<lparr> dequeuePos := pos + 1 \<rparr>) else (Deq_start, q))"
| "advance zero q (Deq_won pos) = (Deq_read (cvalue (cell_at q pos)) pos, q)"
| "advance zero q (Deq_read v pos) = (Deq_cleared v pos, set_value pos zero q)"
| "advance zero q (Deq_cleared v pos) = (Deq_released v, set_sequence pos (pos + ring_mask q + 1) q)"
| "advance zero q (Deq_released v) = (Deq_returned v True, q\<lparr> ring_length := ring_length q - 1 \<rparr>)"
| "advance zero q Idle = (Idle, q)"
| "advance zero q (Enq_returned ok) = (Enq_returned ok, q)"
| "advance zero q (Deq_returned v ok) = (Deq_returned v ok, q)"

section \<open>Goroutines sharing a ring\<close>

text \<open>
  The goroutines are numbered.  Beside the ring and where each goroutine stands, the state holds
  the history: the values in the order in which their producers won the compare-and-swap, each
  with its producer; the consumers in the order in which they won theirs; and what was read, as
  consumer, position and value.  The history is only written, never read.
\<close>

record 'a crew =
  cr_ring :: "'a Ring"
  cr_pcs :: "'a pc list"
  cr_sent :: "(nat \<times> 'a) list"
  cr_claims :: "nat list"
  cr_taken :: "(nat \<times> nat \<times> 'a) list"

definition new_crew :: "'a Ring \<Rightarrow> nat \<Rightarrow> 'a crew" where
  "new_crew q n = \<lparr> cr_ring = q, cr_pcs = replicate n Idle, cr_sent = [], cr_claims = [], cr_taken = [] \<rparr>"

datatype 'a move = Call_Enqueue nat 'a | Call_Dequeue nat | Step nat

fun between_calls :: "'a pc \<Rightarrow> bool" where
  "between_calls Idle = True"
| "between_calls (Enq_returned ok) = True"
| "between_calls (Deq_returned v ok) = True"
| "between_calls _ = False"

fun sends :: "nat \<Rightarrow> 'a Ring \<Rightarrow> 'a pc \<Rightarrow> (nat \<times> 'a) list" where
  "sends t q (Enq_free v pos) = (if enqueuePos q = pos then [(t, v)] else [])"
| "sends t q _ = []"

fun claims :: "nat \<Rightarrow> 'a Ring \<Rightarrow> 'a pc \<Rightarrow> nat list" where
  "claims t q (Deq_full pos) = (if dequeuePos q = pos then [t] else [])"
| "claims t q _ = []"

fun takes :: "nat \<Rightarrow> 'a Ring \<Rightarrow> 'a pc \<Rightarrow> (nat \<times> nat \<times> 'a) list" where
  "takes t q (Deq_won pos) = [(t, unat pos, cvalue (cell_at q pos))]"
| "takes t q _ = []"

definition step_pc :: "'a \<Rightarrow> nat \<Rightarrow> 'a pc \<Rightarrow> 'a crew \<Rightarrow> 'a crew" where
  "step_pc zero t pc s =
     (case advance zero (cr_ring s) pc of (pc', q') \<Rightarrow>
        \<lparr> cr_ring = q', cr_pcs = (cr_pcs s)[t := pc'],
          cr_sent = cr_sent s @ sends t (cr_ring s) pc,
          cr_claims = cr_claims s @ claims t (cr_ring s) pc,
          cr_taken = cr_taken s @ takes t (cr_ring s) pc \<rparr>)"

fun crew_step :: "'a \<Rightarrow> 'a move \<Rightarrow> 'a crew \<Rightarrow> 'a crew" where
  "crew_step zero (Call_Enqueue t v) s =
     (if t < length (cr_pcs s) \<and> between_calls (cr_pcs s ! t)
      then s\<lparr> cr_pcs := (cr_pcs s)[t := Enq_start v] \<rparr> else s)"
| "crew_step zero (Call_Dequeue t) s =
     (if t < length (cr_pcs s) \<and> between_calls (cr_pcs s ! t)
      then s\<lparr> cr_pcs := (cr_pcs s)[t := Deq_start] \<rparr> else s)"
| "crew_step zero (Step t) s =
     (if t < length (cr_pcs s) then step_pc zero t (cr_pcs s ! t) s else s)"

text \<open>A schedule is the list of moves in the order in which they happen.\<close>

definition crew_run :: "'a \<Rightarrow> 'a move list \<Rightarrow> 'a crew \<Rightarrow> 'a crew" where
  "crew_run zero moves s = fold (crew_step zero) moves s"

definition quiet :: "'a crew \<Rightarrow> bool" where
  "quiet s \<longleftrightarrow> list_all between_calls (cr_pcs s)"

text \<open>Left alone, a goroutine's accesses are one turn of the loop of the theory \<^verbatim>\<open>Ring\<close>.\<close>

fun solo :: "'a \<Rightarrow> nat \<Rightarrow> 'a pc \<times> 'a Ring \<Rightarrow> 'a pc \<times> 'a Ring" where
  "solo zero 0 r = r"
| "solo zero (Suc n) (pc, q) = solo zero n (advance zero q pc)"

lemma cell_index_less:
  "length (ring_cells q) = 2 ^ k \<Longrightarrow> ring_mask q = 2 ^ k - 1 \<Longrightarrow> k < 64 \<Longrightarrow> cell_index q pos < length (ring_cells q)"
  by (simp add: cell_index_def unat_mask)

lemma cell_rebuilt [simp]: "c\<lparr>cvalue := v, sequence := n\<rparr> = \<lparr>sequence = n, cvalue = v\<rparr>"
  by (cases c) simp

text \<open>
  Nothing changes between the accesses of a goroutine that is alone, so the compare-and-swap
  succeeds and the call answers as \<^const>\<open>Enqueue\<close> and \<^const>\<open>Dequeue\<close> do.
\<close>

lemma solo_Enqueue:
  assumes inv: "ring_inv q" and turn: "enqueue_turn v q = Some (ok, q')"
  shows "\<exists>n. solo zero n (Enq_start v, q) = (Enq_returned ok, q')"
proof -
  obtain k where "ring_view q k" "k < 64" using inv by (auto simp: ring_inv_def)
  then have ix: "cell_index q pos < length (ring_cells q)" for pos
    by (intro cell_index_less [of _ k]) (simp_all add: ring_view_def)
  have ix': "cell_index (set_value p v (q\<lparr>enqueuePos := x\<rparr>)) pos = cell_index q pos"
    "cell_index (q\<lparr>enqueuePos := x\<rparr>) pos = cell_index q pos" for pos p x
    by (simp_all add: cell_index_def set_value_def)
  show ?thesis
  proof (cases ok)
    case True
    then have "solo zero 6 (Enq_start v, q) = (Enq_returned ok, q')"
      using turn ix by (simp add: enqueue_turn_def Let_def cell_at_def eval_nat_numeral set_sequence_def ix'
          split: if_splits) (simp add: set_value_def cell_at_def ix')
    then show ?thesis by blast
  next
    case False
    then have "solo zero 2 (Enq_start v, q) = (Enq_returned ok, q')"
      using turn by (simp add: enqueue_turn_def Let_def cell_at_def eval_nat_numeral split: if_splits)
    then show ?thesis by blast
  qed
qed

lemma solo_Dequeue:
  assumes inv: "ring_inv q" and turn: "dequeue_turn zero q = Some ((v, ok), q')"
  shows "\<exists>n. solo zero n (Deq_start, q) = (Deq_returned v ok, q')"
proof -
  obtain k where "ring_view q k" "k < 64" using inv by (auto simp: ring_inv_def)
  then have ix: "cell_index q pos < length (ring_cells q)" for pos
    by (intro cell_index_less [of _ k]) (simp_all add: ring_view_def)
  have ix': "cell_index (set_value p zero (q\<lparr>dequeuePos := x\<rparr>)) pos = cell_index q pos"
    "cell_index (q\<lparr>dequeuePos := x\<rparr>) pos = cell_index q pos" for pos p x
    by (simp_all add: cell_index_def set_value_def)
  show ?thesis
  proof (cases ok)
    case True
    then have "solo zero 7 (Deq_start, q) = (Deq_returned v ok, q')"
      using turn ix by (simp add: dequeue_turn_def Let_def cell_at_def eval_nat_numeral set_sequence_def ix'
          split: if_splits) (auto simp add: set_value_def cell_at_def ix')
    then show ?thesis by blast
  next
    case False
    then have "solo zero 2 (Deq_start, q) = (Deq_returned v ok, q')"
      using turn by (simp add: dequeue_turn_def Let_def cell_at_def eval_nat_numeral split: if_splits)
    then show ?thesis by blast
  qed
qed

section \<open>The invariant\<close>

text \<open>
  Positions are read as natural numbers, which is exact as long as fewer than \<open>2 ^ 63\<close> values are
  enqueued.  \<open>seq_of\<close> and \<open>value_of\<close> are the cell that a position falls into.
\<close>

definition seq_of :: "'a Ring \<Rightarrow> nat \<Rightarrow> nat" where
  "seq_of q p = unat (sequence (ring_cells q ! (p mod length (ring_cells q))))"

definition value_of :: "'a Ring \<Rightarrow> nat \<Rightarrow> 'a" where
  "value_of q p = cvalue (ring_cells q ! (p mod length (ring_cells q)))"

text \<open>The position a goroutine holds between winning the compare-and-swap and releasing the cell.\<close>

fun fills :: "'a pc \<Rightarrow> nat option" where
  "fills (Enq_won v pos) = Some (unat pos)"
| "fills (Enq_written pos) = Some (unat pos)"
| "fills _ = None"

fun empties :: "'a pc \<Rightarrow> nat option" where
  "empties (Deq_won pos) = Some (unat pos)"
| "empties (Deq_read v pos) = Some (unat pos)"
| "empties (Deq_cleared v pos) = Some (unat pos)"
| "empties _ = None"

text \<open>What a call has still to add to the length counter.\<close>

fun weight :: "'a pc \<Rightarrow> i64" where
  "weight (Enq_won v pos) = 1"
| "weight (Enq_written pos) = 1"
| "weight Enq_published = 1"
| "weight (Deq_won pos) = -1"
| "weight (Deq_read v pos) = -1"
| "weight (Deq_cleared v pos) = -1"
| "weight (Deq_released v) = -1"
| "weight _ = 0"

definition shape :: "'a crew \<Rightarrow> bool" where
  "shape s \<longleftrightarrow> (\<exists>k. 0 < k \<and> k < 63 \<and> length (ring_cells (cr_ring s)) = 2 ^ k \<and> ring_mask (cr_ring s) = 2 ^ k - 1)
     \<and> enqueuePos (cr_ring s) = of_nat (length (cr_sent s)) \<and> dequeuePos (cr_ring s) = of_nat (length (cr_claims s))
     \<and> length (cr_claims s) \<le> length (cr_sent s)
     \<and> length (cr_sent s) \<le> length (cr_claims s) + length (ring_cells (cr_ring s))
     \<and> ring_length (cr_ring s) + sum_list (map weight (cr_pcs s))
        = of_nat (length (cr_sent s)) - of_nat (length (cr_claims s))"

text \<open>The cell of a position that was won by a producer, and of one that is still to be won.\<close>

definition occupied :: "'a crew \<Rightarrow> nat \<Rightarrow> bool" where
  "occupied s p \<longleftrightarrow> seq_of (cr_ring s) p = Suc p \<and> value_of (cr_ring s) p = snd (cr_sent s ! p)
     \<or> seq_of (cr_ring s) p = p \<and> fst (cr_sent s ! p) < length (cr_pcs s) \<and> fills (cr_pcs s ! fst (cr_sent s ! p)) = Some p"

definition vacant :: "'a crew \<Rightarrow> nat \<Rightarrow> bool" where
  "vacant s p \<longleftrightarrow> seq_of (cr_ring s) p = p
     \<or> (\<exists>d. p = d + length (ring_cells (cr_ring s)) \<and> seq_of (cr_ring s) p = Suc d
          \<and> cr_claims s ! d < length (cr_pcs s) \<and> empties (cr_pcs s ! (cr_claims s ! d)) = Some d)"

definition cells_ok :: "'a crew \<Rightarrow> bool" where
  "cells_ok s \<longleftrightarrow>
     (\<forall>p. length (cr_claims s) \<le> p \<and> p < length (cr_sent s) \<longrightarrow> occupied s p)
     \<and> (\<forall>p. length (cr_sent s) \<le> p \<and> p < length (cr_claims s) + length (ring_cells (cr_ring s)) \<longrightarrow> vacant s p)"

text \<open>What a goroutine may rely on at each point of its call.\<close>

definition filling :: "'a crew \<Rightarrow> nat \<Rightarrow> nat \<Rightarrow> 'a \<Rightarrow> bool" where
  "filling s t p v \<longleftrightarrow> length (cr_claims s) \<le> p \<and> p < length (cr_sent s)
     \<and> seq_of (cr_ring s) p = p \<and> cr_sent s ! p = (t, v)"

definition emptying :: "'a crew \<Rightarrow> nat \<Rightarrow> nat \<Rightarrow> 'a \<Rightarrow> bool" where
  "emptying s t p v \<longleftrightarrow> p < length (cr_claims s) \<and> length (cr_sent s) \<le> p + length (ring_cells (cr_ring s))
     \<and> seq_of (cr_ring s) p = Suc p \<and> cr_claims s ! p = t \<and> v = snd (cr_sent s ! p)"

fun pc_ok :: "'a crew \<Rightarrow> nat \<Rightarrow> 'a pc \<Rightarrow> bool" where
  "pc_ok s t (Enq_loaded v pos) = (unat pos \<le> length (cr_sent s))"
| "pc_ok s t (Enq_free v pos) = (unat pos \<le> length (cr_sent s)
     \<and> (unat pos = length (cr_sent s) \<longrightarrow> seq_of (cr_ring s) (unat pos) = unat pos))"
| "pc_ok s t (Enq_won v pos) = filling s t (unat pos) v"
| "pc_ok s t (Enq_written pos) = filling s t (unat pos) (value_of (cr_ring s) (unat pos))"
| "pc_ok s t (Deq_loaded pos) = (unat pos \<le> length (cr_claims s))"
| "pc_ok s t (Deq_full pos) = (unat pos \<le> length (cr_claims s)
     \<and> (unat pos = length (cr_claims s) \<longrightarrow> seq_of (cr_ring s) (unat pos) = Suc (unat pos)))"
| "pc_ok s t (Deq_won pos) = emptying s t (unat pos) (value_of (cr_ring s) (unat pos))"
| "pc_ok s t (Deq_read v pos) = emptying s t (unat pos) v"
| "pc_ok s t (Deq_cleared v pos) = emptying s t (unat pos) v"
| "pc_ok s t _ = True"

definition pcs_ok :: "'a crew \<Rightarrow> bool" where
  "pcs_ok s \<longleftrightarrow> (\<forall>t < length (cr_pcs s). pc_ok s t (cr_pcs s ! t))"

text \<open>What was read so far, against what was sent and claimed.\<close>

fun reading :: "'a pc \<Rightarrow> nat option" where
  "reading (Deq_won pos) = Some (unat pos)"
| "reading _ = None"

definition taken_ok :: "'a crew \<Rightarrow> bool" where
  "taken_ok s \<longleftrightarrow> distinct (map (fst \<circ> snd) (cr_taken s))
     \<and> sorted_wrt (\<lambda>(t, p, v) (t', p', v'). t = t' \<longrightarrow> p < p') (cr_taken s)
     \<and> (\<forall>(t, p, v) \<in> set (cr_taken s). p < length (cr_claims s) \<and> t = cr_claims s ! p \<and> v = snd (cr_sent s ! p)
          \<and> t < length (cr_pcs s) \<and> (\<forall>p'. reading (cr_pcs s ! t) = Some p' \<longrightarrow> p < p'))
     \<and> (\<forall>p < length (cr_claims s). p \<in> (fst \<circ> snd) ` set (cr_taken s)
          \<or> (cr_claims s ! p < length (cr_pcs s) \<and> reading (cr_pcs s ! (cr_claims s ! p)) = Some p))"

definition crew_inv :: "'a crew \<Rightarrow> bool" where
  "crew_inv s \<longleftrightarrow> shape s \<and> cells_ok s \<and> pcs_ok s \<and> taken_ok s"

section \<open>Every access keeps the invariant\<close>

text \<open>Two positions one apart never share a cell: the capacity is at least two.\<close>

lemma next_cell: "2 \<le> c \<Longrightarrow> Suc p mod c \<noteq> p mod c"
  by (metis One_nat_def add.right_neutral add_Suc_right lessI less_le_trans mod_Suc nat_neq_iff numeral_2_eq_2 zero_neq_one)

lemma shapeD:
  assumes "shape s"
  shows "2 \<le> length (ring_cells (cr_ring s))"
    "cell_index (cr_ring s) pos = unat pos mod length (ring_cells (cr_ring s))"
    "enqueuePos (cr_ring s) = of_nat (length (cr_sent s))" "dequeuePos (cr_ring s) = of_nat (length (cr_claims s))"
    "length (cr_claims s) \<le> length (cr_sent s)"
    "length (cr_sent s) \<le> length (cr_claims s) + length (ring_cells (cr_ring s))"
    "ring_mask (cr_ring s) + 1 = of_nat (length (ring_cells (cr_ring s)))"
proof -
  obtain k where k: "0 < k" "k < 63" "length (ring_cells (cr_ring s)) = 2 ^ k" "ring_mask (cr_ring s) = 2 ^ k - 1"
    using assms by (auto simp: shape_def)
  show "2 \<le> length (ring_cells (cr_ring s))" using k(1) power_increasing [of 1 k "2 :: nat"] by (simp add: k(3))
  show "cell_index (cr_ring s) pos = unat pos mod length (ring_cells (cr_ring s))"
    by (simp add: cell_index_def k(3,4) unat_mask)
  show "ring_mask (cr_ring s) + 1 = of_nat (length (ring_cells (cr_ring s)))"
    by (simp add: k(3,4))
qed (use assms in \<open>auto simp: shape_def\<close>)

text \<open>The view of the cells after a write.\<close>

lemma set_fields [simp]:
  "length (ring_cells (set_value pos v q)) = length (ring_cells q)"
  "length (ring_cells (set_sequence pos n q)) = length (ring_cells q)"
  "ring_mask (set_value pos v q) = ring_mask q" "ring_mask (set_sequence pos n q) = ring_mask q"
  "enqueuePos (set_value pos v q) = enqueuePos q" "enqueuePos (set_sequence pos n q) = enqueuePos q"
  "dequeuePos (set_value pos v q) = dequeuePos q" "dequeuePos (set_sequence pos n q) = dequeuePos q"
  "ring_length (set_value pos v q) = ring_length q" "ring_length (set_sequence pos n q) = ring_length q"
  by (simp_all add: set_value_def set_sequence_def)

lemma view_fields [simp]:
  "seq_of (q\<lparr> enqueuePos := x \<rparr>) p = seq_of q p" "value_of (q\<lparr> enqueuePos := x \<rparr>) p = value_of q p"
  "seq_of (q\<lparr> dequeuePos := x \<rparr>) p = seq_of q p" "value_of (q\<lparr> dequeuePos := x \<rparr>) p = value_of q p"
  "seq_of (q\<lparr> ring_length := l \<rparr>) p = seq_of q p" "value_of (q\<lparr> ring_length := l \<rparr>) p = value_of q p"
  by (simp_all add: seq_of_def value_of_def)

lemma view_set:
  assumes "cell_index q pos = unat pos mod length (ring_cells q)" "0 < length (ring_cells q)"
  shows "seq_of (set_value pos v q) p = seq_of q p"
    "value_of (set_sequence pos n q) p = value_of q p"
    "seq_of (set_sequence pos n q) p = (if p mod length (ring_cells q) = unat pos mod length (ring_cells q) then unat n else seq_of q p)"
    "value_of (set_value pos v q) p = (if p mod length (ring_cells q) = unat pos mod length (ring_cells q) then v else value_of q p)"
    "sequence (cell_at q pos) = of_nat (seq_of q (unat pos))" "cvalue (cell_at q pos) = value_of q (unat pos)"
  using assms by (auto simp: seq_of_def value_of_def set_value_def set_sequence_def cell_at_def nth_list_update)

lemma same_cell:
  assumes "p mod length (ring_cells q) = p' mod length (ring_cells q)"
  shows "seq_of q p = seq_of q p'" "value_of q p = value_of q p'"
  using assms by (simp_all add: seq_of_def value_of_def)

lemma occupied_kept:
  assumes "occupied s p" "t < length (cr_pcs s)" "pc = cr_pcs s ! t"
    "seq_of q p = seq_of (cr_ring s) p" "seq_of q p = Suc p \<longrightarrow> value_of q p = value_of (cr_ring s) p"
    "sent ! p = cr_sent s ! p" "fills pc = Some p \<longrightarrow> fills pc' = Some p"
  shows "occupied \<lparr> cr_ring = q, cr_pcs = (cr_pcs s)[t := pc'], cr_sent = sent, cr_claims = cl, cr_taken = tk \<rparr> p"
  using assms by (cases "fst (cr_sent s ! p) = t") (auto simp: occupied_def)

lemma vacant_kept:
  assumes "vacant s p" "t < length (cr_pcs s)" "pc = cr_pcs s ! t"
    "seq_of q p = seq_of (cr_ring s) p" "length (ring_cells q) = length (ring_cells (cr_ring s))"
    "\<And>d. p = d + length (ring_cells q) \<Longrightarrow> cl ! d = cr_claims s ! d" "\<And>d. p = d + length (ring_cells q) \<Longrightarrow> empties pc = Some d \<Longrightarrow> empties pc' = Some d"
  shows "vacant \<lparr> cr_ring = q, cr_pcs = (cr_pcs s)[t := pc'], cr_sent = sent, cr_claims = cl, cr_taken = tk \<rparr> p"
  using assms by (auto simp: vacant_def nth_list_update)

text \<open>Words and natural numbers agree below the bound.\<close>

definition roomy :: "'a crew \<Rightarrow> bool" where
  "roomy s \<longleftrightarrow> length (cr_sent s) + length (ring_cells (cr_ring s)) < 2 ^ 63"

lemma small_unat: "n < 2 ^ 64 \<Longrightarrow> unat (of_nat n :: u64) = n"
  by (simp add: unsigned_of_nat take_bit_nat_eq_self)

lemma unat_Suc: "unat pos < n \<Longrightarrow> n < 2 ^ 63 \<Longrightarrow> unat (pos + 1 :: u64) = Suc (unat pos)"
  using small_unat [of "Suc (unat pos)"] by (simp add: add.commute)

lemma unat_release:
  assumes "shape s" "roomy s" "unat pos \<le> length (cr_sent s)"
  shows "unat (pos + ring_mask (cr_ring s) + 1) = unat pos + length (ring_cells (cr_ring s))"
proof -
  have "pos + ring_mask (cr_ring s) + 1 = of_nat (unat pos + length (ring_cells (cr_ring s)))"
    using shapeD(7) [OF assms(1)] by (simp add: add.assoc)
  moreover have "unat pos + length (ring_cells (cr_ring s)) < 2 ^ 64" using assms(2,3) by (simp add: roomy_def)
  ultimately show ?thesis by (simp only: small_unat)
qed

lemma of_nat_eq: "n < 2 ^ 64 \<Longrightarrow> (of_nat n :: u64) = pos \<longleftrightarrow> unat pos = n"
  by (auto simp: small_unat)

lemma unat_eqD: "unat pos = n \<Longrightarrow> pos = of_nat n" for pos :: u64
  by auto

lemma counter_eq:
  assumes "shape s" "roomy s"
  shows "enqueuePos (cr_ring s) = pos \<longleftrightarrow> unat pos = length (cr_sent s)"
    "dequeuePos (cr_ring s) = pos \<longleftrightarrow> unat pos = length (cr_claims s)"
  using shapeD(5) [OF assms(1)] assms(2) by (simp_all add: shapeD(3,4) [OF assms(1)] of_nat_eq roomy_def)

lemma seq_of_less: "seq_of q p < 2 ^ 64"
  using unsigned_less [of "sequence (ring_cells q ! (p mod length (ring_cells q)))", where 'a = nat] by (simp add: seq_of_def)

lemma seq_zero: "sint (of_nat (seq_of q p) - pos :: u64) = 0 \<longleftrightarrow> seq_of q p = unat pos"
  using of_nat_eq [OF seq_of_less, of q p pos] by (auto simp: signed_eq_0_iff)

text \<open>The sequence number of a cell tells which position it is at and which side holds it.\<close>

lemma clash:
  assumes two: "2 \<le> length (ring_cells q)" and same: "p mod length (ring_cells q) = p' mod length (ring_cells q)"
    and sq: "seq_of q p = Suc p"
  shows "seq_of q p' \<noteq> p'"
proof
  assume "seq_of q p' = p'"
  then have "p' = Suc p" using same_cell(1) [OF same] sq by simp
  then show False using next_cell [OF two, of p] same by simp
qed

lemma agree:
  "p mod length (ring_cells q) = p' mod length (ring_cells q) \<Longrightarrow> seq_of q p = p \<Longrightarrow> seq_of q p' = p' \<Longrightarrow> p = p'"
  "p mod length (ring_cells q) = p' mod length (ring_cells q) \<Longrightarrow> seq_of q p = Suc p \<Longrightarrow> seq_of q p' = Suc p' \<Longrightarrow> p = p'"
  by (metis same_cell(1), metis same_cell(1) nat.inject)

lemma vacant_seq:
  assumes vac: "vacant s p" and same: "p mod length (ring_cells (cr_ring s)) = p' mod length (ring_cells (cr_ring s))"
    and two: "2 \<le> length (ring_cells (cr_ring s))"
  shows "seq_of (cr_ring s) p' = p' \<Longrightarrow> p = p'"
    "seq_of (cr_ring s) p' = Suc p' \<Longrightarrow> p = p' + length (ring_cells (cr_ring s))"
proof -
  note eq = same_cell(1) [OF same]
  consider "seq_of (cr_ring s) p = p" | d where "p = d + length (ring_cells (cr_ring s))" "seq_of (cr_ring s) p = Suc d"
    using vac by (auto simp: vacant_def)
  then have "(seq_of (cr_ring s) p' = p' \<longrightarrow> p = p')
      \<and> (seq_of (cr_ring s) p' = Suc p' \<longrightarrow> p = p' + length (ring_cells (cr_ring s)))"
  proof cases
    case 1
    then show ?thesis using eq same next_cell [OF two, of p'] by auto
  next
    case (2 d)
    have "seq_of (cr_ring s) p' = p' \<Longrightarrow> False" using 2 eq same next_cell [OF two, of d] by auto
    then show ?thesis using 2 eq by auto
  qed
  then show "seq_of (cr_ring s) p' = p' \<Longrightarrow> p = p'"
    "seq_of (cr_ring s) p' = Suc p' \<Longrightarrow> p = p' + length (ring_cells (cr_ring s))" by blast+
qed

text \<open>A change of the ring and of one goroutine that leaves the cells of both kinds in order.\<close>

lemma cells_okI:
  assumes "\<And>p. length cl \<le> p \<Longrightarrow> p < length sent \<Longrightarrow> occupied \<lparr> cr_ring = q, cr_pcs = pcs, cr_sent = sent, cr_claims = cl, cr_taken = tk \<rparr> p"
    and "\<And>p. length sent \<le> p \<Longrightarrow> p < length cl + length (ring_cells q)
      \<Longrightarrow> vacant \<lparr> cr_ring = q, cr_pcs = pcs, cr_sent = sent, cr_claims = cl, cr_taken = tk \<rparr> p"
  shows "cells_ok \<lparr> cr_ring = q, cr_pcs = pcs, cr_sent = sent, cr_claims = cl, cr_taken = tk \<rparr>"
  using assms by (simp add: cells_ok_def)

lemma cells_step:
  assumes inv: "crew_inv s" and room: "roomy s" and t: "t < length (cr_pcs s)"
  shows "cells_ok (step_pc zero t (cr_pcs s ! t) s)"
proof -
  have sh: "shape s" and ce: "cells_ok s" and pcs: "pc_ok s t (cr_pcs s ! t)" using inv t by (auto simp: crew_inv_def pcs_ok_def)
  note D = shapeD [OF sh]
  have C0: "0 < length (ring_cells (cr_ring s))" using D(1) by linarith
  note V = view_set [OF D(2) C0]
  note nx = next_cell [OF D(1)]
  note kept = occupied_kept [where t = t, OF _ t] vacant_kept [where t = t, OF _ t]
  show ?thesis
  proof (cases "cr_pcs s ! t")
    case Idle then show ?thesis using ce by (auto simp: step_pc_def cells_ok_def intro!: kept)
  next case (Enq_start v) then show ?thesis using ce by (auto simp: step_pc_def cells_ok_def intro!: kept)
  next case (Enq_loaded v pos) then show ?thesis using ce by (auto simp: step_pc_def Let_def cells_ok_def intro!: kept)
  next case (Enq_free v pos)
    show ?thesis
    proof (cases "unat pos = length (cr_sent s)")
      case True
      then have "seq_of (cr_ring s) (length (cr_sent s)) = length (cr_sent s)" using pcs Enq_free by auto
      then have new: "occupied (step_pc zero t (cr_pcs s ! t) s) (length (cr_sent s))"
        using True t Enq_free by (simp add: step_pc_def counter_eq [OF sh room] occupied_def)
      have old: "occupied (step_pc zero t (cr_pcs s ! t) s) p" if "length (cr_claims s) \<le> p" "p < length (cr_sent s)" for p
        using that ce True Enq_free by (auto simp: step_pc_def counter_eq [OF sh room] cells_ok_def nth_append intro!: kept)
      show ?thesis
        using new old ce True Enq_free
        by (auto simp: step_pc_def counter_eq [OF sh room] cells_ok_def less_Suc_eq nth_append intro!: kept)
    next
      case False
      then show ?thesis using ce Enq_free by (auto simp: step_pc_def cells_ok_def counter_eq [OF sh room] intro!: kept)
    qed
  next case (Enq_won v pos)
    then show ?thesis using ce pcs by (auto simp: step_pc_def cells_ok_def V filling_def dest: clash [OF D(1)] intro!: kept)
  next case (Enq_written pos)
    then have fill: "filling s t (unat pos) (value_of (cr_ring s) (unat pos))" using pcs by simp
    let ?q = "set_sequence pos (pos + 1) (cr_ring s)"
    have nxt: "unat (pos + 1) = Suc (unat pos)"
      using fill room by (intro unat_Suc [of pos "length (cr_sent s)"]) (auto simp: filling_def roomy_def)
    have occ: "occupied (step_pc zero t (cr_pcs s ! t) s) p" if p: "length (cr_claims s) \<le> p" "p < length (cr_sent s)" for p
    proof (cases "p mod length (ring_cells (cr_ring s)) = unat pos mod length (ring_cells (cr_ring s))")
      case True
      have "occupied s p" using ce p by (auto simp: cells_ok_def)
      then have "p = unat pos"
        using fill True agree(1) [OF True] clash [OF D(1) True] by (auto simp: occupied_def filling_def)
      then show ?thesis using fill Enq_written by (auto simp: step_pc_def occupied_def V nxt filling_def)
    next
      case False
      then show ?thesis using ce p Enq_written by (auto simp: step_pc_def cells_ok_def V intro!: kept)
    qed
    have vac: "vacant (step_pc zero t (cr_pcs s ! t) s) p"
      if p: "length (cr_sent s) \<le> p" "p < length (cr_claims s) + length (ring_cells (cr_ring s))" for p
    proof -
      have v: "vacant s p" using ce p by (auto simp: cells_ok_def)
      then have "p mod length (ring_cells (cr_ring s)) \<noteq> unat pos mod length (ring_cells (cr_ring s))"
        using vacant_seq(1) [OF v _ D(1), of "unat pos"] fill p by (auto simp: filling_def)
      then show ?thesis using v Enq_written by (auto simp: step_pc_def V intro!: kept)
    qed
    show ?thesis using occ vac Enq_written by (simp add: cells_ok_def step_pc_def)
  next case (Enq_published) then show ?thesis using ce by (auto simp: step_pc_def cells_ok_def intro!: kept)
  next case (Enq_returned ok) then show ?thesis using ce by (auto simp: step_pc_def cells_ok_def intro!: kept)
  next case (Deq_start) then show ?thesis using ce by (auto simp: step_pc_def cells_ok_def intro!: kept)
  next case (Deq_loaded pos) then show ?thesis using ce by (auto simp: step_pc_def Let_def cells_ok_def intro!: kept)
  next case (Deq_full pos)
    show ?thesis
    proof (cases "unat pos = length (cr_claims s)")
      case True
      then have sq: "seq_of (cr_ring s) (length (cr_claims s)) = Suc (length (cr_claims s))" using pcs Deq_full by auto
      have "seq_of (cr_ring s) (length (cr_claims s) + length (ring_cells (cr_ring s))) = Suc (length (cr_claims s))"
        using same_cell(1) [of "length (cr_claims s) + length (ring_cells (cr_ring s))" "cr_ring s" "length (cr_claims s)"] sq
        by simp
      then have new: "vacant (step_pc zero t (cr_pcs s ! t) s) (length (cr_claims s) + length (ring_cells (cr_ring s)))"
        using True t Deq_full by (simp add: step_pc_def counter_eq [OF sh room] vacant_def)
      have old: "vacant (step_pc zero t (cr_pcs s ! t) s) p"
        if "length (cr_sent s) \<le> p" "p < length (cr_claims s) + length (ring_cells (cr_ring s))" for p
        using that ce True Deq_full by (auto simp: step_pc_def counter_eq [OF sh room] cells_ok_def nth_append intro!: kept)
      show ?thesis
        using new old ce True Deq_full
        by (auto simp: step_pc_def counter_eq [OF sh room] cells_ok_def less_Suc_eq nth_append intro!: kept)
    next
      case False
      then show ?thesis using ce Deq_full by (auto simp: step_pc_def cells_ok_def counter_eq [OF sh room] intro!: kept)
    qed
  next case (Deq_won pos) then show ?thesis using ce by (auto simp: step_pc_def cells_ok_def intro!: kept)
  next case (Deq_read v pos)
    then have e: "emptying s t (unat pos) v" using pcs by simp
    then have "p mod length (ring_cells (cr_ring s)) \<noteq> unat pos mod length (ring_cells (cr_ring s))"
      if "length (cr_claims s) \<le> p" "seq_of (cr_ring s) p = Suc p" for p
      using agree(2) [of p "cr_ring s" "unat pos"] that by (auto simp: emptying_def)
    then show ?thesis using ce Deq_read by (auto simp: step_pc_def cells_ok_def V intro!: kept)
  next case (Deq_cleared v pos)
    then have e: "emptying s t (unat pos) v" using pcs by simp
    have nxt: "unat (pos + ring_mask (cr_ring s) + 1) = unat pos + length (ring_cells (cr_ring s))"
      using e D(5) by (intro unat_release [OF sh room]) (auto simp: emptying_def)
    have occ: "occupied (step_pc zero t (cr_pcs s ! t) s) p" if p: "length (cr_claims s) \<le> p" "p < length (cr_sent s)" for p
    proof -
      have o: "occupied s p" using ce p by (auto simp: cells_ok_def)
      then have "p mod length (ring_cells (cr_ring s)) \<noteq> unat pos mod length (ring_cells (cr_ring s))"
        using e p agree(2) [of p "cr_ring s" "unat pos"] clash [OF D(1), of "unat pos" p]
        by (auto simp: occupied_def emptying_def)
      then show ?thesis using o Deq_cleared by (auto simp: step_pc_def V intro!: kept)
    qed
    have vac: "vacant (step_pc zero t (cr_pcs s ! t) s) p"
      if p: "length (cr_sent s) \<le> p" "p < length (cr_claims s) + length (ring_cells (cr_ring s))" for p
    proof (cases "p mod length (ring_cells (cr_ring s)) = unat pos mod length (ring_cells (cr_ring s))")
      case True
      have "vacant s p" using ce p by (auto simp: cells_ok_def)
      then have "p = unat pos + length (ring_cells (cr_ring s))"
        using vacant_seq(2) [OF _ True D(1)] e by (auto simp: emptying_def)
      then show ?thesis using True Deq_cleared by (simp add: step_pc_def vacant_def V nxt)
    next
      case False
      have "vacant s p" using ce p by (auto simp: cells_ok_def)
      then show ?thesis using False Deq_cleared by (auto simp: step_pc_def V intro!: kept)
    qed
    show ?thesis using occ vac Deq_cleared by (simp add: cells_ok_def step_pc_def)
  next case (Deq_released v) then show ?thesis using ce by (auto simp: step_pc_def cells_ok_def intro!: kept)
  next case (Deq_returned v ok) then show ?thesis using ce by (auto simp: step_pc_def cells_ok_def intro!: kept)
  qed
qed

text \<open>The goroutines that did not move keep what they rely on.\<close>

lemma filling_kept:
  assumes "filling s u p v" "length cl \<le> p" "p < length sent" "sent ! p = cr_sent s ! p" "seq_of q p = seq_of (cr_ring s) p"
  shows "filling \<lparr> cr_ring = q, cr_pcs = pcs, cr_sent = sent, cr_claims = cl, cr_taken = tk \<rparr> u p v"
  using assms by (simp add: filling_def)

lemma emptying_kept:
  assumes "emptying s u p v" "p < length cl" "length sent \<le> p + length (ring_cells q)" "sent ! p = cr_sent s ! p"
    "cl ! p = cr_claims s ! p" "seq_of q p = seq_of (cr_ring s) p" "length (ring_cells q) = length (ring_cells (cr_ring s))"
  shows "emptying \<lparr> cr_ring = q, cr_pcs = pcs, cr_sent = sent, cr_claims = cl, cr_taken = tk \<rparr> u p v"
  using assms by (simp add: emptying_def)

lemma filling_write:
  "filling s u p v \<Longrightarrow> seq_of q p = seq_of (cr_ring s) p
    \<Longrightarrow> filling \<lparr> cr_ring = q, cr_pcs = pcs, cr_sent = cr_sent s, cr_claims = cr_claims s, cr_taken = tk \<rparr> u p v"
  by (simp add: filling_def)

lemma emptying_write:
  "emptying s u p v \<Longrightarrow> seq_of q p = seq_of (cr_ring s) p \<Longrightarrow> length (ring_cells q) = length (ring_cells (cr_ring s))
    \<Longrightarrow> emptying \<lparr> cr_ring = q, cr_pcs = pcs, cr_sent = cr_sent s, cr_claims = cr_claims s, cr_taken = tk \<rparr> u p v"
  by (simp add: emptying_def)

text \<open>Two goroutines that hold cells hold different cells.\<close>

lemma held_apart:
  assumes two: "2 \<le> length (ring_cells (cr_ring s))" and "t \<noteq> u"
    and t: "filling s t p v \<or> emptying s t p v" and u: "filling s u p' v' \<or> emptying s u p' v'"
  shows "p mod length (ring_cells (cr_ring s)) \<noteq> p' mod length (ring_cells (cr_ring s))"
proof
  assume same: "p mod length (ring_cells (cr_ring s)) = p' mod length (ring_cells (cr_ring s))"
  show False
    using t u agree [OF same] clash [OF two same] clash [OF two same [symmetric]] \<open>t \<noteq> u\<close>
    by (auto simp: filling_def emptying_def)
qed

text \<open>Neither the next position to fill nor the next to empty is in a cell that is held.\<close>

lemma held_not_next:
  assumes two: "2 \<le> length (ring_cells (cr_ring s))" and t: "filling s t p v \<or> emptying s t p v"
  shows "seq_of (cr_ring s) (length (cr_sent s)) = length (cr_sent s)
      \<Longrightarrow> length (cr_sent s) mod length (ring_cells (cr_ring s)) \<noteq> p mod length (ring_cells (cr_ring s))"
    "seq_of (cr_ring s) (length (cr_claims s)) = Suc (length (cr_claims s))
      \<Longrightarrow> length (cr_claims s) mod length (ring_cells (cr_ring s)) \<noteq> p mod length (ring_cells (cr_ring s))"
  using t agree(1) [of "length (cr_sent s)" "cr_ring s" p] agree(2) [of "length (cr_claims s)" "cr_ring s" p]
    clash [OF two, of p "length (cr_sent s)"] clash [OF two, of "length (cr_claims s)" p]
  by (fastforce simp: filling_def emptying_def)+

lemma others_step:
  assumes inv: "crew_inv s" and room: "roomy s" and t: "t < length (cr_pcs s)" and u: "u < length (cr_pcs s)" "u \<noteq> t"
  shows "pc_ok (step_pc zero t (cr_pcs s ! t) s) u (cr_pcs s ! u)"
proof -
  have sh: "shape s" and pct: "pc_ok s t (cr_pcs s ! t)" and pcu: "pc_ok s u (cr_pcs s ! u)"
    using inv t u by (auto simp: crew_inv_def pcs_ok_def)
  note D = shapeD [OF sh]
  have C0: "0 < length (ring_cells (cr_ring s))" using D(1) by linarith
  note V = view_set [OF D(2) C0]
  note kept = filling_kept emptying_kept
  have still: ?thesis if "advance zero (cr_ring s) (cr_pcs s ! t) = (pc', cr_ring s\<lparr> ring_length := l \<rparr>)"
    "sends t (cr_ring s) (cr_pcs s ! t) = []" "claims t (cr_ring s) (cr_pcs s ! t) = []" for pc' l
    using that pcu by (cases "cr_pcs s ! u") (auto simp: step_pc_def filling_def emptying_def)
  have same: "cr_ring s\<lparr> ring_length := ring_length (cr_ring s) \<rparr> = cr_ring s" by simp
  show ?thesis
  proof (cases "cr_pcs s ! t")
    case (Enq_free v pos)
    have "length (cr_sent s) \<noteq> p + length (ring_cells (cr_ring s))"
      if "unat pos = length (cr_sent s)" "emptying s u p w" for p w
      using that pct Enq_free held_not_next(1) [OF D(1) disjI2 [OF that(2)]] by auto
    then show ?thesis using pcu Enq_free D(5)
      by (cases "cr_pcs s ! u")
        (force simp: step_pc_def counter_eq [OF sh room] nth_append intro!: kept simp: filling_def emptying_def)+
  next case (Deq_full pos)
    have "p \<noteq> length (cr_claims s)"
      if "unat pos = length (cr_claims s)" "filling s u p w" for p w
      using that pct Deq_full held_not_next(2) [OF D(1) disjI1 [OF that(2)]] by auto
    then show ?thesis using pcu Deq_full D(5)
      by (cases "cr_pcs s ! u")
        (force simp: step_pc_def counter_eq [OF sh room] nth_append intro!: kept simp: filling_def emptying_def)+
  next case (Enq_won v pos)
    then have f: "filling s t (unat pos) v" using pct by simp
    note apart = held_apart [OF D(1) u(2) _ disjI1 [OF f]]
    show ?thesis using pcu Enq_won apart
      by (cases "cr_pcs s ! u") (auto simp: step_pc_def V dest: apart(1) [OF disjI1] apart(1) [OF disjI2]
        intro!: filling_write emptying_write)
  next case (Enq_written pos)
    then have f: "filling s t (unat pos) (value_of (cr_ring s) (unat pos))" using pct by simp
    note apart = held_apart [OF D(1) u(2) _ disjI1 [OF f]] held_not_next [OF D(1) disjI1 [OF f]]
    show ?thesis using pcu Enq_written apart
      by (cases "cr_pcs s ! u") (auto simp: step_pc_def V dest: apart(1) [OF disjI1] apart(1) [OF disjI2]
        intro!: filling_write emptying_write)
  next case (Deq_read v pos)
    then have e: "emptying s t (unat pos) v" using pct by simp
    note apart = held_apart [OF D(1) u(2) _ disjI2 [OF e]]
    show ?thesis using pcu Deq_read apart
      by (cases "cr_pcs s ! u") (auto simp: step_pc_def V dest: apart(1) [OF disjI1] apart(1) [OF disjI2]
        intro!: filling_write emptying_write)
  next case (Deq_cleared v pos)
    then have e: "emptying s t (unat pos) v" using pct by simp
    note apart = held_apart [OF D(1) u(2) _ disjI2 [OF e]] held_not_next [OF D(1) disjI2 [OF e]]
    show ?thesis using pcu Deq_cleared apart
      by (cases "cr_pcs s ! u") (auto simp: step_pc_def V dest: apart(1) [OF disjI1] apart(1) [OF disjI2]
        intro!: filling_write emptying_write)
  qed (use still [of _ "ring_length (cr_ring s)"] still in \<open>auto simp: same Let_def\<close>)
qed

text \<open>A cell that looks free has room for the next value, one that looks full holds the next value.\<close>

lemma can_fill:
  assumes "shape s" "cells_ok s" "seq_of (cr_ring s) (length (cr_sent s)) = length (cr_sent s)"
  shows "length (cr_sent s) < length (cr_claims s) + length (ring_cells (cr_ring s))"
proof (rule ccontr)
  note D = shapeD [OF assms(1)]
  assume "\<not> ?thesis"
  then have full: "length (cr_sent s) = length (cr_claims s) + length (ring_cells (cr_ring s))" using D(6) by linarith
  then have "seq_of (cr_ring s) (length (cr_claims s)) = length (cr_sent s)"
    using same_cell(1) [of "length (cr_sent s)" "cr_ring s" "length (cr_claims s)"] assms(3) by simp
  moreover have "length (cr_claims s) < length (cr_sent s)" using full D(1) by linarith
  then have "occupied s (length (cr_claims s))" using assms(2) by (simp add: cells_ok_def)
  ultimately show False using full D(1) by (auto simp: occupied_def)
qed

lemma can_empty:
  assumes "shape s" "cells_ok s" "seq_of (cr_ring s) (length (cr_claims s)) = Suc (length (cr_claims s))"
  shows "length (cr_claims s) < length (cr_sent s)"
    "value_of (cr_ring s) (length (cr_claims s)) = snd (cr_sent s ! length (cr_claims s))"
proof -
  note D = shapeD [OF assms(1)]
  show less: "length (cr_claims s) < length (cr_sent s)"
  proof (rule ccontr)
    assume "\<not> ?thesis"
    then have "length (cr_sent s) \<le> length (cr_claims s)" "0 < length (ring_cells (cr_ring s))" using D(1) by linarith+
    then have "vacant s (length (cr_claims s))" using assms(2) by (simp add: cells_ok_def)
    then show False using assms(3) D(1) by (auto simp: vacant_def)
  qed
  then have "occupied s (length (cr_claims s))" using assms(2) by (simp add: cells_ok_def)
  then show "value_of (cr_ring s) (length (cr_claims s)) = snd (cr_sent s ! length (cr_claims s))"
    using assms(3) by (auto simp: occupied_def)
qed

lemma own_step:
  assumes inv: "crew_inv s" and room: "roomy s" and t: "t < length (cr_pcs s)"
  shows "pc_ok (step_pc zero t (cr_pcs s ! t) s) t (fst (advance zero (cr_ring s) (cr_pcs s ! t)))"
proof -
  have sh: "shape s" and ce: "cells_ok s" and pct: "pc_ok s t (cr_pcs s ! t)"
    using inv t by (auto simp: crew_inv_def pcs_ok_def)
  note D = shapeD [OF sh]
  have C0: "0 < length (ring_cells (cr_ring s))" using D(1) by linarith
  note V = view_set [OF D(2) C0]
  have now: "unat (enqueuePos (cr_ring s)) = length (cr_sent s)" "unat (dequeuePos (cr_ring s)) = length (cr_claims s)"
    using counter_eq [OF sh room] by blast+
  show ?thesis
  proof (cases "cr_pcs s ! t")
    case (Enq_free v pos)
    then show ?thesis using pct D(5) by (auto simp: step_pc_def counter_eq [OF sh room] filling_def)
  next case (Deq_full pos)
    then show ?thesis using pct D(6) can_empty [OF sh ce]
      by (auto simp: step_pc_def counter_eq [OF sh room] emptying_def)
  next case (Deq_loaded pos)
    then have "unat (pos + 1) = Suc (unat pos)"
      using pct room D(1,5) by (intro unat_Suc [of pos "Suc (length (cr_claims s))"]) (auto simp: roomy_def)
    then show ?thesis using pct Deq_loaded by (auto simp: step_pc_def Let_def V seq_zero)
  qed (use pct in \<open>auto simp: step_pc_def Let_def V seq_zero now filling_def emptying_def\<close>)
qed

lemma sum_list_replace:
  "t < length xs \<Longrightarrow> sum_list (map f (xs[t := x])) = sum_list (map f xs) - f (xs ! t) + f x" for f :: "'b \<Rightarrow> i64"
  by (induction xs arbitrary: t) (auto simp: algebra_simps split: nat.split)

lemma shape_step:
  assumes inv: "crew_inv s" and room: "roomy s" and t: "t < length (cr_pcs s)"
  shows "shape (step_pc zero t (cr_pcs s ! t) s)"
proof -
  have sh: "shape s" and ce: "cells_ok s" and pct: "pc_ok s t (cr_pcs s ! t)"
    using inv t by (auto simp: crew_inv_def pcs_ok_def)
  note sh' = sh [unfolded shape_def]
  show ?thesis
  proof (cases "cr_pcs s ! t")
    case (Enq_free v pos)
    then show ?thesis using pct sh' can_fill [OF sh ce] sum_list_replace [OF t, of weight]
      by (auto simp: step_pc_def counter_eq [OF sh room] shape_def dest!: unat_eqD)
  next case (Deq_full pos)
    then show ?thesis using pct sh' can_empty(1) [OF sh ce] sum_list_replace [OF t, of weight]
      by (auto simp: step_pc_def counter_eq [OF sh room] shape_def dest!: unat_eqD)
  qed (use sh' in \<open>auto simp: step_pc_def Let_def shape_def sum_list_replace [OF t, of weight]\<close>)
qed

text \<open>What was taken stays in order: a consumer reads at the position it claimed last.\<close>

lemma taken_kept:
  assumes ok: "taken_ok s" and t: "t < length (cr_pcs s)" and less: "length (cr_claims s) \<le> length (cr_sent s)"
    and reads: "reading pc' = reading (cr_pcs s ! t)"
  shows "taken_ok \<lparr> cr_ring = q, cr_pcs = (cr_pcs s)[t := pc'], cr_sent = cr_sent s @ more_sent, cr_claims = cr_claims s,
     cr_taken = cr_taken s \<rparr>"
proof -
  have same: "reading ((cr_pcs s)[t := pc'] ! u) = reading (cr_pcs s ! u)" for u
    using t reads by (cases "u = t") simp_all
  show ?thesis
    using ok less by (auto simp: taken_ok_def same nth_append)
qed

lemma taken_step:
  assumes inv: "crew_inv s" and room: "roomy s" and t: "t < length (cr_pcs s)"
  shows "taken_ok (step_pc zero t (cr_pcs s ! t) s)"
proof -
  have sh: "shape s" and tk: "taken_ok s" and pct: "pc_ok s t (cr_pcs s ! t)"
    using inv t by (auto simp: crew_inv_def pcs_ok_def)
  note D = shapeD [OF sh]
  have C0: "0 < length (ring_cells (cr_ring s))" using D(1) by linarith
  note V = view_set [OF D(2) C0]
  have kept: "taken_ok \<lparr> cr_ring = q, cr_pcs = (cr_pcs s)[t := pc'], cr_sent = cr_sent s, cr_claims = cr_claims s,
     cr_taken = cr_taken s \<rparr>" if "reading pc' = reading (cr_pcs s ! t)" for q pc'
    using taken_kept [OF tk t D(5) that, of q "[]"] by simp
  show ?thesis
  proof (cases "cr_pcs s ! t")
    case (Enq_free v pos)
    then show ?thesis using taken_kept [OF tk t D(5), of "Enq_won v pos"] kept by (auto simp: step_pc_def)
  next case (Deq_full pos)
    show ?thesis
    proof (cases "unat pos = length (cr_claims s)")
      case True
      then show ?thesis
        using tk t Deq_full
        by (auto simp: taken_ok_def step_pc_def counter_eq [OF sh room] nth_append nth_list_update less_Suc_eq split: if_splits)
    next
      case False
      then show ?thesis using kept Deq_full by (simp add: step_pc_def counter_eq [OF sh room])
    qed
  next case (Deq_won pos)
    then have e: "emptying s t (unat pos) (value_of (cr_ring s) (unat pos))" using pct by simp
    have last: "p < unat pos" if "(t, p, v) \<in> set (cr_taken s)" for p v
      using that tk Deq_won by (fastforce simp: taken_ok_def)
    have new: "unat pos \<noteq> p" if "(u, p, v) \<in> set (cr_taken s)" for u p v
      using that tk e last by (fastforce simp: taken_ok_def emptying_def)
    show ?thesis
      using tk t Deq_won e last new
      by (auto simp: taken_ok_def step_pc_def V emptying_def nth_list_update sorted_wrt_append split: if_splits)
  qed (use kept in \<open>auto simp: step_pc_def Let_def\<close>)
qed

lemma crew_inv_step_pc:
  assumes "crew_inv s" "roomy s" "t < length (cr_pcs s)"
  shows "crew_inv (step_pc zero t (cr_pcs s ! t) s)"
proof -
  have pcs: "cr_pcs (step_pc zero t (cr_pcs s ! t) s) = (cr_pcs s)[t := fst (advance zero (cr_ring s) (cr_pcs s ! t))]"
    by (simp add: step_pc_def split: prod.split)
  have "pcs_ok (step_pc zero t (cr_pcs s ! t) s)"
    unfolding pcs_ok_def
  proof (intro allI impI)
    fix u assume u: "u < length (cr_pcs (step_pc zero t (cr_pcs s ! t) s))"
    show "pc_ok (step_pc zero t (cr_pcs s ! t) s) u (cr_pcs (step_pc zero t (cr_pcs s ! t) s) ! u)"
      using own_step [OF assms, of zero] others_step [OF assms, of u zero] u assms(3) by (cases "u = t") (simp_all add: pcs)
  qed
  then show ?thesis
    using shape_step [OF assms] cells_step [OF assms] taken_step [OF assms] by (simp add: crew_inv_def)
qed

lemma pc_ok_pcs: "pc_ok (s\<lparr> cr_pcs := pcs \<rparr>) u pc = pc_ok s u pc"
  by (cases pc) (simp_all add: filling_def emptying_def)

lemma crew_inv_call:
  assumes inv: "crew_inv s" and t: "t < length (cr_pcs s)" and idle: "between_calls (cr_pcs s ! t)"
    and pc: "pc = Enq_start v \<or> pc = Deq_start"
  shows "crew_inv (s\<lparr> cr_pcs := (cr_pcs s)[t := pc] \<rparr>)"
proof -
  have none: "fills (cr_pcs s ! t) = None" "empties (cr_pcs s ! t) = None" "reading (cr_pcs s ! t) = None" "weight (cr_pcs s ! t) = 0"
    "fills pc = None" "empties pc = None" "reading pc = None" "weight pc = 0" "pc_ok s t pc"
    using idle pc by (cases "cr_pcs s ! t"; auto)+
  let ?s = "\<lparr> cr_ring = cr_ring s, cr_pcs = (cr_pcs s)[t := pc], cr_sent = cr_sent s, cr_claims = cr_claims s, cr_taken = cr_taken s \<rparr>"
  have eq: "s\<lparr> cr_pcs := (cr_pcs s)[t := pc] \<rparr> = ?s" by (cases s) simp
  have "shape ?s" using inv none by (simp add: crew_inv_def shape_def sum_list_replace [OF t, of weight])
  moreover have "cells_ok ?s"
    using inv none t by (auto simp: crew_inv_def cells_ok_def intro!: occupied_kept vacant_kept)
  moreover have "pcs_ok (s\<lparr> cr_pcs := (cr_pcs s)[t := pc] \<rparr>)"
    using inv none t unfolding crew_inv_def pcs_ok_def pc_ok_pcs by (simp add: nth_list_update)
  moreover have "taken_ok ?s"
    using inv none taken_kept [of s t pc "cr_ring s" "[]"] t shapeD(5) [of s] by (simp add: crew_inv_def)
  ultimately show ?thesis by (simp only: crew_inv_def eq)
qed

lemma crew_inv_step:
  assumes inv: "crew_inv s" and room: "roomy s" shows "crew_inv (crew_step zero m s)"
proof (cases m)
  case (Call_Enqueue t v)
  then show ?thesis using inv crew_inv_call [OF inv, of t "Enq_start v" v] by simp
next
  case (Call_Dequeue t)
  then show ?thesis using inv crew_inv_call [OF inv, of t Deq_start] by simp
next
  case (Step t)
  then show ?thesis using inv crew_inv_step_pc [OF inv room] by simp
qed

section \<open>Runs\<close>

lemma crew_step_size:
  "length (cr_sent (crew_step zero m s)) \<le> Suc (length (cr_sent s))"
  "length (ring_cells (cr_ring (crew_step zero m s))) = length (ring_cells (cr_ring s))"
  "length (cr_pcs (crew_step zero m s)) = length (cr_pcs s)"
proof -
  have "length (sends t q pc) \<le> 1" for t and q :: "'a Ring" and pc by (cases pc) simp_all
  moreover have "length (ring_cells (snd (advance zero q pc))) = length (ring_cells q)" for q and pc :: "'a pc"
    by (cases pc) (simp_all add: Let_def)
  ultimately show "length (cr_sent (crew_step zero m s)) \<le> Suc (length (cr_sent s))"
    "length (ring_cells (cr_ring (crew_step zero m s))) = length (ring_cells (cr_ring s))"
    "length (cr_pcs (crew_step zero m s)) = length (cr_pcs s)"
    by (cases m; simp add: step_pc_def split: prod.split; metis snd_conv)+
qed

lemma crew_inv_run:
  "crew_inv s \<Longrightarrow> length (cr_sent s) + length moves + length (ring_cells (cr_ring s)) < 2 ^ 63
    \<Longrightarrow> crew_inv (crew_run zero moves s) \<and> roomy (crew_run zero moves s)
      \<and> length (cr_pcs (crew_run zero moves s)) = length (cr_pcs s)
      \<and> length (ring_cells (cr_ring (crew_run zero moves s))) = length (ring_cells (cr_ring s))"
proof (induction moves arbitrary: s)
  case Nil
  then show ?case by (simp add: crew_run_def roomy_def)
next
  case (Cons m moves)
  have "crew_inv (crew_step zero m s)" using Cons.prems by (intro crew_inv_step) (simp_all add: roomy_def)
  then show ?case
    using Cons.IH [of "crew_step zero m s"] Cons.prems crew_step_size [of zero m s] by (simp add: crew_run_def)
qed

lemma new_crew_inv:
  assumes q: "NewRing zero capacity = Inr q" and small: "unat capacity < 2 ^ 63"
  shows "crew_inv (new_crew q n)" "length (ring_cells q) = unat capacity"
proof -
  obtain k where k: "k < 64" "0 < k" "capacity = 2 ^ k"
    using q capacity_test [of capacity] by (auto simp: NewRing_def split: if_splits)
  have u: "unat capacity = 2 ^ k" using k by (simp add: unat_two_power)
  then have "(2 :: nat) ^ k < 2 ^ 63" using small by (simp only: u)
  then have k63: "k < 63" by (rule power_less_imp_less_exp [rotated]) simp
  have cells: "ring_cells q = map (\<lambda>i. \<lparr> sequence = of_nat i, cvalue = zero \<rparr>) [0..<2 ^ k]" "ring_mask q = 2 ^ k - 1"
    "enqueuePos q = 0" "dequeuePos q = 0" "ring_length q = 0"
    using q u k(3) by (auto simp: NewRing_def split: if_splits)
  show "length (ring_cells q) = unat capacity" by (simp add: cells u)
  have "shape (new_crew q n)" using k(2) k63 by (auto simp: shape_def new_crew_def cells sum_list_replicate)
  moreover have "seq_of q p = p" if "p < 2 ^ k" for p
    using that pow_less_64 [OF k(1)] by (simp add: seq_of_def cells small_unat)
  ultimately show "crew_inv (new_crew q n)"
    by (auto simp: crew_inv_def cells_ok_def pcs_ok_def taken_ok_def new_crew_def vacant_def cells)
qed

lemma crew_run_inv:
  assumes "NewRing zero capacity = Inr q" "length moves + unat capacity < 2 ^ 63"
  shows "crew_inv (crew_run zero moves (new_crew q n))" "roomy (crew_run zero moves (new_crew q n))"
    "length (cr_pcs (crew_run zero moves (new_crew q n))) = n"
    "length (ring_cells (cr_ring (crew_run zero moves (new_crew q n)))) = unat capacity"
  using crew_inv_run [where s = "new_crew q n" and moves = moves and zero = zero] new_crew_inv [OF assms(1)] assms(2) by (simp_all add: new_crew_def)

section \<open>No races\<close>

text \<open>
  The cell a goroutine has to itself, from the compare-and-swap it won to the sequence number it
  stores.  The plain reads and writes of \<^verbatim>\<open>c.value\<close> are made in these states only, as \<open>advance\<close> shows.
\<close>

fun held_cell :: "'a Ring \<Rightarrow> 'a pc \<Rightarrow> nat option" where
  "held_cell q (Enq_won v pos) = Some (cell_index q pos)"
| "held_cell q (Enq_written pos) = Some (cell_index q pos)"
| "held_cell q (Deq_won pos) = Some (cell_index q pos)"
| "held_cell q (Deq_read v pos) = Some (cell_index q pos)"
| "held_cell q (Deq_cleared v pos) = Some (cell_index q pos)"
| "held_cell q _ = None"

text \<open>An access that changes a cell is made by the goroutine that holds it.\<close>

lemma writes_held_cell:
  "ring_cells (snd (advance zero q pc)) ! i \<noteq> ring_cells q ! i \<Longrightarrow> held_cell q pc = Some i"
  by (cases pc) (auto simp: Let_def set_value_def set_sequence_def split: if_splits, (metis nth_list_update_neq)+)

lemma held_cell_index:
  assumes "shape s" "pc_ok s t pc" "held_cell (cr_ring s) pc = Some i"
  shows "\<exists>p v. i = p mod length (ring_cells (cr_ring s)) \<and> (filling s t p v \<or> emptying s t p v)"
  using assms by (cases pc) (auto simp: shapeD(2))

text \<open>C3. However goroutines interleave their accesses, no two of them ever hold the same cell: the value of a cell
  is read and written by one goroutine at a time, although it is a plain variable, so the queue has no data race.\<close>

theorem concurrent_ring_race_free:
  assumes q: "NewRing zero capacity = Inr q" and few: "length moves + unat capacity < 2 ^ 63"
    and t: "t < n" "u < n" "t \<noteq> u"
    and held: "held_cell (cr_ring s) (cr_pcs s ! t) = Some i" "held_cell (cr_ring s) (cr_pcs s ! u) = Some j"
    and run: "s = crew_run zero moves (new_crew q n)"
  shows "i \<noteq> j"
proof -
  note ok = crew_run_inv [OF q few, of n, folded run]
  have sh: "shape s" and pcs: "pc_ok s t (cr_pcs s ! t)" "pc_ok s u (cr_pcs s ! u)"
    using ok t by (auto simp: crew_inv_def pcs_ok_def)
  show ?thesis
    using held_cell_index [OF sh pcs(1) held(1)] held_cell_index [OF sh pcs(2) held(2)]
      held_apart [OF shapeD(1) [OF sh] t(3)] by blast
qed

section \<open>Exactly once and in order\<close>

lemma quiet_pcs:
  assumes "quiet s" "t < length (cr_pcs s)"
  shows "fills (cr_pcs s ! t) = None" "empties (cr_pcs s ! t) = None" "reading (cr_pcs s ! t) = None" "weight (cr_pcs s ! t) = 0"
proof -
  have "between_calls (cr_pcs s ! t)" using assms by (simp add: quiet_def list_all_length)
  then show "fills (cr_pcs s ! t) = None" "empties (cr_pcs s ! t) = None" "reading (cr_pcs s ! t) = None" "weight (cr_pcs s ! t) = 0"
    by (cases "cr_pcs s ! t"; simp)+
qed

text \<open>With no call in progress the ring is one that the sequential theory knows.\<close>

lemma quiet_ring:
  assumes inv: "crew_inv s" and room: "roomy s" and quiet: "quiet s"
  shows "ring_inv (cr_ring s)" "ring_list (cr_ring s) = map snd (drop (length (cr_claims s)) (cr_sent s))"
    "(fst \<circ> snd) ` set (cr_taken s) = {..< length (cr_claims s)}"
proof -
  have sh: "shape s" and ce: "cells_ok s" and tk: "taken_ok s" using inv by (simp_all add: crew_inv_def)
  note D = shapeD [OF sh]
  define a where "a = length (cr_claims s)"
  define n where "n = length (cr_sent s) - a"
  obtain k where k: "0 < k" "k < 63" "length (ring_cells (cr_ring s)) = 2 ^ k" "ring_mask (cr_ring s) = 2 ^ k - 1"
    using sh by (auto simp: shape_def)
  have e: "length (cr_sent s) = a + n" using D(5) by (simp add: a_def n_def)
  have n: "n \<le> 2 ^ k" using D(6) k(3) by (simp add: e a_def)
  have small: "a + n + 2 ^ k < 2 ^ 63" using room by (simp only: roomy_def e k(3))
  have start: "unat (dequeuePos (cr_ring s)) = a" using small by (simp add: D(4) a_def small_unat)
  have pend: "pending (cr_ring s) = n"
    using small by (simp add: pending_def D(3,4) e a_def [symmetric] small_unat)
  have seq: "seq_of (cr_ring s) p = Suc p \<and> value_of (cr_ring s) p = snd (cr_sent s ! p)" if "a \<le> p" "p < a + n" for p
    using that ce quiet_pcs(1) [OF quiet] by (auto simp: cells_ok_def occupied_def a_def [symmetric] e)
  have free: "seq_of (cr_ring s) p = p" if "a + n \<le> p" "p < a + 2 ^ k" for p
  proof -
    have "vacant s p" using that ce by (simp add: cells_ok_def a_def [symmetric] e k(3))
    then show ?thesis using quiet_pcs(2) [OF quiet] by (auto simp: vacant_def)
  qed
  have slot: "slot (cr_ring s) i = (a + i) mod 2 ^ k" for i by (simp add: slot_def start k(3))
  have sq: "sequence (ring_cells (cr_ring s) ! slot (cr_ring s) i) = of_nat (seq_of (cr_ring s) (a + i))" for i
    by (simp add: seq_of_def slot k(3))
  have "sum_list (map weight (cr_pcs s)) = sum_list (map (\<lambda>pc. 0) (cr_pcs s))"
    using quiet_pcs(4) [OF quiet] by (intro arg_cong [where f = sum_list] nth_equalityI) simp_all
  then have "ring_length (cr_ring s) = of_nat n"
    using sh by (simp add: shape_def e a_def [symmetric] sum_list_triv)
  moreover have "sequence (ring_cells (cr_ring s) ! slot (cr_ring s) i)
      = dequeuePos (cr_ring s) + of_nat i + (if i < n then 1 else 0)" if "i < 2 ^ k" for i
    using seq [of "a + i"] free [of "a + i"] that by (auto simp: sq D(4) a_def [symmetric] add.commute)
  ultimately have "ring_view (cr_ring s) k" using k n by (simp add: ring_view_def pend)
  then show "ring_inv (cr_ring s)" using k(2) by (auto simp: ring_inv_def intro!: exI [of _ k])
  have "cvalue (ring_cells (cr_ring s) ! slot (cr_ring s) i) = snd (cr_sent s ! (a + i))" if "i < n" for i
    using seq [of "a + i"] that by (simp add: value_of_def slot k(3))
  then show "ring_list (cr_ring s) = map snd (drop (length (cr_claims s)) (cr_sent s))"
    by (intro nth_equalityI) (simp_all add: ring_list_def pend e a_def [symmetric])
  show "(fst \<circ> snd) ` set (cr_taken s) = {..< length (cr_claims s)}"
  proof
    show "(fst \<circ> snd) ` set (cr_taken s) \<subseteq> {..< length (cr_claims s)}" using tk by (auto simp: taken_ok_def)
    have "p \<in> (fst \<circ> snd) ` set (cr_taken s)" if "p < length (cr_claims s)" for p
    proof -
      have "p \<in> (fst \<circ> snd) ` set (cr_taken s) \<or> (cr_claims s ! p < length (cr_pcs s) \<and> reading (cr_pcs s ! (cr_claims s ! p)) = Some p)"
        using tk that by (simp add: taken_ok_def)
      then show ?thesis using quiet_pcs(3) [OF quiet, of "cr_claims s ! p"] by auto
    qed
    then show "{..< length (cr_claims s)} \<subseteq> (fst \<circ> snd) ` set (cr_taken s)" by auto
  qed
qed

lemma taken_values:
  assumes tk: "taken_ok s" and all: "(fst \<circ> snd) ` set (cr_taken s) = {..< length (cr_claims s)}"
    and less: "length (cr_claims s) \<le> length (cr_sent s)"
  shows "mset (map (snd \<circ> snd) (cr_taken s)) = mset (map snd (take (length (cr_claims s)) (cr_sent s)))"
proof -
  let ?at = "\<lambda>p. snd (cr_sent s ! p)"
  have "set (map (fst \<circ> snd) (cr_taken s)) = set [0..<length (cr_claims s)]" using all by auto
  moreover have "distinct (map (fst \<circ> snd) (cr_taken s))" using tk by (simp add: taken_ok_def)
  ultimately have pos: "mset (map (fst \<circ> snd) (cr_taken s)) = mset [0..<length (cr_claims s)]"
    by (metis distinct_upt set_eq_iff_mset_eq_distinct)
  have "map (snd \<circ> snd) (cr_taken s) = map ?at (map (fst \<circ> snd) (cr_taken s))"
    using tk by (auto simp: taken_ok_def)
  then have "mset (map (snd \<circ> snd) (cr_taken s)) = image_mset ?at (mset [0..<length (cr_claims s)])"
    by (metis mset_map pos)
  also have "\<dots> = mset (map ?at [0..<length (cr_claims s)])" by simp
  also have "map ?at [0..<length (cr_claims s)] = map snd (take (length (cr_claims s)) (cr_sent s))"
    using less by (intro nth_equalityI) simp_all
  finally show ?thesis .
qed

text \<open>C2. However goroutines interleave, every value that is read was enqueued, no enqueued value is read twice, and each
  consumer reads the values in the order in which they were enqueued; and whenever no call is in progress the ring is
  again a state of the sequential queue, \<^verbatim>\<open>Len\<close> is the number of values in it, and the values that were read together
  with those still in the ring are exactly the values enqueued: none is lost.\<close>

theorem concurrent_ring_exactly_once:
  assumes q: "NewRing zero capacity = Inr q" and few: "length moves + unat capacity < 2 ^ 63"
    and run: "s = crew_run zero moves (new_crew q n)"
  shows "distinct (map (fst \<circ> snd) (cr_taken s))
     \<and> (\<forall>(t, p, v) \<in> set (cr_taken s). p < length (cr_sent s) \<and> v = snd (cr_sent s ! p))
     \<and> sorted_wrt (\<lambda>(t, p, v) (t', p', v'). t = t' \<longrightarrow> p < p') (cr_taken s)
     \<and> (quiet s \<longrightarrow> ring_inv (cr_ring s) \<and> Len (cr_ring s) = of_nat (length (ring_list (cr_ring s)))
          \<and> ring_list (cr_ring s) = map snd (drop (length (cr_taken s)) (cr_sent s))
          \<and> mset (map (snd \<circ> snd) (cr_taken s)) + mset (ring_list (cr_ring s)) = mset (map snd (cr_sent s)))"
proof -
  note ok = crew_run_inv [OF q few, of n, folded run]
  have sh: "shape s" and tk: "taken_ok s" using ok by (simp_all add: crew_inv_def)
  note less = shapeD(5) [OF sh]
  have "quiet s \<longrightarrow> ring_inv (cr_ring s) \<and> Len (cr_ring s) = of_nat (length (ring_list (cr_ring s)))
      \<and> ring_list (cr_ring s) = map snd (drop (length (cr_taken s)) (cr_sent s))
      \<and> mset (map (snd \<circ> snd) (cr_taken s)) + mset (ring_list (cr_ring s)) = mset (map snd (cr_sent s))"
  proof
    assume quiet: "quiet s"
    note calm = quiet_ring [OF ok(1,2) quiet]
    have vals: "mset (map (snd \<circ> snd) (cr_taken s)) = mset (map snd (take (length (cr_claims s)) (cr_sent s)))"
      by (rule taken_values [OF tk calm(3) less])
    have "length (cr_taken s) = length (take (length (cr_claims s)) (cr_sent s))"
      using arg_cong [OF vals, of size] by simp
    then have "length (cr_taken s) = length (cr_claims s)" using less by simp
    moreover have "mset (map snd (take n xs)) + mset (map snd (drop n xs)) = mset (map snd xs)" for n and xs :: "(nat \<times> 'a) list"
      by (metis append_take_drop_id map_append mset_append)
    ultimately show "ring_inv (cr_ring s) \<and> Len (cr_ring s) = of_nat (length (ring_list (cr_ring s)))
      \<and> ring_list (cr_ring s) = map snd (drop (length (cr_taken s)) (cr_sent s))
      \<and> mset (map (snd \<circ> snd) (cr_taken s)) + mset (ring_list (cr_ring s)) = mset (map snd (cr_sent s))"
      using calm(1,2) vals Len_ring_list [OF calm(1)] by simp
  qed
  moreover have "\<forall>(t, p, v) \<in> set (cr_taken s). p < length (cr_sent s) \<and> v = snd (cr_sent s ! p)"
    using tk less by (fastforce simp: taken_ok_def)
  moreover have "distinct (map (fst \<circ> snd) (cr_taken s))"
    "sorted_wrt (\<lambda>(t, p, v) (t', p', v'). t = t' \<longrightarrow> p < p') (cr_taken s)"
    using tk by (simp_all add: taken_ok_def)
  ultimately show ?thesis by blast
qed

section \<open>Refused calls\<close>

text \<open>The position of the window \<open>[a, a + c)\<close> that falls into the cell of an earlier position.\<close>

lemma window:
  fixes p :: nat
  assumes "0 < c" "p < a + c"
  obtains w where "a \<le> w" "w < a + c" "w mod c = p mod c" "w = p \<or> p + c \<le> w"
proof -
  define m where "m = a + c - 1 - p"
  have m: "p + m = a + c - 1" using assms by (simp add: m_def)
  have d: "m div c * c \<le> m" "m < m div c * c + c" using assms(1) div_mult_mod_eq [of m c] mod_less_divisor [of c m] by linarith+
  show thesis
  proof (rule that [of "p + m div c * c"])
    show "a \<le> p + m div c * c" "p + m div c * c < a + c" using m d assms(1) by linarith+
    show "p + m div c * c = p \<or> p + c \<le> p + m div c * c" by (cases "m div c") auto
  qed simp
qed

lemma sint_less:
  assumes "x < 2 ^ 63" "y < 2 ^ 63" shows "sint (of_nat x - of_nat y :: u64) < 0 \<longleftrightarrow> x < y"
proof -
  have "int x < 2 ^ 63" "int y < 2 ^ 63" using assms by simp_all
  then have "- (2 ^ 63) \<le> int x - int y" "int x - int y < 2 ^ 63" by linarith+
  then have "signed_take_bit 63 (int x - int y) = int x - int y" by (simp only: signed_take_bit_int_eq_self_iff)
  moreover have "(of_nat x - of_nat y :: u64) = of_int (int x - int y)" by simp
  ultimately have "sint (of_nat x - of_nat y :: u64) = int x - int y" by (simp only: signed_of_int) simp
  then show ?thesis by simp
qed

text \<open>Some goroutine is between winning its compare-and-swap at a position and releasing the cell.\<close>

definition being_filled :: "'a crew \<Rightarrow> nat \<Rightarrow> bool" where
  "being_filled s p \<longleftrightarrow> list_ex (\<lambda>pc. fills pc = Some p) (cr_pcs s)"

definition being_emptied :: "'a crew \<Rightarrow> nat \<Rightarrow> bool" where
  "being_emptied s p \<longleftrightarrow> list_ex (\<lambda>pc. empties pc = Some p) (cr_pcs s)"

text \<open>A sequence number is never far from the positions in use.\<close>

lemma seq_window:
  assumes sh: "shape s" and ce: "cells_ok s" and p: "p < length (cr_claims s) + length (ring_cells (cr_ring s))"
  shows "seq_of (cr_ring s) p \<le> length (cr_sent s) + length (ring_cells (cr_ring s))
    \<and> (seq_of (cr_ring s) p < p \<longrightarrow> p \<le> length (cr_sent s) \<longrightarrow> p = length (cr_sent s)
        \<and> (\<exists>d. p = d + length (ring_cells (cr_ring s)) \<and> being_emptied s d))
    \<and> (seq_of (cr_ring s) p \<le> p \<longrightarrow> p \<le> length (cr_claims s)
      \<longrightarrow> length (cr_claims s) = length (cr_sent s) \<or> being_filled s (length (cr_claims s)))"
proof -
  note D = shapeD [OF sh]
  have C0: "0 < length (ring_cells (cr_ring s))" using D(1) by linarith
  obtain w where w: "length (cr_claims s) \<le> w" "w < length (cr_claims s) + length (ring_cells (cr_ring s))"
      "w mod length (ring_cells (cr_ring s)) = p mod length (ring_cells (cr_ring s))"
      "w = p \<or> p + length (ring_cells (cr_ring s)) \<le> w"
    by (rule window [OF C0 p])
  have sq: "seq_of (cr_ring s) p = seq_of (cr_ring s) w" using same_cell(1) [OF w(3)] by simp
  consider "w < length (cr_sent s)" "seq_of (cr_ring s) w = Suc w"
    | "w < length (cr_sent s)" "seq_of (cr_ring s) w = w" "being_filled s w"
    | "length (cr_sent s) \<le> w" "seq_of (cr_ring s) w = w"
    | d where "length (cr_sent s) \<le> w" "seq_of (cr_ring s) w = Suc d" "w = d + length (ring_cells (cr_ring s))" "being_emptied s d"
  proof (cases "w < length (cr_sent s)")
    case True
    then have "occupied s w" using ce w(1) by (simp add: cells_ok_def)
    then show ?thesis using True that(1,2) by (auto simp: occupied_def being_filled_def list_ex_length)
  next
    case False
    then have "vacant s w" using ce w(2) by (simp add: cells_ok_def)
    then show ?thesis using False that(3,4) by (auto simp: vacant_def being_emptied_def list_ex_length)
  qed
  then show ?thesis using w sq D(1,5) by cases auto
qed

text \<open>A call that answers false had a reason at the moment it read the sequence number.\<close>

lemma enqueue_refused_when_full:
  assumes q: "NewRing zero capacity = Inr q" and few: "length moves + unat capacity < 2 ^ 63"
    and run: "s = crew_run zero moves (new_crew q n)"
    and t: "t < n" "cr_pcs s ! t = Enq_loaded v pos" "fst (advance zero (cr_ring s) (Enq_loaded v pos)) = Enq_returned False"
  shows "length (cr_sent s) = length (cr_claims s) + unat capacity
     \<or> (\<exists>d. length (cr_sent s) = d + unat capacity \<and> being_emptied s d)"
proof -
  note ok = crew_run_inv [OF q few, of n, folded run]
  have sh: "shape s" and ce: "cells_ok s" and pct: "pc_ok s t (Enq_loaded v pos)"
    using ok t(1,2) by (auto simp: crew_inv_def pcs_ok_def)
  note D = shapeD [OF sh]
  have C0: "0 < length (ring_cells (cr_ring s))" using D(1) by linarith
  show ?thesis
  proof (cases "unat pos < length (cr_claims s) + length (ring_cells (cr_ring s))")
    case True
    note near = seq_window [OF sh ce True]
    have "sint (of_nat (seq_of (cr_ring s) (unat pos)) - of_nat (unat pos) :: u64) < 0"
      using t(3) by (simp add: Let_def view_set(5) [OF D(2) C0] split: if_splits)
    moreover have "seq_of (cr_ring s) (unat pos) < 2 ^ 63" "unat pos < 2 ^ 63"
      using near pct ok(2) by (auto simp: roomy_def)
    ultimately have "seq_of (cr_ring s) (unat pos) < unat pos" by (simp only: sint_less)
    then show ?thesis using near pct ok(4) by auto
  next
    case False
    then show ?thesis using pct D(6) ok(4) by simp
  qed
qed

lemma dequeue_refused_when_empty:
  assumes q: "NewRing zero capacity = Inr q" and few: "length moves + unat capacity < 2 ^ 63"
    and run: "s = crew_run zero moves (new_crew q n)"
    and t: "t < n" "cr_pcs s ! t = Deq_loaded pos" "fst (advance zero (cr_ring s) (Deq_loaded pos)) = Deq_returned zero False"
  shows "length (cr_claims s) = length (cr_sent s) \<or> being_filled s (length (cr_claims s))"
proof -
  note ok = crew_run_inv [OF q few, of n, folded run]
  have sh: "shape s" and ce: "cells_ok s" and pct: "pc_ok s t (Deq_loaded pos)"
    using ok t(1,2) by (auto simp: crew_inv_def pcs_ok_def)
  note D = shapeD [OF sh]
  have C0: "0 < length (ring_cells (cr_ring s))" using D(1) by linarith
  have "unat pos \<le> length (cr_claims s)" using pct by simp
  then have p: "unat pos < length (cr_claims s) + length (ring_cells (cr_ring s))" using C0 by linarith
  note near = seq_window [OF sh ce p]
  have nxt: "pos + 1 = of_nat (Suc (unat pos))" by simp
  have "sint (of_nat (seq_of (cr_ring s) (unat pos)) - of_nat (Suc (unat pos)) :: u64) < 0"
    using t(3) unfolding nxt [symmetric] by (simp add: Let_def view_set(5) [OF D(2) C0] split: if_splits)
  moreover have "seq_of (cr_ring s) (unat pos) < 2 ^ 63" "Suc (unat pos) < 2 ^ 63"
    using near pct ok(2) D(1,5) by (auto simp: roomy_def)
  ultimately have "seq_of (cr_ring s) (unat pos) < Suc (unat pos)" by (simp only: sint_less)
  then show ?thesis using near pct by auto
qed


section \<open>Runs that happen\<close>

text \<open>A ring of two cells and two goroutines; \<open>go t n\<close> lets goroutine \<open>t\<close> make \<open>n\<close> accesses.\<close>

definition go :: "nat \<Rightarrow> nat \<Rightarrow> nat move list" where
  "go t n = replicate n (Step t)"

definition two_cells :: "nat Ring" where
  "two_cells = \<lparr> ring_mask = 1, ring_cells = [\<lparr> sequence = 0, cvalue = 0 \<rparr>, \<lparr> sequence = 1, cvalue = 0 \<rparr>],
     enqueuePos = 0, dequeuePos = 0, ring_length = 0 \<rparr>"

lemma NewRing_two: "NewRing 0 2 = Inr two_cells"
  by (simp add: NewRing_def two_cells_def upt_rec)

definition two_producers :: "nat move list" where
  "two_producers = Call_Enqueue 0 7 # go 0 3 @ Call_Enqueue 1 8 # go 1 3"

definition pass_one_on :: "nat move list" where
  "pass_one_on = two_producers @ go 1 3 @ go 0 3 @ Call_Dequeue 1 # go 1 7"

lemmas run_simps = crew_run_def go_def step_pc_def cell_at_def cell_index_def set_value_def set_sequence_def
  new_crew_def two_cells_def eval_nat_numeral

lemma two_producers_run: "crew_run 0 two_producers (new_crew two_cells 2) =
   \<lparr> cr_ring = two_cells\<lparr> enqueuePos := 2 \<rparr>, cr_pcs = [Enq_won 7 0, Enq_won 8 1], cr_sent = [(0, 7), (1, 8)],
     cr_claims = [], cr_taken = [] \<rparr>"
  by (simp add: two_producers_def run_simps)

lemma pass_one_on_run: "crew_run 0 pass_one_on (new_crew two_cells 2) =
   \<lparr> cr_ring = two_cells\<lparr> ring_cells := [\<lparr> sequence = 2, cvalue = 0 \<rparr>, \<lparr> sequence = 2, cvalue = 8 \<rparr>],
       enqueuePos := 2, dequeuePos := 1, ring_length := 1 \<rparr>,
     cr_pcs = [Enq_returned True, Deq_returned 7 True], cr_sent = [(0, 7), (1, 8)], cr_claims = [1], cr_taken = [(1, 0, 7)] \<rparr>"
  by (simp add: pass_one_on_def two_producers_def run_simps)

theorem concurrent_ring_race_free_witness:
  "held_cell (cr_ring (crew_run 0 two_producers (new_crew two_cells 2))) (cr_pcs (crew_run 0 two_producers (new_crew two_cells 2)) ! 0)
     = Some 0
   \<and> held_cell (cr_ring (crew_run 0 two_producers (new_crew two_cells 2))) (cr_pcs (crew_run 0 two_producers (new_crew two_cells 2)) ! 1)
     = Some 1
   \<and> (0 :: nat) \<noteq> 1"
proof -
  let ?s = "crew_run 0 two_producers (new_crew two_cells 2)"
  have held: "held_cell (cr_ring ?s) (cr_pcs ?s ! 0) = Some 0" "held_cell (cr_ring ?s) (cr_pcs ?s ! 1) = Some 1"
    unfolding two_producers_run by (simp_all add: cell_index_def two_cells_def)
  have few: "length two_producers + unat (2 :: u64) < 2 ^ 63" by (simp add: two_producers_def go_def)
  show ?thesis
    using concurrent_ring_race_free [OF NewRing_two few _ _ _ held refl] held by simp
qed

theorem concurrent_ring_exactly_once_witness:
  "quiet (crew_run 0 pass_one_on (new_crew two_cells 2))
   \<and> ring_list (cr_ring (crew_run 0 pass_one_on (new_crew two_cells 2))) = [8]"
proof -
  have few: "length pass_one_on + unat (2 :: u64) < 2 ^ 63" by (simp add: pass_one_on_def two_producers_def go_def)
  have quiet: "quiet (crew_run 0 pass_one_on (new_crew two_cells 2))" by (simp add: pass_one_on_run quiet_def)
  show ?thesis
    using concurrent_ring_exactly_once [OF NewRing_two few refl, of 2] quiet by (simp add: pass_one_on_run)
qed

text \<open>
  Where the queue is not lock free: a producer that stops after its compare-and-swap hides every
  later value.  The second goroutine's \<^verbatim>\<open>Enqueue\<close> has returned true and nothing was taken, yet its
  \<^verbatim>\<open>Dequeue\<close> answers false however often it is called.
\<close>

definition stalled_producer :: "nat move list" where
  "stalled_producer = Call_Enqueue 0 7 # go 0 3 @ Call_Enqueue 1 8 # go 1 6"

definition stalled_crew :: "nat pc \<Rightarrow> nat crew" where
  "stalled_crew pc = \<lparr> cr_ring = two_cells\<lparr> ring_cells := [\<lparr> sequence = 0, cvalue = 0 \<rparr>, \<lparr> sequence = 2, cvalue = 8 \<rparr>],
       enqueuePos := 2, ring_length := 1 \<rparr>,
     cr_pcs = [Enq_won 7 0, pc], cr_sent = [(0, 7), (1, 8)], cr_claims = [], cr_taken = [] \<rparr>"

lemma stalled_run: "crew_run 0 stalled_producer (new_crew two_cells 2) = stalled_crew (Enq_returned True)"
  by (simp add: stalled_producer_def stalled_crew_def run_simps)

lemma stalled_round:
  "between_calls pc \<Longrightarrow> crew_run 0 (Call_Dequeue 1 # go 1 2) (stalled_crew pc) = stalled_crew (Deq_returned 0 False)"
  by (simp add: stalled_crew_def run_simps)

lemma crew_run_append: "crew_run zero (ms @ ms') s = crew_run zero ms' (crew_run zero ms s)"
  by (simp add: crew_run_def)

theorem stalled_producer_hides_values:
  "crew_run 0 (stalled_producer @ concat (replicate (Suc m) (Call_Dequeue 1 # go 1 2))) (new_crew two_cells 2)
   = stalled_crew (Deq_returned 0 False)"
proof -
  have "between_calls pc \<Longrightarrow> crew_run 0 (concat (replicate (Suc m) (Call_Dequeue 1 # go 1 2))) (stalled_crew pc)
      = stalled_crew (Deq_returned 0 False)" for pc
    by (induction m arbitrary: pc)
      (simp_all only: replicate_Suc concat.simps replicate_0 append_Nil2 crew_run_append stalled_round between_calls.simps)
  then show ?thesis by (simp only: crew_run_append stalled_run between_calls.simps)
qed


end
