(* ===== verification/Go_Bytes.thy ===== *)
theory Go_Bytes imports HL2_Prelude begin

text \<open>
  The part of Go's standard library that the wire formats rest on: slices of byte slices,
  \<^verbatim>\<open>copy\<close>, \<^verbatim>\<open>encoding/binary\<close>'s little-endian reads and writes and \<^verbatim>\<open>encoding/hex\<close>.
  A byte slice is a \<^typ>\<open>byte list\<close>; slicing past its length is taken as the run-time panic
  (Go lets a slice expression reach into spare capacity, which no caller here has).
\<close>

section \<open>Slices and copy\<close>

definition in_slice :: "nat \<Rightarrow> nat \<Rightarrow> 'a list \<Rightarrow> bool" where
  "in_slice lo hi xs \<longleftrightarrow> lo \<le> hi \<and> hi \<le> length xs"

definition go_slice :: "nat \<Rightarrow> nat \<Rightarrow> 'a list \<Rightarrow> 'a list" where
  "go_slice lo hi xs = take (hi - lo) (drop lo xs)"

text \<open>\<^verbatim>\<open>copy(dst[lo:hi], src)\<close> writes as many elements as the shorter side has.\<close>

definition copy_into :: "nat \<Rightarrow> nat \<Rightarrow> 'a list \<Rightarrow> 'a list \<Rightarrow> 'a list" where
  "copy_into lo hi src dst =
     (let n = min (hi - lo) (length src) in take lo dst @ take n src @ drop (lo + n) dst)"

lemma length_go_slice [simp]: "in_slice lo hi xs \<Longrightarrow> length (go_slice lo hi xs) = hi - lo"
  by (auto simp: go_slice_def in_slice_def)

lemma length_copy_into [simp]:
  "in_slice lo hi dst \<Longrightarrow> length (copy_into lo hi src dst) = length dst"
  by (auto simp: copy_into_def in_slice_def Let_def)

text \<open>Filling a fresh buffer from the left: what is written so far, then zeroes.\<close>

lemma copy_into_append:
  "length done' = lo \<Longrightarrow> length src = hi - lo \<Longrightarrow> lo \<le> hi
   \<Longrightarrow> copy_into lo hi src (done' @ rest) = done' @ src @ drop (hi - lo) rest"
  by (simp add: copy_into_def Let_def)

lemma go_slice_append_left:
  "hi \<le> length xs \<Longrightarrow> go_slice lo hi (xs @ ys) = go_slice lo hi xs"
  by (cases "lo \<le> length xs") (simp_all add: go_slice_def)

lemma go_slice_append_mid:
  "length xs = lo \<Longrightarrow> length ys = hi - lo \<Longrightarrow> go_slice lo hi (xs @ ys @ zs) = ys"
  by (simp add: go_slice_def)

section \<open>encoding/binary, little endian\<close>

definition put_u16 :: "u16 \<Rightarrow> byte list" where
  "put_u16 x = [ucast x, ucast (drop_bit 8 x)]"

definition get_u16 :: "byte list \<Rightarrow> u16" where
  "get_u16 b = ucast (b ! 0) OR push_bit 8 (ucast (b ! 1))"

definition put_u32 :: "u32 \<Rightarrow> byte list" where
  "put_u32 x = [ucast x, ucast (drop_bit 8 x), ucast (drop_bit 16 x), ucast (drop_bit 24 x)]"

definition get_u32 :: "byte list \<Rightarrow> u32" where
  "get_u32 b = ucast (b ! 0) OR push_bit 8 (ucast (b ! 1)) OR
               push_bit 16 (ucast (b ! 2)) OR push_bit 24 (ucast (b ! 3))"

lemma length_put [simp]: "length (put_u16 x) = 2" "length (put_u32 y) = 4"
  by (simp_all add: put_u16_def put_u32_def)

lemma get_put_u16 [simp, le_simps]: "get_u16 (put_u16 x) = x"
proof (rule bit_word_eqI)
  fix n assume "n < LENGTH(16)"
  then show "bit (get_u16 (put_u16 x)) n = bit x n"
    by (cases "n < 8") (auto simp: get_u16_def put_u16_def bit_simps)
qed

lemma get_put_u32 [simp, le_simps]: "get_u32 (put_u32 x) = x"
proof (rule bit_word_eqI)
  fix n assume n: "n < LENGTH(32)"
  consider "n < 8" | "8 \<le> n" "n < 16" | "16 \<le> n" "n < 24" | "24 \<le> n" by linarith
  then show "bit (get_u32 (put_u32 x)) n = bit x n"
    using n by cases (auto simp: get_u32_def put_u32_def bit_simps)
qed

lemma put_get_u16:
  assumes "length b = 2" shows "put_u16 (get_u16 b) = b"
proof -
  obtain x y where b: "b = [x, y]"
    using assms by (auto simp: length_Suc_conv eval_nat_numeral)
  show ?thesis
    unfolding b put_u16_def get_u16_def by (auto intro!: bit_word_eqI simp: bit_simps)
qed

lemma put_get_u32:
  assumes "length b = 4" shows "put_u32 (get_u32 b) = b"
proof -
  obtain w x y z where b: "b = [w, x, y, z]"
    using assms by (auto simp: length_Suc_conv eval_nat_numeral)
  show ?thesis
    unfolding b put_u32_def get_u32_def by (auto intro!: bit_word_eqI simp: bit_simps)
qed

lemma put_u32_inj [simp]: "put_u32 x = put_u32 y \<longleftrightarrow> x = y"
  by (metis get_put_u32)

lemma put_u16_inj [simp]: "put_u16 x = put_u16 y \<longleftrightarrow> x = y"
  by (metis get_put_u16)

section \<open>encoding/hex\<close>

datatype hex_error = InvalidByte char | HexErrLength

definition hex_digit :: "byte \<Rightarrow> char" where
  "hex_digit n = ''0123456789abcdef'' ! unat n"

fun EncodeToString :: "byte list \<Rightarrow> string" where
  "EncodeToString [] = []"
| "EncodeToString (b # bs) =
     hex_digit (drop_bit 4 b) # hex_digit (b AND 15) # EncodeToString bs"

text \<open>\<^verbatim>\<open>reverseHexTable\<close>: the digit's value, or none for any other byte.\<close>

definition reverse_hex :: "char \<Rightarrow> byte option" where
  "reverse_hex c = (let n = (of_char c :: nat) in
     if 48 \<le> n \<and> n \<le> 57 then Some (of_nat (n - 48))
     else if 97 \<le> n \<and> n \<le> 102 then Some (of_nat (n - 87))
     else if 65 \<le> n \<and> n \<le> 70 then Some (of_nat (n - 55))
     else None)"

text \<open>
  \<^verbatim>\<open>hex.DecodeString\<close> decodes pair by pair, checks the first digit of a pair before the second,
  and tests an odd last digit before it reports the odd length.
\<close>

fun DecodeString :: "string \<Rightarrow> hex_error + byte list" where
  "DecodeString [] = Inr []"
| "DecodeString [p] = (case reverse_hex p of None \<Rightarrow> Inl (InvalidByte p) | Some _ \<Rightarrow> Inl HexErrLength)"
| "DecodeString (p # q # rest) =
     (case reverse_hex p of
        None \<Rightarrow> Inl (InvalidByte p)
      | Some a \<Rightarrow> (case reverse_hex q of
            None \<Rightarrow> Inl (InvalidByte q)
          | Some b \<Rightarrow> bind_res (DecodeString rest) (\<lambda>bs. Inr ((push_bit 4 a OR b) # bs))))"

lemma length_EncodeToString [simp]: "length (EncodeToString bs) = 2 * length bs"
  by (induction bs) auto

lemma reverse_hex_digit_nat:
  "list_all (\<lambda>m. reverse_hex (hex_digit (of_nat m)) = Some (of_nat m)) [0..<16]"
  by (simp add: upt_rec reverse_hex_def hex_digit_def)

lemma reverse_hex_digit: "unat n < 16 \<Longrightarrow> reverse_hex (hex_digit n) = Some n"
  using reverse_hex_digit_nat by (force simp: list_all_iff)

lemma unat_nibbles: "unat (drop_bit 4 b) < 16" "unat (b AND 15) < 16" for b :: byte
proof -
  show "unat (drop_bit 4 b) < 16"
    using unsigned_less [of b, where 'a = nat] by (simp add: drop_bit_eq_div unat_div)
  have "b AND 15 \<le> 15" by (rule word_and_le1)
  then show "unat (b AND 15) < 16" by (simp add: word_le_nat_alt)
qed

lemma nibbles_join: "push_bit 4 (drop_bit 4 b) OR (b AND 15) = b" for b :: byte
proof (rule bit_word_eqI)
  fix n assume "n < LENGTH(8)"
  have m: "(15 :: byte) = mask 4" by (simp add: mask_eq_exp_minus_1)
  show "bit (push_bit 4 (drop_bit 4 b) OR (b AND 15)) n = bit b n"
    unfolding m using \<open>n < LENGTH(8)\<close> by (cases "n < 4") (auto simp: bit_simps)
qed

lemma Decode_Encode_hex [simp]: "DecodeString (EncodeToString bs) = Inr bs"
  by (induction bs) (simp_all add: reverse_hex_digit unat_nibbles nibbles_join)

lemma EncodeToString_inj [simp]: "EncodeToString a = EncodeToString b \<longleftrightarrow> a = b"
  by (metis Decode_Encode_hex Inr_inject)

text \<open>What \<^const>\<open>DecodeString\<close> accepts has an even number of digits, two for each byte.\<close>

lemma DecodeString_length: "DecodeString s = Inr bs \<Longrightarrow> length s = 2 * length bs"
  by (induction s arbitrary: bs rule: DecodeString.induct)
    (auto split: option.splits simp: bind_res_eq_Inr)

end
