(* ===== verification/Go_Sha256.thy ===== *)
theory Go_Sha256 imports Go_Bytes begin

text \<open>
  \<^verbatim>\<open>crypto/sha256\<close>: the pipeline commits to lanes, blocks and proofs with \<^verbatim>\<open>sha256.Sum256\<close>, so the
  hash is defined in full (FIPS 180-4), not left abstract.  The theorems of the development use
  its output length only, and state collisions of it explicitly where the code's argument
  rests on their absence.
\<close>

section \<open>Round functions\<close>

definition rotr :: "nat \<Rightarrow> u32 \<Rightarrow> u32" where
  "rotr n x = drop_bit n x OR push_bit (32 - n) x"

definition Sigma0 :: "u32 \<Rightarrow> u32" where
  "Sigma0 x = rotr 2 x XOR rotr 13 x XOR rotr 22 x"

definition Sigma1 :: "u32 \<Rightarrow> u32" where
  "Sigma1 x = rotr 6 x XOR rotr 11 x XOR rotr 25 x"

definition sigma0 :: "u32 \<Rightarrow> u32" where
  "sigma0 x = rotr 7 x XOR rotr 18 x XOR drop_bit 3 x"

definition sigma1 :: "u32 \<Rightarrow> u32" where
  "sigma1 x = rotr 17 x XOR rotr 19 x XOR drop_bit 10 x"

definition sha_ch :: "u32 \<Rightarrow> u32 \<Rightarrow> u32 \<Rightarrow> u32" where
  "sha_ch x y z = (x AND y) XOR (NOT x AND z)"

definition sha_maj :: "u32 \<Rightarrow> u32 \<Rightarrow> u32 \<Rightarrow> u32" where
  "sha_maj x y z = (x AND y) XOR (x AND z) XOR (y AND z)"

definition sha_K :: "u32 list" where
  "sha_K = [
      1116352408, 1899447441, 3049323471, 3921009573, 961987163, 1508970993, 2453635748,
      2870763221, 3624381080, 310598401, 607225278, 1426881987, 1925078388, 2162078206,
      2614888103, 3248222580, 3835390401, 4022224774, 264347078, 604807628, 770255983,
      1249150122, 1555081692, 1996064986, 2554220882, 2821834349, 2952996808, 3210313671,
      3336571891, 3584528711, 113926993, 338241895, 666307205, 773529912, 1294757372,
      1396182291, 1695183700, 1986661051, 2177026350, 2456956037, 2730485921, 2820302411,
      3259730800, 3345764771, 3516065817, 3600352804, 4094571909, 275423344, 430227734,
      506948616, 659060556, 883997877, 958139571, 1322822218, 1537002063, 1747873779,
      1955562222, 2024104815, 2227730452, 2361852424, 2428436474, 2756734187, 3204031479,
      3329325298]"

section \<open>Compression\<close>

text \<open>The hash state, eight words.\<close>

datatype sha_state = Sha u32 u32 u32 u32 u32 u32 u32 u32

definition sha_init :: sha_state where
  "sha_init = Sha
     0x6a09e667 0xbb67ae85 0x3c6ef372 0xa54ff53a 0x510e527f 0x9b05688c 0x1f83d9ab 0x5be0cd19"

text \<open>The message schedule, with the sixteen latest words in order.\<close>

fun sha_schedule :: "nat \<Rightarrow> u32 list \<Rightarrow> u32 list" where
  "sha_schedule 0 w = w"
| "sha_schedule (Suc n) w =
     hd w # sha_schedule n
       (tl w @ [sigma1 (w ! 14) + (w ! 9) + sigma0 (w ! 1) + (w ! 0)])"

fun sha_round :: "sha_state \<Rightarrow> u32 \<Rightarrow> u32 \<Rightarrow> sha_state" where
  "sha_round (Sha a b c d e f g h) k w =
     (let t1 = h + Sigma1 e + sha_ch e f g + k + w;
          t2 = Sigma0 a + sha_maj a b c
      in Sha (t1 + t2) a b c (d + t1) e f g)"

fun sha_rounds :: "u32 list \<Rightarrow> u32 list \<Rightarrow> sha_state \<Rightarrow> sha_state" where
  "sha_rounds (k # ks) (w # ws) s = sha_rounds ks ws (sha_round s k w)"
| "sha_rounds _ _ s = s"

fun sha_add :: "sha_state \<Rightarrow> sha_state \<Rightarrow> sha_state" where
  "sha_add (Sha a b c d e f g h) (Sha a' b' c' d' e' f' g' h') =
     Sha (a + a') (b + b') (c + c') (d + d') (e + e') (f + f') (g + g') (h + h')"

definition get_u32_be :: "byte list \<Rightarrow> u32" where
  "get_u32_be b = push_bit 24 (ucast (b ! 0)) OR push_bit 16 (ucast (b ! 1)) OR
                  push_bit 8 (ucast (b ! 2)) OR ucast (b ! 3)"

definition put_u32_be :: "u32 \<Rightarrow> byte list" where
  "put_u32_be x = [ucast (drop_bit 24 x), ucast (drop_bit 16 x), ucast (drop_bit 8 x), ucast x]"

definition put_u64_be :: "u64 \<Rightarrow> byte list" where
  "put_u64_be x = put_u32_be (ucast (drop_bit 32 x)) @ put_u32_be (ucast x)"

fun chunks4 :: "byte list \<Rightarrow> u32 list" where
  "chunks4 (a # b # c # d # rest) = get_u32_be [a, b, c, d] # chunks4 rest"
| "chunks4 _ = []"

definition sha_block :: "sha_state \<Rightarrow> byte list \<Rightarrow> sha_state" where
  "sha_block s block = sha_add s (sha_rounds sha_K (sha_schedule 48 (chunks4 block)) s)"

section \<open>Padding and digest\<close>

definition sha_pad :: "byte list \<Rightarrow> byte list" where
  "sha_pad m = m @ [0x80] @ replicate ((119 - length m mod 64) mod 64) 0
                 @ put_u64_be (of_nat (8 * length m))"

text \<open>One block at a time; the padded message is a whole number of blocks.\<close>

fun sha_blocks :: "nat \<Rightarrow> byte list \<Rightarrow> sha_state \<Rightarrow> sha_state" where
  "sha_blocks 0 m s = s"
| "sha_blocks (Suc n) m s = sha_blocks n (drop 64 m) (sha_block s (take 64 m))"

fun sha_output :: "sha_state \<Rightarrow> byte list" where
  "sha_output (Sha a b c d e f g h) = concat (map put_u32_be [a, b, c, d, e, f, g, h])"

definition Sum256 :: "byte list \<Rightarrow> byte list" where
  "Sum256 m = (let p = sha_pad m in sha_output (sha_blocks (length p div 64) p sha_init))"

lemma length_sha_output [simp]: "length (sha_output s) = 32"
  by (cases s) (simp add: put_u32_be_def)

lemma length_Sum256 [simp]: "length (Sum256 m) = 32"
  by (simp add: Sum256_def Let_def)

lemma Sum256_not_Nil [simp]: "Sum256 m \<noteq> []"
  by (metis length_Sum256 list.size(3) zero_neq_numeral)

lemma length_sha_pad: "64 dvd length (sha_pad m)"
proof -
  define r where "r = length m mod 64"
  have r: "r < 64" by (simp add: r_def)
  have m: "length m = 64 * (length m div 64) + r" by (simp add: r_def)
  have "length (sha_pad m) = length m + (9 + (119 - r) mod 64)"
    by (simp add: sha_pad_def put_u64_be_def put_u32_be_def r_def)
  moreover have "r + (9 + (119 - r) mod 64) = 64 \<or> r + (9 + (119 - r) mod 64) = 128"
  proof (cases "r \<le> 55")
    case True
    then have "(119 - r) mod 64 = 55 - r" by (simp add: mod_if)
    with True show ?thesis by simp
  next
    case False
    then have "(119 - r) mod 64 = 119 - r" by simp
    with False r show ?thesis by simp
  qed
  ultimately have "length (sha_pad m) = 64 * (length m div 64) + 64
      \<or> length (sha_pad m) = 64 * (length m div 64) + 128"
    using m by linarith
  then show ?thesis by (auto simp: dvd_add_right_iff)
qed

end
