(* ===== verification/Frame.thy ===== *)
theory Frame imports Go_Bytes Go_Sha256 begin

text \<open>
  \<^verbatim>\<open>internal/frame/frame.go\<close>: the fixed 12-byte transfer, the batch frame that carries one lane's
  transfers to the aggregator, and the proof record.  Buffers are filled the way the Go code
  fills them, by \<^const>\<open>copy_into\<close> at a running offset; the lemmas then give the layout in
  closed form, the round trips in both directions and the absence of run-time panics.
\<close>

section \<open>Data\<close>

datatype frame_error =
    ErrTx12Size
  | ErrBadBatchMagic
  | ErrBadBatchVer
  | ErrShortBatch
  | ErrTxCountMismatch int int
  | ErrTxSliceSize
  | PanicSliceBounds

definition BatchMagic :: u32 where "BatchMagic = 0x42463131"

definition VersionV1 :: u16 where "VersionV1 = 1"

record Tx12 =
  SenderIndex :: u32
  ReceiverIndex :: u32
  Amount :: u32

record BatchFrameV1 =
  bf_Flags :: u16
  bf_BlockIndex :: u32
  bf_LaneID :: u16
  bf_Payload :: "Tx12 list"

record ProofRecordV1 =
  pr_BlockIndex :: u32
  pr_CommitmentHash :: "byte list"
  pr_ProofBytes :: "byte list"

section \<open>Tx12\<close>

definition Tx12_MarshalBinary :: "Tx12 \<Rightarrow> byte list" where
  "Tx12_MarshalBinary t =
     copy_into 8 12 (put_u32 (Amount t))
       (copy_into 4 8 (put_u32 (ReceiverIndex t))
         (copy_into 0 4 (put_u32 (SenderIndex t)) (replicate 12 0)))"

definition UnmarshalTx12 :: "byte list \<Rightarrow> frame_error + Tx12" where
  "UnmarshalTx12 payload =
     (if length payload \<noteq> 12 then Inl ErrTx12Size
      else Inr \<lparr> SenderIndex = get_u32 (go_slice 0 4 payload),
                 ReceiverIndex = get_u32 (go_slice 4 8 payload),
                 Amount = get_u32 (go_slice 8 12 payload) \<rparr>)"

lemma Tx12_layout [frame_simps]:
  "Tx12_MarshalBinary t =
     put_u32 (SenderIndex t) @ put_u32 (ReceiverIndex t) @ put_u32 (Amount t)"
  by (simp add: Tx12_MarshalBinary_def copy_into_def eval_nat_numeral)

lemma length_Tx12_MarshalBinary [simp]: "length (Tx12_MarshalBinary t) = 12"
  by (simp add: Tx12_layout)

lemma Unmarshal_Marshal_Tx12 [simp]: "UnmarshalTx12 (Tx12_MarshalBinary t) = Inr t"
  by (simp add: UnmarshalTx12_def Tx12_layout go_slice_def)

lemma Marshal_Unmarshal_Tx12:
  assumes "UnmarshalTx12 b = Inr t"
  shows "Tx12_MarshalBinary t = b"
proof -
  have len: "length b = 12" and t: "t = \<lparr> SenderIndex = get_u32 (go_slice 0 4 b),
      ReceiverIndex = get_u32 (go_slice 4 8 b), Amount = get_u32 (go_slice 8 12 b) \<rparr>"
    using assms by (auto simp: UnmarshalTx12_def split: if_splits)
  have "Tx12_MarshalBinary t = go_slice 0 4 b @ go_slice 4 8 b @ go_slice 8 12 b"
    using len by (simp add: t Tx12_layout put_get_u32 in_slice_def)
  also have "\<dots> = b"
    using len by (simp add: go_slice_def) (metis append_take_drop_id drop_drop numeral_Bit0 take_add)
  finally show ?thesis .
qed

lemma Tx12_MarshalBinary_inj [simp]: "Tx12_MarshalBinary s = Tx12_MarshalBinary t \<longleftrightarrow> s = t"
  by (metis Unmarshal_Marshal_Tx12 Inr_inject)

section \<open>Slices of transfers\<close>

text \<open>
  The loop that \<^verbatim>\<open>EncodeTxSlice\<close> and \<^verbatim>\<open>BatchFrameV1.MarshalBinary\<close> share: write each transfer at
  \<open>offset\<close>, advance by 12.  The slice expression \<open>out[offset:offset+12]\<close> panics when it leaves
  the buffer.
\<close>

fun marshal_txs :: "Tx12 list \<Rightarrow> nat \<Rightarrow> byte list \<Rightarrow> frame_error + byte list" where
  "marshal_txs [] offset out = Inr out"
| "marshal_txs (tx # txs) offset out =
     (if in_slice offset (offset + 12) out
      then marshal_txs txs (offset + 12)
             (copy_into offset (offset + 12) (Tx12_MarshalBinary tx) out)
      else Inl PanicSliceBounds)"

definition EncodeTxSlice :: "Tx12 list \<Rightarrow> byte list" where
  "EncodeTxSlice txs =
     (if length txs = 0 then []
      else case marshal_txs txs 0 (replicate (length txs * 12) 0) of
             Inr out \<Rightarrow> out
           | Inl _ \<Rightarrow> [] \<comment> \<open>a panic, never reached: \<open>EncodeTxSlice_no_panic\<close>\<close>)"

text \<open>The loop over \<open>out\<close>: read 12 bytes at \<open>offset\<close>, stop at the first error.\<close>

fun unmarshal_txs :: "nat \<Rightarrow> nat \<Rightarrow> byte list \<Rightarrow> frame_error + Tx12 list" where
  "unmarshal_txs 0 offset payload = Inr []"
| "unmarshal_txs (Suc n) offset payload =
     (if in_slice offset (offset + 12) payload
      then bind_res (UnmarshalTx12 (go_slice offset (offset + 12) payload))
             (\<lambda>tx. bind_res (unmarshal_txs n (offset + 12) payload) (\<lambda>txs. Inr (tx # txs)))
      else Inl PanicSliceBounds)"

definition DecodeTxSlice :: "byte list \<Rightarrow> frame_error + Tx12 list" where
  "DecodeTxSlice payload =
     (if length payload mod 12 \<noteq> 0 then Inl ErrTxSliceSize
      else if length payload = 0 then Inr []
      else unmarshal_txs (length payload div 12) 0 payload)"

lemma marshal_txs_fills:
  "length pre = offset \<Longrightarrow> length txs * 12 \<le> length rest
   \<Longrightarrow> marshal_txs txs offset (pre @ rest)
       = Inr (pre @ concat (map Tx12_MarshalBinary txs) @ drop (length txs * 12) rest)"
proof (induction txs arbitrary: offset pre rest)
  case Nil
  then show ?case by simp
next
  case (Cons tx txs)
  have "marshal_txs (tx # txs) offset (pre @ rest)
      = marshal_txs txs (offset + 12) ((pre @ Tx12_MarshalBinary tx) @ drop 12 rest)"
    using Cons.prems by (simp add: in_slice_def copy_into_append)
  also have "\<dots> = Inr ((pre @ Tx12_MarshalBinary tx) @
      concat (map Tx12_MarshalBinary txs) @ drop (length txs * 12) (drop 12 rest))"
    using Cons.prems by (intro Cons.IH) simp_all
  finally show ?case by (simp add: add.commute)
qed

lemma marshal_txs_overrun:
  "length out < offset + length txs * 12 \<Longrightarrow> txs \<noteq> [] \<Longrightarrow> marshal_txs txs offset out = Inl PanicSliceBounds"
  by (induction txs offset out rule: marshal_txs.induct) (fastforce simp: in_slice_def)+

lemma EncodeTxSlice_no_panic:
  "marshal_txs txs 0 (replicate (length txs * 12) 0) = Inr (concat (map Tx12_MarshalBinary txs))"
  using marshal_txs_fills [of "[]" 0 txs "replicate (length txs * 12) 0"] by simp

lemma EncodeTxSlice_concat [frame_simps]:
  "EncodeTxSlice txs = concat (map Tx12_MarshalBinary txs)"
  by (simp add: EncodeTxSlice_def EncodeTxSlice_no_panic)

lemma length_EncodeTxSlice [simp]: "length (EncodeTxSlice txs) = length txs * 12"
  by (simp add: EncodeTxSlice_concat concat_map_length_const [where k = 12])

lemma unmarshal_txs_concat:
  "length pre = offset
   \<Longrightarrow> unmarshal_txs (length txs) offset (pre @ concat (map Tx12_MarshalBinary txs) @ post) = Inr txs"
proof (induction txs arbitrary: offset pre)
  case Nil
  then show ?case by simp
next
  case (Cons tx txs)
  let ?rest = "concat (map Tx12_MarshalBinary txs) @ post"
  have "go_slice offset (offset + 12) (pre @ Tx12_MarshalBinary tx @ ?rest) = Tx12_MarshalBinary tx"
    using Cons.prems by (intro go_slice_append_mid) simp_all
  moreover have "unmarshal_txs (length txs) (offset + 12) ((pre @ Tx12_MarshalBinary tx) @ ?rest)
      = Inr txs"
    using Cons.prems by (intro Cons.IH) simp
  ultimately show ?case using Cons.prems by (simp add: in_slice_def)
qed

text \<open>Conversely, whatever the decoding loop accepts is the encoding of what it returns.\<close>

lemma unmarshal_txs_sound:
  "offset + n * 12 = length payload \<Longrightarrow> unmarshal_txs n offset payload = Inr txs
   \<Longrightarrow> concat (map Tx12_MarshalBinary txs) = drop offset payload \<and> length txs = n"
proof (induction n offset payload arbitrary: txs rule: unmarshal_txs.induct)
  case (1 offset payload)
  then show ?case by simp
next
  case (2 n offset payload)
  from "2.prems" obtain tx txs' where txs: "txs = tx # txs'"
    and tx: "UnmarshalTx12 (go_slice offset (offset + 12) payload) = Inr tx"
    and txs': "unmarshal_txs n (offset + 12) payload = Inr txs'"
    by (auto simp: bind_res_eq_Inr split: if_splits)
  have "concat (map Tx12_MarshalBinary txs') = drop (offset + 12) payload \<and> length txs' = n"
    using "2.prems" tx txs' by (intro "2.IH") (auto simp: in_slice_def)
  moreover have "Tx12_MarshalBinary tx @ drop (offset + 12) payload = drop offset payload"
    unfolding Marshal_Unmarshal_Tx12 [OF tx]
    by (simp add: go_slice_def) (metis append_take_drop_id drop_drop add.commute)
  ultimately show ?case by (simp add: txs)
qed

lemma unmarshal_txs_total:
  "offset + n * 12 \<le> length payload \<Longrightarrow> \<exists>txs. unmarshal_txs n offset payload = Inr txs"
proof (induction n arbitrary: offset)
  case 0
  then show ?case by simp
next
  case (Suc n)
  then obtain txs where "unmarshal_txs n (offset + 12) payload = Inr txs"
    by (metis add.assoc mult_Suc)
  moreover have "\<exists>tx. UnmarshalTx12 (go_slice offset (offset + 12) payload) = Inr tx"
    using Suc.prems by (simp add: UnmarshalTx12_def in_slice_def)
  ultimately show ?case using Suc.prems by (auto simp: in_slice_def)
qed

section \<open>Batch frames\<close>

definition TxCount :: "BatchFrameV1 \<Rightarrow> u32" where
  "TxCount b = of_nat (length (bf_Payload b))"

definition headerSize :: nat where
  "headerSize = 4 + 2 + 2 + 4 + 2 + 2 + 4"

definition BatchFrameV1_MarshalBinary :: "BatchFrameV1 \<Rightarrow> frame_error + byte list" where
  "BatchFrameV1_MarshalBinary b =
     (let txCount = TxCount b;
          payloadSize = unat txCount * 12;
          out = replicate (headerSize + payloadSize) 0;
          out = copy_into 0 4 (put_u32 BatchMagic) out;
          out = copy_into 4 6 (put_u16 VersionV1) out;
          out = copy_into 6 8 (put_u16 (bf_Flags b)) out;
          out = copy_into 8 12 (put_u32 (bf_BlockIndex b)) out;
          out = copy_into 12 14 (put_u16 (bf_LaneID b)) out;
          out = copy_into 14 16 (put_u16 0) out;
          out = copy_into 16 20 (put_u32 txCount) out
      in marshal_txs (bf_Payload b) 20 out)"

text \<open>
  The method writes into its receiver as it goes, so an error leaves the fields it has already
  set: the result is the error, if any, with the receiver afterwards.
\<close>

definition BatchFrameV1_UnmarshalBinary ::
    "BatchFrameV1 \<Rightarrow> byte list \<Rightarrow> frame_error option \<times> BatchFrameV1" where
  "BatchFrameV1_UnmarshalBinary b payload =
     (if length payload < 20 then (Some ErrShortBatch, b)
      else if get_u32 (go_slice 0 4 payload) \<noteq> BatchMagic then (Some ErrBadBatchMagic, b)
      else if get_u16 (go_slice 4 6 payload) \<noteq> VersionV1 then (Some ErrBadBatchVer, b)
      else
        let b = b\<lparr> bf_Flags := get_u16 (go_slice 6 8 payload),
                   bf_BlockIndex := get_u32 (go_slice 8 12 payload),
                   bf_LaneID := get_u16 (go_slice 12 14 payload) \<rparr>;
            txCount = get_u32 (go_slice 16 20 payload);
            expected = 20 + int (unat txCount) * 12
        in if int (length payload) \<noteq> expected
           then (Some (ErrTxCountMismatch expected (int (length payload))), b)
           else case unmarshal_txs (unat txCount) 20 payload of
                  Inl e \<Rightarrow> (Some e, b)
                | Inr txs \<Rightarrow> (None, b\<lparr> bf_Payload := txs \<rparr>))"

definition BatchFrameV1_CommitmentHash :: "BatchFrameV1 \<Rightarrow> frame_error + byte list" where
  "BatchFrameV1_CommitmentHash b =
     bind_res (BatchFrameV1_MarshalBinary b) (\<lambda>bytes. Inr (Sum256 bytes))"

definition CommitmentHex :: "ProofRecordV1 \<Rightarrow> string" where
  "CommitmentHex p = EncodeToString (pr_CommitmentHash p)"

subsection \<open>Layout\<close>

text \<open>The 20 header bytes, with the reserved field as a parameter: the encoder writes 0 there.\<close>

definition frame_header :: "u16 \<Rightarrow> u32 \<Rightarrow> u16 \<Rightarrow> byte list \<Rightarrow> u32 \<Rightarrow> byte list" where
  "frame_header flags block lane reserved count =
     put_u32 BatchMagic @ put_u16 VersionV1 @ put_u16 flags @ put_u32 block @ put_u16 lane @
     reserved @ put_u32 count"

lemma length_frame_header [simp]:
  "length reserved = 2 \<Longrightarrow> length (frame_header flags block lane reserved count) = 20"
  by (simp add: frame_header_def)

text \<open>The encoder's header writes, applied to a zeroed buffer.\<close>

lemma header_writes:
  "copy_into 16 20 (put_u32 count) (copy_into 14 16 (put_u16 0) (copy_into 12 14 (put_u16 lane)
    (copy_into 8 12 (put_u32 block) (copy_into 6 8 (put_u16 flags) (copy_into 4 6 (put_u16 VersionV1)
      (copy_into 0 4 (put_u32 BatchMagic) (replicate (20 + n) 0)))))))
   = frame_header flags block lane (put_u16 0) count @ replicate n 0"
  by (simp add: copy_into_def frame_header_def)

lemma MarshalBinary_writes:
  "BatchFrameV1_MarshalBinary b =
     marshal_txs (bf_Payload b) 20
       (frame_header (bf_Flags b) (bf_BlockIndex b) (bf_LaneID b) (put_u16 0) (TxCount b)
         @ replicate (unat (TxCount b) * 12) 0)"
  by (simp add: BatchFrameV1_MarshalBinary_def Let_def headerSize_def header_writes)

lemma unat_TxCount: "length (bf_Payload b) < 2 ^ 32 \<Longrightarrow> unat (TxCount b) = length (bf_Payload b)"
  by (simp add: TxCount_def unat_u32_small)

lemma MarshalBinary_layout [frame_simps]:
  assumes "length (bf_Payload b) < 2 ^ 32"
  shows "BatchFrameV1_MarshalBinary b =
     Inr (frame_header (bf_Flags b) (bf_BlockIndex b) (bf_LaneID b) (put_u16 0) (TxCount b)
          @ concat (map Tx12_MarshalBinary (bf_Payload b)))"
  unfolding MarshalBinary_writes using assms
  by (subst marshal_txs_fills) (simp_all add: unat_TxCount)

text \<open>Reading the header back, whatever follows it.\<close>

lemma header_reads [frame_simps]:
  assumes "length reserved = 2"
  shows "get_u32 (go_slice 0 4 (frame_header flags block lane reserved count @ rest)) = BatchMagic"
    and "get_u16 (go_slice 4 6 (frame_header flags block lane reserved count @ rest)) = VersionV1"
    and "get_u16 (go_slice 6 8 (frame_header flags block lane reserved count @ rest)) = flags"
    and "get_u32 (go_slice 8 12 (frame_header flags block lane reserved count @ rest)) = block"
    and "get_u16 (go_slice 12 14 (frame_header flags block lane reserved count @ rest)) = lane"
    and "get_u32 (go_slice 16 20 (frame_header flags block lane reserved count @ rest)) = count"
  using assms by (simp_all add: go_slice_def frame_header_def)

lemma header_rebuild:
  assumes len: "20 \<le> length p" and magic: "get_u32 (go_slice 0 4 p) = BatchMagic"
    and ver: "get_u16 (go_slice 4 6 p) = VersionV1"
  shows "p = frame_header (get_u16 (go_slice 6 8 p)) (get_u32 (go_slice 8 12 p)) (get_u16 (go_slice 12 14 p))
               (go_slice 14 16 p) (get_u32 (go_slice 16 20 p)) @ drop 20 p"
proof -
  have cut: "take n (drop m p) @ drop (m + n) p = drop m p" for m n
    by (metis append_take_drop_id drop_drop add.commute)
  have m: "put_u32 BatchMagic = go_slice 0 4 p"
    using put_get_u32 [of "go_slice 0 4 p"] len by (simp add: magic in_slice_def)
  have v: "put_u16 VersionV1 = go_slice 4 6 p"
    using put_get_u16 [of "go_slice 4 6 p"] len by (simp add: ver in_slice_def)
  show ?thesis
    using len cut [of 4 0] cut [of 2 4] cut [of 2 6] cut [of 4 8] cut [of 2 12] cut [of 2 14] cut [of 4 16]
    by (simp add: frame_header_def m v put_get_u16 put_get_u32 in_slice_def) (simp add: go_slice_def)
qed

subsection \<open>Decoding\<close>

text \<open>The guards of \<^const>\<open>BatchFrameV1_UnmarshalBinary\<close>, in one predicate.\<close>

definition frame_accepts :: "byte list \<Rightarrow> bool" where
  "frame_accepts p \<longleftrightarrow> 20 \<le> length p
     \<and> get_u32 (go_slice 0 4 p) = BatchMagic
     \<and> get_u16 (go_slice 4 6 p) = VersionV1
     \<and> length p = 20 + unat (get_u32 (go_slice 16 20 p)) * 12"

fun frame_decode_error :: "frame_error \<Rightarrow> bool" where
  "frame_decode_error ErrShortBatch = True"
| "frame_decode_error ErrBadBatchMagic = True"
| "frame_decode_error ErrBadBatchVer = True"
| "frame_decode_error (ErrTxCountMismatch _ _) = True"
| "frame_decode_error _ = False"

lemma UnmarshalBinary_cases:
  obtains (accepts) txs where "frame_accepts p"
      "unmarshal_txs (unat (get_u32 (go_slice 16 20 p))) 20 p = Inr txs"
      "BatchFrameV1_UnmarshalBinary b p =
        (None, \<lparr> bf_Flags = get_u16 (go_slice 6 8 p), bf_BlockIndex = get_u32 (go_slice 8 12 p),
                 bf_LaneID = get_u16 (go_slice 12 14 p), bf_Payload = txs \<rparr>)"
    | (rejects) e where "\<not> frame_accepts p" "fst (BatchFrameV1_UnmarshalBinary b p) = Some e"
      "frame_decode_error e"
      "bf_Payload (snd (BatchFrameV1_UnmarshalBinary b p)) = bf_Payload b"
proof (cases "frame_accepts p")
  case True
  then obtain txs where txs: "unmarshal_txs (unat (get_u32 (go_slice 16 20 p))) 20 p = Inr txs"
    using unmarshal_txs_total [of 20 _ p] by (metis frame_accepts_def order_refl)
  show ?thesis
    using True txs
    by (intro accepts [of txs])
      (auto simp: BatchFrameV1_UnmarshalBinary_def frame_accepts_def Let_def)
next
  case False
  have cnt: "int (length p) = 20 + uint w * 12 \<longleftrightarrow> length p = 20 + unat w * 12" for w :: u32
    using of_nat_unat [of w, where 'a = int] by linarith
  from False show ?thesis
    by (intro rejects [of "the (fst (BatchFrameV1_UnmarshalBinary b p))"])
      (auto simp: BatchFrameV1_UnmarshalBinary_def frame_accepts_def Let_def cnt)
qed

lemma UnmarshalBinary_None_iff:
  "fst (BatchFrameV1_UnmarshalBinary b p) = None \<longleftrightarrow> frame_accepts p"
  by (rule UnmarshalBinary_cases [of p b]) auto

lemma Unmarshal_Marshal_frame:
  assumes "length (bf_Payload b) < 2 ^ 32"
  shows "\<exists>bytes. BatchFrameV1_MarshalBinary b = Inr bytes
      \<and> BatchFrameV1_UnmarshalBinary b0 bytes = (None, b)"
proof -
  let ?h = "frame_header (bf_Flags b) (bf_BlockIndex b) (bf_LaneID b) (put_u16 0) (TxCount b)"
  let ?p = "?h @ concat (map Tx12_MarshalBinary (bf_Payload b))"
  have acc: "frame_accepts ?p"
    using assms by (simp add: frame_accepts_def frame_simps unat_TxCount
        concat_map_length_const [where k = 12])
  have txs: "unmarshal_txs (length (bf_Payload b)) 20 ?p = Inr (bf_Payload b)"
    using unmarshal_txs_concat [of ?h 20 "bf_Payload b" "[]"] by simp
  have "BatchFrameV1_UnmarshalBinary b0 ?p = (None, b)"
    using acc txs assms
    by (cases rule: UnmarshalBinary_cases [of ?p b0]) (auto simp: frame_simps unat_TxCount)
  then show ?thesis using assms by (simp add: MarshalBinary_layout)
qed

lemma unmarshal_txs_length: "unmarshal_txs n offset p = Inr txs \<Longrightarrow> length txs = n"
  by (induction n offset p arbitrary: txs rule: unmarshal_txs.induct)
    (auto simp: bind_res_eq_Inr split: if_splits sum.splits)

lemma UnmarshalBinary_small:
  "BatchFrameV1_UnmarshalBinary b p = (None, bf) \<Longrightarrow> length (bf_Payload bf) < 2 ^ 32"
  by (rule UnmarshalBinary_cases [of p b])
    (use unmarshal_txs_length unsigned_less [of "get_u32 (go_slice 16 20 p)", where 'a = nat] in fastforce)+

text \<open>C28. A frame with fewer than \<open>2 ^ 32\<close> transfers survives the wire: decoding its encoding into any receiver gives
  the frame back, without an error.\<close>

theorem BatchFrame_roundtrip:
  assumes "length (bf_Payload b) < 2 ^ 32"
  shows "\<exists>bytes. BatchFrameV1_MarshalBinary b = Inr bytes
      \<and> BatchFrameV1_UnmarshalBinary b0 bytes = (None, b)"
  using assms by (rule Unmarshal_Marshal_frame)

text \<open>The decoder accepts a payload exactly when it is the encoding of the frame it returns, up to the two
  reserved bytes, which it ignores: re-encoding the decoded frame gives the payload with these two bytes zeroed.\<close>

theorem BatchFrame_decode_sound:
  assumes "BatchFrameV1_UnmarshalBinary b0 p = (None, b)"
  shows "BatchFrameV1_MarshalBinary b = Inr (take 14 p @ [0, 0] @ drop 16 p)"
proof (cases rule: UnmarshalBinary_cases [of p b0])
  case (accepts txs)
  let ?n = "unat (get_u32 (go_slice 16 20 p))"
  have len: "20 \<le> length p" "length p = 20 + ?n * 12"
    using accepts(1) by (auto simp: frame_accepts_def)
  have txs: "concat (map Tx12_MarshalBinary txs) = drop 20 p" "length txs = ?n"
    using unmarshal_txs_sound [OF _ accepts(2)] len by auto
  let ?h = "\<lambda>r. frame_header (get_u16 (go_slice 6 8 p)) (get_u32 (go_slice 8 12 p))
      (get_u16 (go_slice 12 14 p)) r (get_u32 (go_slice 16 20 p))"
  have p: "p = ?h (go_slice 14 16 p) @ drop 20 p"
    using accepts(1) by (intro header_rebuild) (auto simp: frame_accepts_def)
  have b: "b = \<lparr> bf_Flags = get_u16 (go_slice 6 8 p), bf_BlockIndex = get_u32 (go_slice 8 12 p),
      bf_LaneID = get_u16 (go_slice 12 14 p), bf_Payload = txs \<rparr>"
    using accepts(3) assms by simp
  have small: "?n < 2 ^ 32" using unsigned_less [of "get_u32 (go_slice 16 20 p)", where 'a = nat] by simp
  have cnt: "TxCount b = get_u32 (go_slice 16 20 p)"
    by (simp add: TxCount_def b txs)
  have "BatchFrameV1_MarshalBinary b = Inr (?h (put_u16 0) @ drop 20 p)"
    using small txs MarshalBinary_layout [of b] cnt by (simp add: b)
  also have "?h (put_u16 0) @ drop 20 p = take 14 (?h (go_slice 14 16 p) @ drop 20 p) @ [0, 0]
      @ drop 16 (?h (go_slice 14 16 p) @ drop 20 p)"
    using len by (simp add: frame_header_def put_u16_def in_slice_def)
  finally show ?thesis using p by simp
next
  case (rejects e)
  then show ?thesis using assms by simp
qed

text \<open>C29. Decoding untrusted bytes is safe and total: it succeeds exactly on the payloads that pass the four checks;
  any other payload gets one of the four documented errors, never a run-time panic, and the receiver keeps the
  transfers it had.\<close>

theorem BatchFrame_decode_total:
  "case fst (BatchFrameV1_UnmarshalBinary b p) of
     None \<Rightarrow> frame_accepts p
   | Some e \<Rightarrow> \<not> frame_accepts p \<and> frame_decode_error e
       \<and> bf_Payload (snd (BatchFrameV1_UnmarshalBinary b p)) = bf_Payload b"
  by (rule UnmarshalBinary_cases [of p b]) auto

theorem BatchFrame_roundtrip_witness:
  "\<exists>bytes. BatchFrameV1_MarshalBinary
        \<lparr> bf_Flags = 0, bf_BlockIndex = 7, bf_LaneID = 3,
          bf_Payload = [\<lparr> SenderIndex = 1, ReceiverIndex = 2, Amount = 3 \<rparr>] \<rparr> = Inr bytes
      \<and> BatchFrameV1_UnmarshalBinary \<lparr> bf_Flags = 9, bf_BlockIndex = 9, bf_LaneID = 9, bf_Payload = [] \<rparr> bytes
        = (None, \<lparr> bf_Flags = 0, bf_BlockIndex = 7, bf_LaneID = 3,
             bf_Payload = [\<lparr> SenderIndex = 1, ReceiverIndex = 2, Amount = 3 \<rparr>] \<rparr>)"
  by (rule BatchFrame_roundtrip) simp

theorem BatchFrame_decode_sound_witness:
  "BatchFrameV1_MarshalBinary \<lparr> bf_Flags = 0, bf_BlockIndex = 7, bf_LaneID = 3, bf_Payload = [] \<rparr>
   = Inr [0x31, 0x31, 0x46, 0x42, 1, 0, 0, 0, 7, 0, 0, 0, 3, 0, 0, 0, 0, 0, 0, 0]"
  using BatchFrame_decode_sound [of "\<lparr> bf_Flags = 9, bf_BlockIndex = 9, bf_LaneID = 9, bf_Payload = [] \<rparr>"
      "[0x31, 0x31, 0x46, 0x42, 1, 0, 0, 0, 7, 0, 0, 0, 3, 0, 5, 5, 0, 0, 0, 0]"]
  by (simp add: BatchFrameV1_UnmarshalBinary_def go_slice_def get_u32_def get_u16_def BatchMagic_def VersionV1_def Let_def)

text \<open>The encoder's 32-bit transfer count wraps around, so a frame of \<open>2 ^ 32\<close> or more transfers gets a buffer that is too
  short and the write loop panics; below that it always succeeds, with 20 bytes of header and 12 per transfer.\<close>

theorem BatchFrame_marshal_total:
  "case BatchFrameV1_MarshalBinary b of
     Inr bytes \<Rightarrow> length (bf_Payload b) < 2 ^ 32 \<and> length bytes = 20 + length (bf_Payload b) * 12
   | Inl e \<Rightarrow> 2 ^ 32 \<le> length (bf_Payload b) \<and> e = PanicSliceBounds"
proof (cases "length (bf_Payload b) < 2 ^ 32")
  case True
  then show ?thesis by (simp add: MarshalBinary_layout concat_map_length_const [where k = 12])
next
  case False
  have "unat (TxCount b) < 2 ^ 32" using unsigned_less [of "TxCount b", where 'a = nat] by simp
  then have "unat (TxCount b) < length (bf_Payload b)" using False by simp
  moreover have "bf_Payload b \<noteq> []" using False by auto
  ultimately have "BatchFrameV1_MarshalBinary b = Inl PanicSliceBounds"
    unfolding MarshalBinary_writes by (intro marshal_txs_overrun) simp_all
  then show ?thesis using False by simp
qed

lemma Decode_Encode_TxSlice: "DecodeTxSlice (EncodeTxSlice txs) = Inr txs"
  using unmarshal_txs_concat [of "[]" 0 txs "[]"]
  by (simp add: DecodeTxSlice_def) (simp add: EncodeTxSlice_concat)

lemma DecodeTxSlice_total:
  assumes "length p mod 12 = 0" shows "\<exists>txs. DecodeTxSlice p = Inr txs \<and> EncodeTxSlice txs = p"
proof (cases "p = []")
  case False
  then have len: "0 + length p div 12 * 12 = length p" using assms by auto
  obtain s where s: "unmarshal_txs (length p div 12) 0 p = Inr s"
    using unmarshal_txs_total [of 0 "length p div 12" p] len by auto
  then show ?thesis
    using unmarshal_txs_sound [OF len s] False assms by (simp add: DecodeTxSlice_def EncodeTxSlice_concat)
qed (simp add: DecodeTxSlice_def EncodeTxSlice_concat)

text \<open>The transfer lists of the HTTP envelopes have one encoding each: decoding inverts encoding, whatever is decoded
  encodes back to the same bytes, and only a length that is not a multiple of 12 is refused.\<close>

theorem TxSlice_codec:
  "DecodeTxSlice (EncodeTxSlice txs) = Inr txs
   \<and> (case DecodeTxSlice p of
        Inr s \<Rightarrow> EncodeTxSlice s = p
      | Inl e \<Rightarrow> e = ErrTxSliceSize \<and> length p mod 12 \<noteq> 0)"
proof
  show "DecodeTxSlice (EncodeTxSlice txs) = Inr txs" by (rule Decode_Encode_TxSlice)
  show "case DecodeTxSlice p of Inr s \<Rightarrow> EncodeTxSlice s = p
      | Inl e \<Rightarrow> e = ErrTxSliceSize \<and> length p mod 12 \<noteq> 0"
    using DecodeTxSlice_total [of p] by (cases "length p mod 12 = 0") (auto simp: DecodeTxSlice_def)
qed

end
