(* ===== verification/Go_Map.thy ===== *)
theory Go_Map imports HL2_Prelude "HOL-Library.AList" begin

text \<open>
  Go's built-in map as an association list with distinct keys: \<^const>\<open>map_of\<close> reads,
  \<^const>\<open>AList.update\<close> writes, \<^const>\<open>AList.delete\<close> deletes and \<^const>\<open>length\<close> is \<^verbatim>\<open>len\<close>.
  The order of the list is the iteration order, which Go leaves open; the one place that ranges
  over a map is shown not to depend on it.
\<close>

section \<open>Maps\<close>

type_synonym ('k, 'v) go_map = "('k \<times> 'v) list"

definition go_map_ok :: "('k, 'v) go_map \<Rightarrow> bool" where
  "go_map_ok m \<longleftrightarrow> distinct (map fst m)"

text \<open>Reading an absent key of a map gives the zero value.\<close>

definition map_get :: "'v \<Rightarrow> ('k, 'v) go_map \<Rightarrow> 'k \<Rightarrow> 'v" where
  "map_get zero m k = (case map_of m k of None \<Rightarrow> zero | Some v \<Rightarrow> v)"

lemma go_map_ok_Nil [simp]: "go_map_ok []"
  by (simp add: go_map_ok_def)

lemma go_map_ok_update [simp]: "go_map_ok m \<Longrightarrow> go_map_ok (AList.update k v m)"
  by (simp add: go_map_ok_def distinct_update)

lemma go_map_ok_delete [simp]: "go_map_ok m \<Longrightarrow> go_map_ok (AList.delete k m)"
  by (simp add: go_map_ok_def distinct_delete)

lemma map_of_update [simp]: "map_of (AList.update k v m) = (map_of m)(k \<mapsto> v)"
  by (simp add: update_conv')

lemma map_of_delete [simp]: "map_of (AList.delete k m) = (map_of m)(k := None)"
  by (simp add: delete_conv')

lemma map_get_update [simp]:
  "map_get z (AList.update k v m) j = (if j = k then v else map_get z m j)"
  by (simp add: map_get_def)

lemma length_map_dom: "go_map_ok m \<Longrightarrow> length m = card (dom (map_of m))"
  by (simp add: go_map_ok_def dom_map_of_conv_image_fst distinct_card flip: set_map)

lemma length_update_map:
  "length (AList.update k v m) = (if k \<in> dom (map_of m) then length m else Suc (length m))"
  by (induction m) (auto simp: dom_def)

lemma map_of_Some_iff: "go_map_ok m \<Longrightarrow> map_of m k = Some v \<longleftrightarrow> (k, v) \<in> set m"
  by (simp add: go_map_ok_def)

text \<open>Adding to one entry adds as much to the sum of all of them.\<close>

lemma sum_list_update_map:
  fixes m :: "('k, 'v::ab_group_add) go_map"
  assumes "go_map_ok m"
  shows "sum_list (map snd (AList.update k (map_get 0 m k + d) m)) = sum_list (map snd m) + d"
  using assms
proof (induction m)
  case Nil
  then show ?case by (simp add: map_get_def)
next
  case (Cons a m)
  then show ?case
    by (cases a) (auto simp: map_get_def go_map_ok_def ac_simps)
qed

end
