(* ===== verification/Go_Float.thy ===== *)
theory Go_Float imports HL2_Prelude "HOL-Library.Log_Nat" begin

text \<open>
  Go's \<^verbatim>\<open>float64\<close> arithmetic, as far as the pipeline uses it: every value is a rational number, and
  each conversion, product, sum or quotient is the exact result rounded to 53 significant bits,
  ties to even (IEEE 754 binary64).  Zeroes, subnormals, infinities and NaN need no treatment of
  their own: all values that occur are 0 or lie between \<open>10 ^ -9\<close> and \<open>2 ^ 128\<close> in magnitude.
\<close>

section \<open>Rounding to 53 bits\<close>

text \<open>The binary exponent of a positive rational: \<open>2 powi e \<le> x < 2 powi (e + 1)\<close>.\<close>

definition ilog2 :: "rat \<Rightarrow> int" where
  "ilog2 x = (case quotient_of x of (p, q) \<Rightarrow>
     let e = bitlen p - bitlen q in if 2 powi e \<le> x then e else e - 1)"

definition round_half_even :: "rat \<Rightarrow> int" where
  "round_half_even x = (let f = \<lfloor>x\<rfloor>; d = x - of_int f in
     if d < 1 / 2 then f else if 1 / 2 < d then f + 1 else if even f then f else f + 1)"

definition fl64 :: "rat \<Rightarrow> rat" where
  "fl64 x = (if x = 0 then 0
     else let u = 2 powi (ilog2 \<bar>x\<bar> - 52) in of_int (round_half_even (x / u)) * u)"

lemma bitlen_powi:
  assumes "0 < p" shows "2 powi (bitlen p - 1) \<le> (of_int p :: rat)" "(of_int p :: rat) < 2 powi bitlen p"
proof -
  have b: "0 < bitlen p" using assms 
    by (simp add: bitlen_def floorlog_def add_pos_nonneg)
  have "2 ^ nat (bitlen p - 1) \<le> p \<and> p < 2 ^ nat (bitlen p)"
    using bitlen_bounds [of p] assms by simp
  then have "(of_int (2 ^ nat (bitlen p - 1)) :: rat) \<le> of_int p \<and> (of_int p :: rat) < of_int (2 ^ nat (bitlen p))"
    by (simp only: of_int_le_iff of_int_less_iff)
  then show "2 powi (bitlen p - 1) \<le> (of_int p :: rat)" "(of_int p :: rat) < 2 powi bitlen p"
    using b by (simp_all add: power_int_def)
qed

lemma ilog2_bounds:
  assumes "0 < x" shows "2 powi (ilog2 x) \<le> x" "x < 2 powi (ilog2 x + 1)"
proof -
  obtain p q where pq: "quotient_of x = (p, q)" by (cases "quotient_of x")
  have q: "0 < q" using quotient_of_denom_pos [OF pq] .
  have x: "x = of_int p / of_int q" using quotient_of_div [OF pq] .
  have p: "0 < p" using assms q by (simp add: x zero_less_divide_iff)
  define e where "e = bitlen p - bitlen q"
  have up: "x < 2 powi (e + 1)"
  proof -
    have "x < 2 powi bitlen p / 2 powi (bitlen q - 1)"
      unfolding x using p q bitlen_powi [OF p] bitlen_powi [OF q]
      by (intro frac_less) (auto simp: zero_less_power_int)
    also have "\<dots> = 2 powi (e + 1)"
      by (simp add: e_def flip: power_int_diff) (simp add: algebra_simps)
    finally show ?thesis .
  qed
  have lo: "2 powi (e - 1) \<le> x"
  proof -
    have "2 powi (bitlen p - 1) / 2 powi bitlen q \<le> x"
      unfolding x using p q bitlen_powi [OF p] bitlen_powi [OF q]
      by (intro frac_le) auto
    also have "2 powi (bitlen p - 1) / 2 powi bitlen q = (2 powi (e - 1) :: rat)"
      by (simp add: e_def flip: power_int_diff) (simp add: algebra_simps)
    finally show ?thesis .
  qed
  have e: "ilog2 x = (if 2 powi e \<le> x then e else e - 1)"
    by (simp add: ilog2_def pq e_def Let_def)
  show "2 powi (ilog2 x) \<le> x" using lo by (simp add: e)
  show "x < 2 powi (ilog2 x + 1)" using up by (simp add: e)
qed

lemma powi2_mono: "a \<le> b \<Longrightarrow> (2 powi a :: rat) \<le> 2 powi b"
  by (simp add: power_int_increasing)

lemma powi2_less_imp: "(2 powi a :: rat) < 2 powi b \<Longrightarrow> a < b"
  using powi2_mono [of b a] by (meson not_le)

lemma ilog2_unique:
  assumes "2 powi e \<le> x" "x < 2 powi (e + 1)" shows "ilog2 x = e"
proof -
  have x: "0 < x" using assms(1) by (meson less_le_trans zero_less_numeral zero_less_power_int)
  have "e < ilog2 x + 1" "ilog2 x < e + 1"
    using ilog2_bounds [OF x] assms by (meson le_less_trans powi2_less_imp)+
  then show ?thesis by simp
qed

section \<open>Rounding to an integer\<close>

lemma round_half_even_of_int [simp]: "round_half_even (of_int n) = n"
  by (simp add: round_half_even_def)

lemma round_half_even_err: "\<bar>of_int (round_half_even x) - x\<bar> \<le> 1 / 2"
proof -
  define f d where "f = \<lfloor>x\<rfloor>" and "d = x - of_int f"
  have d: "0 \<le> d" "d < 1" using floor_correct [of x] by (simp_all add: d_def f_def)
  have r: "round_half_even x
      = (if d < 1 / 2 then f else if 1 / 2 < d then f + 1 else if even f then f else f + 1)"
    by (simp add: round_half_even_def Let_def f_def d_def)
  have "of_int (round_half_even x) - x = - d \<and> d \<le> 1 / 2
      \<or> of_int (round_half_even x) - x = 1 - d \<and> 1 / 2 \<le> d"
    unfolding r by (simp add: not_less) (simp add: d_def)
  then show ?thesis using d by (auto simp: abs_if)
qed

lemma round_half_even_ge: "of_int n \<le> x \<Longrightarrow> n \<le> round_half_even x"
  by (auto simp: round_half_even_def Let_def le_floor_iff intro: add_increasing2)

section \<open>Properties of the rounding\<close>

lemma fl64_0 [simp]: "fl64 0 = 0"
  by (simp add: fl64_def)

lemma fl64_pos_def:
  "0 < x \<Longrightarrow> fl64 x = of_int (round_half_even (x / 2 powi (ilog2 x - 52))) * 2 powi (ilog2 x - 52)"
  by (simp add: fl64_def Let_def)

lemma fl64_err:
  assumes "0 \<le> x" shows "\<bar>fl64 x - x\<bar> \<le> x / 2 ^ 53"
proof (cases "x = 0")
  case True
  then show ?thesis by simp
next
  case False
  with assms have x: "0 < x" by simp
  define u :: rat where "u = 2 powi (ilog2 x - 52)"
  have u: "0 < u" by (simp add: u_def zero_less_power_int)
  have "fl64 x - x = (of_int (round_half_even (x / u)) - x / u) * u"
    using u by (simp add: fl64_pos_def [OF x] u_def algebra_simps)
  then have "\<bar>fl64 x - x\<bar> = \<bar>of_int (round_half_even (x / u)) - x / u\<bar> * u"
    using u by (simp add: abs_mult)
  also have "\<dots> \<le> 1 / 2 * u"
    using u round_half_even_err [of "x / u"] by (intro mult_right_mono) auto
  also have "\<dots> = 2 powi (ilog2 x) / 2 ^ 53"
    by (simp add: u_def power_int_diff)
  also have "\<dots> \<le> x / 2 ^ 53"
    using ilog2_bounds [OF x] by (simp add: divide_right_mono)
  finally show ?thesis .
qed

text \<open>Integers of at most 53 bits are represented exactly.\<close>

lemma fl64_of_int:
  assumes "0 \<le> n" "n \<le> 2 ^ 53" shows "fl64 (of_int n) = of_int n"
proof (cases "n = 0")
  case True
  then show ?thesis by simp
next
  case False
  with assms have n: "0 < n" by simp
  let ?e = "ilog2 (of_int n)"
  have e0: "0 \<le> ?e"
  proof (rule ccontr)
    assume "\<not> 0 \<le> ?e"
    then have "(2 powi (?e + 1) :: rat) \<le> 2 powi 0" by (intro powi2_mono) simp
    then show False using ilog2_bounds [of "of_int n"] n by simp
  qed
  have e53: "?e \<le> 53"
  proof -
    have "(2 powi ?e :: rat) \<le> of_int n" using ilog2_bounds [of "of_int n"] n by simp
    also have "\<dots> \<le> of_int (2 ^ 53)" using assms(2) by (simp only: of_int_le_iff)
    also have "\<dots> < 2 powi 54" by simp
    finally have "?e < 54" by (rule powi2_less_imp)
    then show ?thesis by simp
  qed
  have "\<exists>m. of_int n / 2 powi (?e - 52) = (of_int m :: rat)"
  proof (cases "?e \<le> 52")
    case True
    then have "of_int n / 2 powi (?e - 52) = (of_int (n * 2 ^ nat (52 - ?e)) :: rat)"
      by (simp add: power_int_def field_simps)
    then show ?thesis by blast
  next
    case False
    then have e: "?e = 53" using e53 by simp
    have "(2 powi 53 :: rat) \<le> of_int n" using ilog2_bounds [of "of_int n"] n e by simp
    then have "(of_int (2 ^ 53) :: rat) \<le> of_int n" by simp
    then have "n = 2 ^ 53" using assms(2) by (simp only: of_int_le_iff)
    then have "of_int n / 2 powi (?e - 52) = (of_int (2 ^ 52) :: rat)"
      unfolding e by simp
    then show ?thesis by blast
  qed
  then obtain m where m: "of_int n / 2 powi (?e - 52) = (of_int m :: rat)" by blast
  then have "(of_int n :: rat) = of_int m * 2 powi (?e - 52)"
    by (simp add: field_simps)
  then show ?thesis using n by (simp add: fl64_pos_def m)
qed

text \<open>Rounding does not drop below an integer that is represented exactly.\<close>

lemma fl64_ge_of_int:
  assumes "0 \<le> n" "n \<le> 2 ^ 53" "of_int n \<le> x" shows "of_int n \<le> fl64 x"
proof (cases "n = 0 \<or> of_int n = x")
  case True
  then show ?thesis
  proof
    assume n: "n = 0"
    show ?thesis
    proof (cases "x = 0")
      case False
      then have x: "0 < x" using assms n by simp
      have "0 \<le> round_half_even (x / 2 powi (ilog2 x - 52))"
        using x by (intro round_half_even_ge) simp
      then show ?thesis by (simp add: n fl64_pos_def [OF x])
    qed (simp add: n)
  next
    assume "of_int n = x"
    then show ?thesis using fl64_of_int [OF assms(1,2)] by simp
  qed
next
  case False
  then have n: "0 < n" and x: "0 < x" using assms by linarith+
  have err: "x - x / 2 ^ 53 \<le> fl64 x" using fl64_err [of x] x by (simp only: abs_le_iff) linarith
  define u :: rat where "u = 2 powi (ilog2 x - 52)"
  have u: "0 < u" by (simp add: u_def zero_less_power_int)
  have grid: "k \<le> fl64 x" if "k / u = of_int j" "k \<le> x" for k j
  proof -
    have "of_int j \<le> x / u" using that u by (simp add: divide_right_mono flip: that(1))
    then have "j \<le> round_half_even (x / u)" by (rule round_half_even_ge)
    then have "of_int j * u \<le> fl64 x"
      using u by (simp add: fl64_pos_def [OF x] u_def)
    then show ?thesis using that(1) u by (simp add: field_simps)
  qed
  show ?thesis
  proof (cases "ilog2 x \<le> 52")
    case True
    then have "of_int n / u = of_int (n * 2 ^ nat (52 - ilog2 x))"
      by (simp add: u_def power_int_def field_simps)
    then show ?thesis using assms(3) by (rule grid)
  next
    case False
    then have "2 powi (ilog2 x) / u = of_int (2 ^ 52)"
      by (simp add: u_def flip: power_int_diff)
    then have "2 powi (ilog2 x) \<le> fl64 x" using ilog2_bounds [OF x] by (intro grid)
    moreover have "(of_int n :: rat) \<le> of_int (2 ^ 53)"
      using assms(2) by (simp only: of_int_le_iff)
    moreover have "(2 powi 53 :: rat) \<le> 2 powi (ilog2 x)" using False by (intro powi2_mono) simp
    ultimately show ?thesis by simp
  qed
qed

text \<open>Evaluating the rounding at a concrete value, given its exponent and significand.\<close>

lemma round_half_even_near: "\<bar>x - of_int n\<bar> < 1 / 2 \<Longrightarrow> round_half_even x = n"
proof -
  assume "\<bar>x - of_int n\<bar> < 1 / 2"
  then have "\<bar>of_int (round_half_even x) - (of_int n :: rat)\<bar> < 1"
    using round_half_even_err [of x] abs_triangle_ineq [of "of_int (round_half_even x) - x" "x - of_int n"]
    by simp
  then have "(of_int \<bar>round_half_even x - n\<bar> :: rat) < of_int 1" by simp
  then show ?thesis by (simp only: of_int_less_iff)
qed

lemma fl64_near:
  assumes "2 powi e \<le> x" "x < 2 powi (e + 1)" "\<bar>x / 2 powi (e - 52) - of_int n\<bar> < 1 / 2"
  shows "fl64 x = of_int n * 2 powi (e - 52)"
proof -
  have "0 < x" using assms(1) by (meson less_le_trans zero_less_numeral zero_less_power_int)
  then show ?thesis
    using ilog2_unique [OF assms(1,2)] round_half_even_near [OF assms(3)] by (simp add: fl64_pos_def)
qed

section \<open>Operations\<close>

definition f64_of_int :: "int \<Rightarrow> rat" where
  "f64_of_int i = fl64 (of_int i)"

definition f64_add :: "rat \<Rightarrow> rat \<Rightarrow> rat" where
  "f64_add x y = fl64 (x + y)"

definition f64_mul :: "rat \<Rightarrow> rat \<Rightarrow> rat" where
  "f64_mul x y = fl64 (x * y)"

definition f64_div :: "rat \<Rightarrow> rat \<Rightarrow> rat" where
  "f64_div x y = fl64 (x / y)"

text \<open>
  \<^verbatim>\<open>int(f)\<close> drops the fraction.  Outside the range of the type Go leaves the result to the
  implementation; the model takes the amd64 answer, the least integer.
\<close>

definition int_of_f64 :: "rat \<Rightarrow> int" where
  "int_of_f64 x = (let t = (if 0 \<le> x then \<lfloor>x\<rfloor> else \<lceil>x\<rceil>) in if int64_range t then t else - (2 ^ 63))"

lemma f64_of_int_exact: "0 \<le> n \<Longrightarrow> n \<le> 2 ^ 53 \<Longrightarrow> f64_of_int n = of_int n"
  by (simp add: f64_of_int_def fl64_of_int)

lemma fl64_nonneg: "0 \<le> x \<Longrightarrow> 0 \<le> fl64 x"
  using fl64_ge_of_int [of 0 x] by simp

text \<open>
  A float quotient of small integers compares with an integer as the exact quotient does: the
  rounding error cannot carry it over the threshold.
\<close>

lemma f64_div_ge_iff:
  assumes v: "0 \<le> v" "v < 2 ^ 53" and d: "0 < d" "d \<le> 2 ^ 53" and t: "0 \<le> t" "t \<le> 2 ^ 53"
  shows "f64_of_int t \<le> f64_div (f64_of_int v) (f64_of_int d) \<longleftrightarrow> t * d \<le> v"
proof -
  let ?q = "of_int v / of_int d :: rat"
  have eq: "f64_div (f64_of_int v) (f64_of_int d) = fl64 ?q" "f64_of_int t = of_int t"
    using v d t by (simp_all add: f64_div_def f64_of_int_exact)
  show ?thesis
  proof (cases "t * d \<le> v")
    case True
    then have "(of_int (t * d) :: rat) \<le> of_int v" by (simp only: of_int_le_iff)
    then have "of_int t \<le> ?q" using d by (simp add: field_simps)
    then show ?thesis using True t fl64_ge_of_int [of t ?q] by (simp add: eq)
  next
    case False
    then have "(of_int (v + 1) :: rat) \<le> of_int (t * d)" by (simp only: of_int_le_iff)
    then have q: "?q + 1 / of_int d \<le> of_int t" using d by (simp add: field_simps)
    have q0: "0 \<le> ?q" using v d by simp
    have "fl64 ?q \<le> ?q + ?q / 2 ^ 53" using fl64_err [OF q0] by (simp only: abs_le_iff) linarith
    moreover have "?q / 2 ^ 53 < 1 / of_int d"
    proof -
      have "(of_int v :: rat) < of_int (2 ^ 53)" using v by (simp only: of_int_less_iff)
      then show ?thesis using d by (simp add: field_simps)
    qed
    ultimately have "fl64 ?q < of_int t" using q by linarith
    then show ?thesis using False by (simp add: eq)
  qed
qed

end
