(* ===== verification/Pipeline_Types.thy ===== *)
theory Pipeline_Types imports Frame Go_Map Go_Float begin

text \<open>
  \<^verbatim>\<open>internal/pipeline/types.go\<close> and \<^verbatim>\<open>api.go\<close>: the jobs, batches, commits, requests and log entries
  that travel through the pipeline, the JSON envelopes of its HTTP services, and the two
  commitments: over the lane hashes of a block and over its transfers.
\<close>

section \<open>Data\<close>

text \<open>A \<^verbatim>\<open>[32]byte\<close> is a byte list, of length 32 in well-formed values.\<close>

type_synonym hash = "byte list"

text \<open>An instant is its number of nanoseconds since the Unix epoch.\<close>

type_synonym time = int

record BlockJob =
  bj_Phase :: string
  bj_BlockIndex :: u32
  bj_Txs :: "Tx12 list"
  bj_CreatedAt :: time

record LaneBatch =
  lb_Phase :: string
  lb_BlockIndex :: u32
  lb_LaneID :: u16
  lb_Payload :: "Tx12 list"
  lb_CreatedAt :: time

record BlockCommit =
  bc_Phase :: string
  bc_BlockIndex :: u32
  bc_CommitmentHash :: hash
  bc_TxCount :: u32
  bc_Txs :: "Tx12 list"
  bc_CreatedAt :: time

record SubmitRequest =
  rq_Phase :: string
  rq_BlockIndex :: u32
  rq_CommitmentHash :: hash
  rq_Proof :: ProofRecordV1
  rq_TxCount :: u32
  rq_Txs :: "Tx12 list"
  rq_CreatedAt :: time

record SubmitResponse =
  rs_Accepted :: bool
  rs_Duplicate :: bool
  rs_ProofOK :: bool
  rs_Finalized :: bool
  rs_Reason :: string
  rs_LatencyMs :: u64
  rs_BlockIndex :: u32

record BlockLog =
  bl_Phase :: string
  bl_BlockIndex :: u32
  bl_TxCount :: u32
  bl_ProofVerified :: bool
  bl_Finalized :: bool
  bl_Duplicate :: bool
  bl_StateApplied :: bool
  bl_StateVersion :: u64
  bl_DeltaCount :: int
  bl_Error :: string
  bl_FinalizeMs :: rat
  bl_CommitmentHash :: string

record LaneBatchEnvelope =
  le_Phase :: string
  le_BlockIndex :: u32
  le_LaneID :: u16
  le_BatchHex :: string
  le_CreatedAtUnixMs :: int

record BlockCommitEnvelope =
  ce_Phase :: string
  ce_BlockIndex :: u32
  ce_CommitmentHashHex :: string
  ce_TxCount :: u32
  ce_TxPayloadHex :: string
  ce_CreatedAtUnixMs :: int

record L1SubmitEnvelope =
  se_Phase :: string
  se_BlockIndex :: u32
  se_CommitmentHashHex :: string
  se_ProofHex :: string
  se_TxCount :: u32
  se_TxPayloadHex :: string
  se_CreatedAtUnixMs :: int

section \<open>Time\<close>

text \<open>
  \<^verbatim>\<open>time.Since\<close> saturates at the range of a duration; \<^verbatim>\<open>Milliseconds\<close> divides towards zero.
\<close>

definition time_sub :: "time \<Rightarrow> time \<Rightarrow> int" where
  "time_sub t u = max (- (2 ^ 63)) (min (2 ^ 63 - 1) (t - u))"

definition Milliseconds :: "int \<Rightarrow> int" where
  "Milliseconds d = go_quot d 1000000"

definition UnixMilli :: "time \<Rightarrow> int" where
  "UnixMilli t = t div 1000000"

section \<open>The commitment to the lane hashes\<close>

datatype pipeline_error = ErrEmptyLaneHashes

text \<open>
  The loop over the sorted lanes appends the lane number and the hash found for it.  The list
  behind the map is the order in which Go happens to range over it.
\<close>

fun lane_payload :: "(u16, hash) go_map \<Rightarrow> int list \<Rightarrow> byte list" where
  "lane_payload laneHashes [] = []"
| "lane_payload laneHashes (lane # lanes) =
     (let laneID = of_int lane :: u16 in
      put_u16 laneID @ map_get (replicate 32 0) laneHashes laneID @ lane_payload laneHashes lanes)"

definition AggregateCommitment :: "(u16, hash) go_map \<Rightarrow> pipeline_error + hash" where
  "AggregateCommitment laneHashes =
     (if length laneHashes = 0 then Inl ErrEmptyLaneHashes
      else let lanes = sort (map (\<lambda>p. uint (fst p)) laneHashes)
           in Inr (Sum256 (lane_payload laneHashes lanes)))"

lemma lane_payload_cong:
  "map_of m = map_of m' \<Longrightarrow> lane_payload m lanes = lane_payload m' lanes"
  by (induction lanes) (simp_all add: map_get_def)

lemma sorted_lanes_unique:
  fixes m :: "(u16, hash) go_map"
  assumes "go_map_ok m" "go_map_ok m'" "map_of m = map_of m'"
  shows "sort (map (\<lambda>p. uint (fst p)) m) = sort (map (\<lambda>p. uint (fst p)) m')"
proof (rule sorted_distinct_set_unique)
  have "distinct (map uint ks) = distinct ks" for ks :: "u16 list"
    by (auto simp: distinct_map inj_on_def word_uint_eq_iff)
  then have "distinct (map uint (map fst m))" "distinct (map uint (map fst m'))"
    using assms(1,2) by (simp_all only: go_map_ok_def)
  then show "distinct (sort (map (\<lambda>p. uint (fst p)) m))" "distinct (sort (map (\<lambda>p. uint (fst p)) m'))"
    by (simp_all add: comp_def)
  have "fst ` set m = fst ` set m'"
    using assms(3) by (metis dom_map_of_conv_image_fst)
  then have "uint ` fst ` set m = uint ` fst ` set m'" by simp
  then show "set (sort (map (\<lambda>p. uint (fst p)) m)) = set (sort (map (\<lambda>p. uint (fst p)) m'))"
    by (simp add: image_image)
qed simp_all

text \<open>The commitment to the lane hashes does not depend on the order in which Go ranges over the map: two
  association lists with the same entries give the same result.\<close>

theorem AggregateCommitment_order_independent:
  assumes "go_map_ok m" "go_map_ok m'" "map_of m = map_of m'"
  shows "AggregateCommitment m = AggregateCommitment m'"
proof -
  have "length m = length m'" using assms by (simp add: length_map_dom)
  then show ?thesis
    using sorted_lanes_unique [OF assms] lane_payload_cong [OF assms(3)]
    by (simp add: AggregateCommitment_def Let_def)
qed

theorem AggregateCommitment_order_independent_witness:
  "AggregateCommitment [(3, replicate 32 1), (1, replicate 32 2)]
   = AggregateCommitment [(1, replicate 32 2), (3, replicate 32 1)]"
  by (rule AggregateCommitment_order_independent) (auto simp: go_map_ok_def fun_eq_iff)

section \<open>Lane frames and the commitment to a block's transfers\<close>

definition BuildLaneBatchFrame :: "u32 \<Rightarrow> u16 \<Rightarrow> Tx12 list \<Rightarrow> BatchFrameV1" where
  "BuildLaneBatchFrame blockIndex laneID payload =
     \<lparr> bf_Flags = 0, bf_BlockIndex = blockIndex, bf_LaneID = laneID, bf_Payload = payload \<rparr>"

definition CommitmentFromTxs :: "u32 \<Rightarrow> Tx12 list \<Rightarrow> hash" where
  "CommitmentFromTxs blockIndex txs =
     (let txPayload = EncodeTxSlice txs;
          inp = replicate (4 + length txPayload) 0;
          inp = copy_into 0 4 (put_u32 blockIndex) inp;
          inp = copy_into 4 (length inp) txPayload inp
      in Sum256 inp)"

definition commit_preimage :: "u32 \<Rightarrow> Tx12 list \<Rightarrow> byte list" where
  "commit_preimage blockIndex txs = put_u32 blockIndex @ EncodeTxSlice txs"

lemma CommitmentFromTxs_preimage: "CommitmentFromTxs b txs = Sum256 (commit_preimage b txs)"
  by (simp add: CommitmentFromTxs_def commit_preimage_def copy_into_def Let_def)

lemma length_CommitmentFromTxs [simp]: "length (CommitmentFromTxs b txs) = 32"
  by (simp add: CommitmentFromTxs_preimage)

text \<open>\<^verbatim>\<open>EncodeTxSlice\<close> loses nothing, so neither does the preimage of the commitment.\<close>

lemma EncodeTxSlice_inj [simp]: "EncodeTxSlice s = EncodeTxSlice t \<longleftrightarrow> s = t"
proof
  assume e: "EncodeTxSlice s = EncodeTxSlice t"
  then have "length (EncodeTxSlice s) = length (EncodeTxSlice t)" by simp
  then have l: "length s = length t" by simp
  have "unmarshal_txs (length s) 0 (EncodeTxSlice s) = Inr s"
    "unmarshal_txs (length t) 0 (EncodeTxSlice t) = Inr t"
    using unmarshal_txs_concat [of "[]" 0 _ "[]"] by (simp_all add: EncodeTxSlice_concat)
  then show "s = t" unfolding e l by (simp only: sum.inject)
qed simp

lemma commit_preimage_inj [simp]:
  "commit_preimage b s = commit_preimage c t \<longleftrightarrow> b = c \<and> s = t"
  by (auto simp: commit_preimage_def)

text \<open>
  Commitments are equal only for equal blocks, or on two inputs on which SHA-256 collides.
\<close>

definition sha_collides :: "byte list \<Rightarrow> byte list \<Rightarrow> bool" where
  "sha_collides x y \<longleftrightarrow> x \<noteq> y \<and> Sum256 x = Sum256 y"

lemma CommitmentFromTxs_eq_iff:
  "CommitmentFromTxs b s = CommitmentFromTxs c t \<longleftrightarrow>
     (b = c \<and> s = t) \<or> sha_collides (commit_preimage b s) (commit_preimage c t)"
proof (cases "commit_preimage b s = commit_preimage c t")
  case True
  then have "b = c \<and> s = t" by simp
  then show ?thesis by simp
next
  case False
  then have "\<not> (b = c \<and> s = t)" by simp
  then show ?thesis
    using False by (simp only: CommitmentFromTxs_preimage sha_collides_def simp_thms)
qed

end
