(* ===== verification/Go_Fmt.thy ===== *)
theory Go_Fmt imports Go_Float begin

text \<open>
  The number formatting the program uses from \<^verbatim>\<open>fmt\<close>, \<^verbatim>\<open>strconv\<close> and \<^verbatim>\<open>math/big\<close>: decimal integers,
  booleans, and fractions with a fixed number of digits.
\<close>

section \<open>Integers and booleans\<close>

definition dec_digit :: "nat \<Rightarrow> char" where
  "dec_digit n = ''0123456789'' ! n"

function dec_nat :: "nat \<Rightarrow> string" where
  "dec_nat n = (if n < 10 then [dec_digit n] else dec_nat (n div 10) @ [dec_digit (n mod 10)])"
  by pat_completeness auto
termination
  by (relation "measure id") auto

declare dec_nat.simps [simp del]

definition dec_int :: "int \<Rightarrow> string" where
  "dec_int i = (if i < 0 then CHR ''-'' # dec_nat (nat (- i)) else dec_nat (nat i))"

definition FormatBool :: "bool \<Rightarrow> string" where
  "FormatBool b = (if b then ''true'' else ''false'')"

text \<open>\<open>k\<close> digits with leading zeroes, for the part after the point.\<close>

fun dec_pad :: "nat \<Rightarrow> nat \<Rightarrow> string" where
  "dec_pad 0 n = []"
| "dec_pad (Suc k) n = dec_pad k (n div 10) @ [dec_digit (n mod 10)]"

text \<open>The number \<open>n / 10 ^ k\<close> with its \<open>k\<close> decimals.\<close>

definition fixed_point :: "nat \<Rightarrow> int \<Rightarrow> string" where
  "fixed_point k n =
     (if n < 0 then ''-'' else []) @ dec_nat (nat \<bar>n\<bar> div 10 ^ k)
       @ (if k = 0 then [] else CHR ''.'' # dec_pad k (nat \<bar>n\<bar> mod 10 ^ k))"

text \<open>\<^verbatim>\<open>%.3f\<close> rounds the exact value of the float half to even.\<close>

definition format_f3 :: "rat \<Rightarrow> string" where
  "format_f3 x = fixed_point 3 (round_half_even (x * 10 ^ 3))"

text \<open>\<^verbatim>\<open>big.Rat.FloatString(prec)\<close> rounds the magnitude, halves up, and keeps the sign.\<close>

definition FloatString :: "nat \<Rightarrow> rat \<Rightarrow> string" where
  "FloatString prec x = (if x < 0 then ''-'' else []) @ fixed_point prec \<lfloor>\<bar>x\<bar> * 10 ^ prec + 1 / 2\<rfloor>"

section \<open>Reading the digits back\<close>

definition digit_value :: "char \<Rightarrow> nat" where
  "digit_value c = of_char c - 48"

definition read_dec :: "string \<Rightarrow> nat" where
  "read_dec s = fold (\<lambda>c n. 10 * n + digit_value c) s 0"

lemma digit_value_dec_digit: "n < 10 \<Longrightarrow> digit_value (dec_digit n) = n"
proof -
  have "list_all (\<lambda>n. digit_value (dec_digit n) = n) [0..<10]"
    by (simp add: upt_rec dec_digit_def digit_value_def)
  then show "n < 10 \<Longrightarrow> digit_value (dec_digit n) = n" by (simp add: list_all_iff)
qed

lemma read_dec_snoc: "read_dec (s @ [c]) = 10 * read_dec s + digit_value c"
  by (simp add: read_dec_def)

lemma read_dec_nat [simp]: "read_dec (dec_nat n) = n"
proof (induction n rule: dec_nat.induct)
  case (1 n)
  show ?case
  proof (cases "n < 10")
    case True
    then show ?thesis
      by (simp add: dec_nat.simps [of n] read_dec_def digit_value_dec_digit)
  next
    case False
    then show ?thesis using "1.IH"
      by (simp add: dec_nat.simps [of n] read_dec_snoc digit_value_dec_digit)
  qed
qed

lemma dec_nat_inj [simp]: "dec_nat m = dec_nat n \<longleftrightarrow> m = n"
  by (metis read_dec_nat)

end
