(* ===== verification/Metrics.thy ===== *)
theory Metrics imports Go_Fmt begin

text \<open>
  \<^verbatim>\<open>internal/metrics/registry.go\<close>: the counters and gauges of a run.  Each method is one atomic
  operation on a 64-bit word, so counters wrap around; the two words of the latency average are
  updated one after the other.
\<close>

section \<open>State and operations\<close>

record Registry =
  m_ingressTx :: u64
  m_verifiedTx :: u64
  m_dropCount :: u64
  m_queueDepth :: i64
  m_finalizeLatency :: u64
  m_finalizeSamples :: u64

definition NewRegistry :: Registry where
  "NewRegistry = \<lparr> m_ingressTx = 0, m_verifiedTx = 0, m_dropCount = 0, m_queueDepth = 0,
                   m_finalizeLatency = 0, m_finalizeSamples = 0 \<rparr>"

definition AddIngressTx :: "u64 \<Rightarrow> Registry \<Rightarrow> Registry" where
  "AddIngressTx n r = r\<lparr> m_ingressTx := m_ingressTx r + n \<rparr>"

definition AddVerifiedTx :: "u64 \<Rightarrow> Registry \<Rightarrow> Registry" where
  "AddVerifiedTx n r = r\<lparr> m_verifiedTx := m_verifiedTx r + n \<rparr>"

definition IncDrop :: "u64 \<Rightarrow> Registry \<Rightarrow> Registry" where
  "IncDrop n r = r\<lparr> m_dropCount := m_dropCount r + n \<rparr>"

definition SetQueueDepth :: "i64 \<Rightarrow> Registry \<Rightarrow> Registry" where
  "SetQueueDepth depth r = r\<lparr> m_queueDepth := depth \<rparr>"

definition ObserveFinalizeLatencyMs :: "u64 \<Rightarrow> Registry \<Rightarrow> Registry" where
  "ObserveFinalizeLatencyMs ms r =
     r\<lparr> m_finalizeLatency := m_finalizeLatency r + ms, m_finalizeSamples := m_finalizeSamples r + 1 \<rparr>"

definition IngressTx :: "Registry \<Rightarrow> u64" where
  "IngressTx r = m_ingressTx r"

definition VerifiedTx :: "Registry \<Rightarrow> u64" where
  "VerifiedTx r = m_verifiedTx r"

definition DropCount :: "Registry \<Rightarrow> u64" where
  "DropCount r = m_dropCount r"

definition QueueDepth :: "Registry \<Rightarrow> i64" where
  "QueueDepth r = m_queueDepth r"

definition AverageFinalizeLatencyMs :: "Registry \<Rightarrow> rat" where
  "AverageFinalizeLatencyMs r =
     (let samples = m_finalizeSamples r in
      if samples = 0 then 0
      else f64_div (f64_of_int (uint (m_finalizeLatency r))) (f64_of_int (uint samples)))"

text \<open>The page \<^verbatim>\<open>/metrics\<close> serves.\<close>

definition newline :: string where
  "newline = [CHR 0x0A]"

definition PrometheusHandler :: "Registry \<Rightarrow> string" where
  "PrometheusHandler r = concat (map (\<lambda>l. l @ newline)
     [''# TYPE cert_l2_ingress_tps counter'',
      ''cert_l2_ingress_tps '' @ dec_nat (unat (IngressTx r)),
      ''# TYPE cert_l1_verified_tps counter'',
      ''cert_l1_verified_tps '' @ dec_nat (unat (VerifiedTx r)),
      ''# TYPE cert_queue_depth gauge'',
      ''cert_queue_depth '' @ dec_int (sint (QueueDepth r)),
      ''# TYPE cert_drop_count counter'',
      ''cert_drop_count '' @ dec_nat (unat (DropCount r)),
      ''# TYPE cert_finalize_latency_ms gauge'',
      ''cert_finalize_latency_ms '' @ format_f3 (AverageFinalizeLatencyMs r)])"

section \<open>Field effects\<close>

lemmas metrics_defs = AddIngressTx_def AddVerifiedTx_def IncDrop_def SetQueueDepth_def
  ObserveFinalizeLatencyMs_def IngressTx_def VerifiedTx_def DropCount_def QueueDepth_def

lemma metrics_frame [simp]:
  "m_verifiedTx (AddIngressTx n r) = m_verifiedTx r"
  "m_dropCount (AddIngressTx n r) = m_dropCount r"
  "m_ingressTx (AddIngressTx n r) = m_ingressTx r + n"
  "m_verifiedTx (AddVerifiedTx n r) = m_verifiedTx r + n"
  "m_dropCount (AddVerifiedTx n r) = m_dropCount r"
  "m_ingressTx (AddVerifiedTx n r) = m_ingressTx r"
  "m_verifiedTx (IncDrop n r) = m_verifiedTx r"
  "m_dropCount (IncDrop n r) = m_dropCount r + n"
  "m_ingressTx (IncDrop n r) = m_ingressTx r"
  "m_verifiedTx (SetQueueDepth d r) = m_verifiedTx r"
  "m_dropCount (SetQueueDepth d r) = m_dropCount r"
  "m_ingressTx (SetQueueDepth d r) = m_ingressTx r"
  "m_verifiedTx (ObserveFinalizeLatencyMs ms r) = m_verifiedTx r"
  "m_dropCount (ObserveFinalizeLatencyMs ms r) = m_dropCount r"
  "m_ingressTx (ObserveFinalizeLatencyMs ms r) = m_ingressTx r"
  by (simp_all add: metrics_defs)

lemma metrics_new [simp]:
  "m_verifiedTx NewRegistry = 0" "m_dropCount NewRegistry = 0" "m_ingressTx NewRegistry = 0"
  by (simp_all add: NewRegistry_def)

text \<open>
  The reported average lies between the least and the greatest latency observed, as long as the
  total fits its counter and the floats are exact.
\<close>

lemma Average_bounds:
  assumes "0 < uint (m_finalizeSamples r)" "uint (m_finalizeSamples r) \<le> 2 ^ 53"
    and "uint (m_finalizeLatency r) < 2 ^ 53" "0 \<le> lo" "lo \<le> 2 ^ 53"
    and "lo * uint (m_finalizeSamples r) \<le> uint (m_finalizeLatency r)"
  shows "of_int lo \<le> AverageFinalizeLatencyMs r"
proof -
  have "m_finalizeSamples r \<noteq> 0" using assms(1) by auto
  then show ?thesis
    using f64_div_ge_iff [of "uint (m_finalizeLatency r)" "uint (m_finalizeSamples r)" lo] assms
    by (simp add: AverageFinalizeLatencyMs_def Let_def f64_of_int_exact)
qed

end
