(* ===== verification/Proof_Book.thy ===== *)
theory Proof_Book imports Pipeline_Types Metrics begin

text \<open>
  \<^verbatim>\<open>internal/pipeline/proof.go\<close>: the deterministic certification proofs, the book that caches them or
  holds those loaded from a data set, and the data set's line format.  A Go string is its bytes.
\<close>

section \<open>Proofs\<close>

definition string_bytes :: "string \<Rightarrow> byte list" where
  "string_bytes s = map of_char s"

definition GenerateProofBytes :: "string \<Rightarrow> u32 \<Rightarrow> byte list" where
  "GenerateProofBytes seed blockIndex =
     (let seedHash = Sum256 (string_bytes seed);
          payload = replicate (4 + length seedHash) 0;
          payload = copy_into 0 4 (put_u32 blockIndex) payload;
          payload = copy_into 4 (length payload) seedHash payload;
          sum = Sum256 payload
      in copy_into 0 (length sum) sum (replicate (length sum) 0))"

definition BuildProofRecord :: "u32 \<Rightarrow> hash \<Rightarrow> byte list \<Rightarrow> ProofRecordV1" where
  "BuildProofRecord blockIndex commitment proofBytes =
     (let dup = copy_into 0 (length proofBytes) proofBytes (replicate (length proofBytes) 0)
      in \<lparr> pr_BlockIndex = blockIndex, pr_CommitmentHash = commitment, pr_ProofBytes = dup \<rparr>)"

lemma GenerateProofBytes_hash:
  "GenerateProofBytes seed b = Sum256 (put_u32 b @ Sum256 (string_bytes seed))"
  by (simp add: GenerateProofBytes_def copy_into_def Let_def)

lemma length_GenerateProofBytes [simp]: "length (GenerateProofBytes seed b) = 32"
  by (simp add: GenerateProofBytes_hash)

lemma BuildProofRecord_fields [simp]:
  "pr_BlockIndex (BuildProofRecord b c p) = b"
  "pr_CommitmentHash (BuildProofRecord b c p) = c"
  "pr_ProofBytes (BuildProofRecord b c p) = p"
  by (simp_all add: BuildProofRecord_def copy_into_def Let_def)

section \<open>The book\<close>

record proofLine =
  pl_BlockIndex :: u32
  pl_ProofHex :: string

record ProofBook =
  pb_seed :: string
  pb_proof :: "(u32, byte list) go_map"

definition NewProofBook :: "string \<Rightarrow> ProofBook" where
  "NewProofBook seed = \<lparr> pb_seed = seed, pb_proof = [] \<rparr>"

definition EnsureBlock :: "u32 \<Rightarrow> ProofBook \<Rightarrow> byte list \<times> ProofBook" where
  "EnsureBlock blockIndex b =
     (case map_of (pb_proof b) blockIndex of
        Some p \<Rightarrow> (p, b)
      | None \<Rightarrow> let p = GenerateProofBytes (pb_seed b) blockIndex
                in (p, b\<lparr> pb_proof := AList.update blockIndex p (pb_proof b) \<rparr>))"

definition ProofForBlock :: "u32 \<Rightarrow> ProofBook \<Rightarrow> byte list \<times> ProofBook" where
  "ProofForBlock blockIndex b = EnsureBlock blockIndex b"

text \<open>What the book answers for a block, now and later.\<close>

definition book_view :: "ProofBook \<Rightarrow> u32 \<Rightarrow> byte list" where
  "book_view b i = (case map_of (pb_proof b) i of Some p \<Rightarrow> p | None \<Rightarrow> GenerateProofBytes (pb_seed b) i)"

lemma EnsureBlock_fst: "fst (EnsureBlock i b) = book_view b i"
  by (simp add: EnsureBlock_def book_view_def Let_def split: option.split)

lemma EnsureBlock_view [simp]: "book_view (snd (EnsureBlock i b)) = book_view b"
  by (auto simp: EnsureBlock_def book_view_def Let_def fun_eq_iff split: option.split)

lemma EnsureBlock_seed [simp]: "pb_seed (snd (EnsureBlock i b)) = pb_seed b"
  by (auto simp: EnsureBlock_def Let_def split: option.split)

lemma EnsureBlock_ok: "go_map_ok (pb_proof b) \<Longrightarrow> go_map_ok (pb_proof (snd (EnsureBlock i b)))"
  by (auto simp: EnsureBlock_def Let_def split: option.split)

lemma book_view_new [simp]: "book_view (NewProofBook seed) = GenerateProofBytes seed"
  by (simp add: book_view_def NewProofBook_def fun_eq_iff)

section \<open>The data set on disk\<close>

datatype proof_error =
    CreateProofDir string
  | CreateProofFile string
  | WriteProofFile string
  | OpenProofFile string
  | ParseProofLine string
  | DecodeProofHex hex_error
  | ScanProofFile

text \<open>
  The encoder's rendering of one line.  The strings in it are hex digits, which JSON does not
  escape; \<^verbatim>\<open>Encoder.Encode\<close> ends each value with a newline.
\<close>

definition json_proofLine :: "proofLine \<Rightarrow> string" where
  "json_proofLine l = ''{\"block_index\":'' @ dec_nat (unat (pl_BlockIndex l)) @
     '',\"proof_hex\":\"'' @ pl_ProofHex l @ ''\"}''"

fun save_lines :: "nat \<Rightarrow> nat \<Rightarrow> ProofBook \<Rightarrow> string \<times> ProofBook" where
  "save_lines i 0 b = ([], b)"
| "save_lines i (Suc n) b =
     (let bi = of_nat i :: u32;
          (p, b') = EnsureBlock bi b;
          line = \<lparr> pl_BlockIndex = bi, pl_ProofHex = EncodeToString p \<rparr>;
          (rest, b'') = save_lines (Suc i) n b'
      in (json_proofLine line @ newline @ rest, b''))"

text \<open>
  \<^verbatim>\<open>SaveJSONL\<close> returns its error, the bytes written and the book.  The file system is a parameter:
  each of its calls returns an error or nothing.  A write error surfaces in the encoder or in
  the final flush, depending on the buffer; the model does not tell these two apart.
\<close>

definition SaveJSONL ::
    "(string \<Rightarrow> string option) \<Rightarrow> (string \<Rightarrow> string option) \<Rightarrow> (string \<Rightarrow> string option)
     \<Rightarrow> string \<Rightarrow> int \<Rightarrow> ProofBook \<Rightarrow> proof_error option \<times> string \<times> ProofBook" where
  "SaveJSONL MkdirAll Create Write path blocks b =
     (case MkdirAll path of Some e \<Rightarrow> (Some (CreateProofDir e), [], b)
      | None \<Rightarrow> (case Create path of Some e \<Rightarrow> (Some (CreateProofFile e), [], b)
      | None \<Rightarrow> (let (content, b') = save_lines 0 (nat blocks) b in
          case Write content of Some e \<Rightarrow> (Some (WriteProofFile e), [], b')
          | None \<Rightarrow> (None, content, b'))))"

text \<open>
  \<^verbatim>\<open>bufio.Scanner\<close> with its default split: lines end at a newline, the last one may lack it, one
  carriage return is dropped, and a line that fills the buffer of 65536 bytes ends the scan with
  an error.  The result is the lines up to there and whether the scan failed.
\<close>

definition MaxScanTokenSize :: nat where
  "MaxScanTokenSize = 65536"

definition drop_CR :: "string \<Rightarrow> string" where
  "drop_CR s = (if s \<noteq> [] \<and> last s = CHR 0x0D then butlast s else s)"

function scan_lines :: "string \<Rightarrow> string list \<times> bool" where
  "scan_lines s =
     (if s = [] then ([], False)
      else let line = takeWhile (\<lambda>c. c \<noteq> CHR 0x0A) s;
               rest = drop (Suc (length line)) s
           in if MaxScanTokenSize \<le> length line then ([], True)
              else let (ls, failed) = scan_lines rest in (drop_CR line # ls, failed))"
  by pat_completeness auto
termination
  by (relation "measure length") auto

declare scan_lines.simps [simp del]

text \<open>The loop over the lines: the book keeps what was loaded before an error.\<close>

fun load_lines ::
    "(string \<Rightarrow> string + proofLine) \<Rightarrow> string list \<Rightarrow> ProofBook \<Rightarrow> proof_error option \<times> ProofBook" where
  "load_lines Unmarshal [] b = (None, b)"
| "load_lines Unmarshal (s # ss) b =
     (case Unmarshal s of
        Inl e \<Rightarrow> (Some (ParseProofLine e), b)
      | Inr line \<Rightarrow> (case DecodeString (pl_ProofHex line) of
            Inl e \<Rightarrow> (Some (DecodeProofHex e), b)
          | Inr proofBytes \<Rightarrow> load_lines Unmarshal ss
              (b\<lparr> pb_proof := AList.update (pl_BlockIndex line) proofBytes (pb_proof b) \<rparr>)))"

definition LoadJSONL ::
    "(string \<Rightarrow> string + string) \<Rightarrow> (string \<Rightarrow> string + proofLine)
     \<Rightarrow> string \<Rightarrow> ProofBook \<Rightarrow> proof_error option \<times> ProofBook" where
  "LoadJSONL Open Unmarshal path b =
     (case Open path of
        Inl e \<Rightarrow> (Some (OpenProofFile e), b)
      | Inr content \<Rightarrow>
          (let (ls, failed) = scan_lines content; (e, b') = load_lines Unmarshal ls b
           in case e of Some x \<Rightarrow> (Some x, b')
              | None \<Rightarrow> (if failed then Some ScanProofFile else None, b')))"

section \<open>Lines survive the file\<close>

text \<open>
  A line format: what a writer puts on a line and a reader makes of it.  The laws are the ones
  the data set rests on; the lemma says that a file of such lines is read back line by line.
\<close>

locale line_codec =
  fixes enc :: "'a \<Rightarrow> string" and dec :: "string \<Rightarrow> 'e + 'a" and good :: "'a \<Rightarrow> bool"
  assumes dec_enc: "good x \<Longrightarrow> dec (enc x) = Inr x"
    and no_newline: "good x \<Longrightarrow> CHR 0x0A \<notin> set (enc x)"
    and no_CR: "good x \<Longrightarrow> drop_CR (enc x) = enc x"
    and fits: "good x \<Longrightarrow> length (enc x) < MaxScanTokenSize"
begin

lemma scan_file:
  "list_all good xs \<Longrightarrow> scan_lines (concat (map (\<lambda>x. enc x @ newline) xs)) = (map enc xs, False)"
proof (induction xs)
  case Nil
  then show ?case by (simp add: scan_lines.simps)
next
  case (Cons x xs)
  let ?rest = "concat (map (\<lambda>x. enc x @ newline) xs)"
  have x: "good x" "list_all good xs" using Cons.prems by simp_all
  have tw: "takeWhile (\<lambda>c. c \<noteq> CHR 0x0A) (enc x @ CHR 0x0A # ?rest) = enc x"
    using no_newline [OF x(1)] by (auto intro: takeWhile_eq_all_conv [THEN iffD2] simp: takeWhile_append)
  have "scan_lines (enc x @ CHR 0x0A # ?rest) = (enc x # map enc xs, False)"
    using Cons.IH x fits [OF x(1)] no_CR [OF x(1)]
    by (subst scan_lines.simps) (simp add: tw Let_def)
  then show ?case by (simp add: newline_def)
qed

lemma dec_file: "list_all good xs \<Longrightarrow> map dec (map enc xs) = map Inr xs"
  by (induction xs) (simp_all add: dec_enc)

end

text \<open>
  The format of the data set satisfies the laws with a reader that takes the digits up to the
  comma and the text between the last quotes.
\<close>

definition read_proofLine :: "string \<Rightarrow> string + proofLine" where
  "read_proofLine s =
     (let s1 = drop 15 s; ds = takeWhile (\<lambda>c. c \<noteq> CHR '','') s1;
          s2 = drop (length ds + 14) s1
      in Inr \<lparr> pl_BlockIndex = of_nat (read_dec ds), pl_ProofHex = takeWhile (\<lambda>c. c \<noteq> CHR 0x22) s2 \<rparr>)"

definition dataset_line :: "proofLine \<Rightarrow> bool" where
  "dataset_line l \<longleftrightarrow> (\<exists>p. length p = 32 \<and> pl_ProofHex l = EncodeToString p)"

lemma dec_digit_chars: "n < 10 \<Longrightarrow> dec_digit n \<in> set ''0123456789''"
  unfolding dec_digit_def by (rule nth_mem) simp

lemma set_dec_nat: "set (dec_nat n) \<subseteq> set ''0123456789''"
proof (induction n rule: dec_nat.induct)
  case (1 n)
  then show ?case
    using dec_digit_chars [of n] dec_digit_chars [of "n mod 10"] by (subst dec_nat.simps) auto
qed

lemma hex_digit_chars: "unat n < 16 \<Longrightarrow> hex_digit n \<in> set ''0123456789abcdef''"
  unfolding hex_digit_def by (rule nth_mem) simp

lemma set_EncodeToString: "set (EncodeToString bs) \<subseteq> set ''0123456789abcdef''"
proof (induction bs)
  case (Cons b bs)
  then show ?case
    using hex_digit_chars [OF unat_nibbles(1) [of b]] hex_digit_chars [OF unat_nibbles(2) [of b]] by simp
qed simp

lemma takeWhile_stop: "c \<notin> set xs \<Longrightarrow> takeWhile (\<lambda>x. x \<noteq> c) (xs @ c # ys) = xs"
  by (induction xs) auto

lemma length_dec_nat: "n < 10 ^ Suc k \<Longrightarrow> length (dec_nat n) \<le> Suc k"
proof (induction k arbitrary: n)
  case 0
  then show ?case by (simp add: dec_nat.simps)
next
  case (Suc k)
  then have "n div 10 < 10 ^ Suc k" by (simp add: div_less_iff_less_mult mult.commute)
  then have "length (dec_nat (n div 10)) \<le> Suc k" by (rule Suc.IH)
  then show ?case by (subst dec_nat.simps) auto
qed

definition book_line :: "(u32 \<Rightarrow> byte list) \<Rightarrow> nat \<Rightarrow> proofLine" where
  "book_line f k = \<lparr> pl_BlockIndex = of_nat k, pl_ProofHex = EncodeToString (f (of_nat k)) \<rparr>"

lemma book_line_fields [simp]:
  "pl_BlockIndex (book_line f k) = of_nat k" "pl_ProofHex (book_line f k) = EncodeToString (f (of_nat k))"
  by (simp_all add: book_line_def)

lemma read_json_line:
  assumes "dataset_line l" shows "read_proofLine (json_proofLine l) = Inr l"
proof -
  obtain p where p: "pl_ProofHex l = EncodeToString p" using assms by (auto simp: dataset_line_def)
  have c: "CHR '','' \<notin> set (dec_nat n)" for n using set_dec_nat [of n] by auto
  have q: "CHR 0x22 \<notin> set (EncodeToString p)" using set_EncodeToString [of p] by auto
  have "read_proofLine (json_proofLine l)
      = Inr \<lparr> pl_BlockIndex = of_nat (unat (pl_BlockIndex l)), pl_ProofHex = EncodeToString p \<rparr>"
    using takeWhile_stop [OF c] takeWhile_stop [OF q]
    by (simp add: read_proofLine_def json_proofLine_def p Let_def)
  then show ?thesis using p by (cases l) simp
qed

lemma json_line_chars:
  assumes "dataset_line l" shows "CHR 0x0A \<notin> set (json_proofLine l)" "last (json_proofLine l) = CHR ''}''"
    "length (json_proofLine l) < MaxScanTokenSize"
proof -
  obtain p where p: "pl_ProofHex l = EncodeToString p" "length p = 32"
    using assms by (auto simp: dataset_line_def)
  show "CHR 0x0A \<notin> set (json_proofLine l)"
    using set_dec_nat [of "unat (pl_BlockIndex l)"] set_EncodeToString [of p]
    by (auto simp: json_proofLine_def p)
  show "last (json_proofLine l) = CHR ''}''" by (simp add: json_proofLine_def)
  have "unat (pl_BlockIndex l) < 10 ^ Suc 9"
    using unsigned_less [of "pl_BlockIndex l", where 'a = nat] by simp
  then have "length (dec_nat (unat (pl_BlockIndex l))) \<le> 10" using length_dec_nat by fastforce
  then show "length (json_proofLine l) < MaxScanTokenSize"
    by (simp add: json_proofLine_def p MaxScanTokenSize_def)
qed

interpretation proof_dataset: line_codec json_proofLine read_proofLine dataset_line
proof unfold_locales
  fix l assume l: "dataset_line l"
  show "read_proofLine (json_proofLine l) = Inr l" using l by (rule read_json_line)
  show "CHR 0x0A \<notin> set (json_proofLine l)" using l by (rule json_line_chars)
  show "drop_CR (json_proofLine l) = json_proofLine l" using json_line_chars(2) [OF l] by (simp add: drop_CR_def)
  show "length (json_proofLine l) < MaxScanTokenSize" using l by (rule json_line_chars)
qed

text \<open>Writing the book, line by line, and reading such lines into another one.\<close>

lemma save_lines_book:
  "fst (save_lines i n b) =
     concat (map (\<lambda>l. json_proofLine l @ newline) (map (book_line (book_view b)) [i..<i + n]))"
proof (induction n arbitrary: i b)
  case 0
  then show ?case by simp
next
  case (Suc n)
  obtain b' where e: "EnsureBlock (of_nat i) b = (book_view b (of_nat i), b')" "book_view b' = book_view b"
    by (metis EnsureBlock_fst EnsureBlock_view prod.collapse)
  have "fst (save_lines i (Suc n) b)
      = json_proofLine (book_line (book_view b) i) @ newline @ fst (save_lines (Suc i) n b')"
    by (simp add: e Let_def book_line_def split: prod.split)
  moreover have "[i..<i + Suc n] = i # [Suc i..<Suc i + n]" by (simp add: upt_conv_Cons del: upt_Suc)
  ultimately show ?case by (simp add: Suc.IH e(2) del: upt_Suc)
qed

lemma load_lines_book:
  assumes "\<And>l. dataset_line l \<Longrightarrow> Unmarshal (json_proofLine l) = Inr l" "\<And>i. length (f i) = 32"
  shows "\<exists>b'. load_lines Unmarshal (map (\<lambda>k. json_proofLine (book_line f k)) ks) b = (None, b')
      \<and> book_view b' = (\<lambda>j. if j \<in> of_nat ` set ks then f j else book_view b j)"
proof (induction ks arbitrary: b)
  case Nil
  then show ?case by simp
next
  case (Cons k ks)
  let ?b = "b\<lparr> pb_proof := AList.update (of_nat k) (f (of_nat k)) (pb_proof b) \<rparr>"
  have "dataset_line (book_line f k)" using assms(2) by (auto simp: dataset_line_def)
  then have U: "Unmarshal (json_proofLine (book_line f k)) = Inr (book_line f k)" by (rule assms(1))
  obtain b' where b': "load_lines Unmarshal (map (\<lambda>k. json_proofLine (book_line f k)) ks) ?b = (None, b')"
    "book_view b' = (\<lambda>j. if j \<in> of_nat ` set ks then f j else book_view ?b j)"
    using Cons.IH by blast
  have "book_view ?b = (book_view b)(of_nat k := f (of_nat k))"
    by (simp add: book_view_def fun_eq_iff split: option.split)
  then show ?case using b' U by (auto simp: fun_eq_iff)
qed

text \<open>C31. The proof data set survives the disk: what \<^verbatim>\<open>SaveJSONL\<close> writes for the first \<open>blocks\<close> blocks of a seed,
  \<^verbatim>\<open>LoadJSONL\<close> reads without an error, and the loading book then answers the saved proofs for these blocks
  (whatever its own seed) and what it answered before for all others.\<close>

theorem proof_dataset_roundtrip:
  assumes "\<And>l. dataset_line l \<Longrightarrow> Unmarshal (json_proofLine l) = Inr l"
    and "MkdirAll path = None" "Create path = None" "\<And>s. Write s = None"
    and "0 \<le> blocks" "blocks \<le> 2 ^ 32"
  shows "\<exists>content b1 b2. SaveJSONL MkdirAll Create Write path blocks (NewProofBook seed) = (None, content, b1)
      \<and> LoadJSONL (\<lambda>_. Inr content) Unmarshal path b0 = (None, b2)
      \<and> (\<forall>i. book_view b2 i =
            (if int (unat i) < blocks then GenerateProofBytes seed i else book_view b0 i))"
proof -
  let ?f = "GenerateProofBytes seed" and ?ks = "[0..<nat blocks]"
  let ?c = "fst (save_lines 0 (nat blocks) (NewProofBook seed))"
  have good: "list_all dataset_line (map (book_line ?f) ?ks)"
    by (auto simp: list_all_iff dataset_line_def intro!: exI [of _ "?f _"])
  have scan: "scan_lines ?c = (map (\<lambda>k. json_proofLine (book_line ?f k)) ?ks, False)"
    using proof_dataset.scan_file [OF good] by (simp add: save_lines_book comp_def)
  obtain b2 where b2: "load_lines Unmarshal (map (\<lambda>k. json_proofLine (book_line ?f k)) ?ks) b0 = (None, b2)"
    "book_view b2 = (\<lambda>j. if j \<in> of_nat ` set ?ks then ?f j else book_view b0 j)"
    using load_lines_book [of Unmarshal ?f ?ks b0] assms(1) by auto
  have mem: "i \<in> of_nat ` set ?ks \<longleftrightarrow> int (unat i) < blocks" for i :: u32
  proof
    assume "i \<in> of_nat ` set ?ks"
    then obtain k where "i = of_nat k" "k < nat blocks" by auto
    then show "int (unat i) < blocks" using assms(5,6) by (simp add: unat_u32_small)
  next
    assume "int (unat i) < blocks"
    then have "unat i < nat blocks" by linarith
    then show "i \<in> of_nat ` set ?ks" by (intro image_eqI [of _ _ "unat i"]) auto
  qed
  have "SaveJSONL MkdirAll Create Write path blocks (NewProofBook seed)
      = (None, ?c, snd (save_lines 0 (nat blocks) (NewProofBook seed)))"
    using assms(2-4) by (simp add: SaveJSONL_def split: prod.split)
  moreover have "LoadJSONL (\<lambda>_. Inr ?c) Unmarshal path b0 = (None, b2)"
    using scan b2(1) by (simp add: LoadJSONL_def)
  moreover have "book_view b2 i = (if int (unat i) < blocks then ?f i else book_view b0 i)" for i
    unfolding b2(2) mem ..
  ultimately show ?thesis by blast
qed

theorem proof_dataset_roundtrip_witness:
  "\<exists>content b1 b2. SaveJSONL (\<lambda>_. None) (\<lambda>_. None) (\<lambda>_. None) ''p'' 4 (NewProofBook ''seed'') = (None, content, b1)
      \<and> LoadJSONL (\<lambda>_. Inr content) read_proofLine ''p'' (NewProofBook ''other'') = (None, b2)
      \<and> book_view b2 3 = GenerateProofBytes ''seed'' 3 \<and> book_view b2 4 = GenerateProofBytes ''other'' 4"
proof -
  obtain content b1 b2 where r:
    "SaveJSONL (\<lambda>_. None) (\<lambda>_. None) (\<lambda>_. None) ''p'' 4 (NewProofBook ''seed'') = (None, content, b1)"
    "LoadJSONL (\<lambda>_. Inr content) read_proofLine ''p'' (NewProofBook ''other'') = (None, b2)"
    "\<forall>i. book_view b2 i = (if int (unat i) < 4 then GenerateProofBytes ''seed'' i
        else book_view (NewProofBook ''other'') i)"
    using proof_dataset_roundtrip [of read_proofLine "\<lambda>_. None" "''p''" "\<lambda>_. None" "\<lambda>_. None" 4
        "''seed''" "NewProofBook ''other''"] read_json_line by auto
  then show ?thesis by auto
qed

end
