(* ===== verification/L1_Node.thy ===== *)
theory L1_Node imports Proof_Book begin

text \<open>
  \<^verbatim>\<open>internal/pipeline/l1.go\<close>: the L1 certification node.  It checks the proof and the payload of each
  submitted block, applies the transfers of an accepted block in one batch, and logs every
  submission.  The mutex makes each method one atomic step; the clock is an argument.
\<close>

section \<open>State\<close>

record acceptedBlock =
  ab_Commitment :: hash
  ab_TxCount :: u32
  ab_StateVer :: u64
  ab_DeltaCount :: int

text \<open>
  The metrics registry is shared with the node's owner; it is kept in the node's state, where the
  node's own updates happen.
\<close>

record L1CertNode =
  l1_proofSeed :: string
  l1_metrics :: Registry
  l1_blocks :: "(u32, acceptedBlock) go_map"
  l1_blockLog :: "BlockLog list"
  l1_state :: "(u32, i64) go_map"
  l1_stateVersion :: u64

definition NewL1CertNode :: "string \<Rightarrow> Registry \<Rightarrow> L1CertNode" where
  "NewL1CertNode proofSeed m =
     \<lparr> l1_proofSeed = proofSeed, l1_metrics = m, l1_blocks = [], l1_blockLog = [], l1_state = [],
       l1_stateVersion = 0 \<rparr>"

section \<open>Applying transfers\<close>

text \<open>
  The loop of \<^verbatim>\<open>applyTxs\<close>: sender first, then receiver, which may be the same account; \<open>changed\<close> is
  the set of touched accounts, of which only the size is used.
\<close>

fun apply_loop :: "Tx12 list \<Rightarrow> (u32, i64) go_map \<Rightarrow> u32 list \<Rightarrow> (u32, i64) go_map \<times> u32 list" where
  "apply_loop [] st changed = (st, changed)"
| "apply_loop (tx # txs) st changed =
     (let amount = ucast (Amount tx) :: i64;
          st = AList.update (SenderIndex tx) (map_get 0 st (SenderIndex tx) - amount) st;
          st = AList.update (ReceiverIndex tx) (map_get 0 st (ReceiverIndex tx) + amount) st;
          changed = List.insert (SenderIndex tx) changed;
          changed = List.insert (ReceiverIndex tx) changed
      in apply_loop txs st changed)"

definition applyTxs :: "Tx12 list \<Rightarrow> L1CertNode \<Rightarrow> int \<times> L1CertNode" where
  "applyTxs txs n =
     (if length txs = 0 then (0, n)
      else let (st, changed) = apply_loop txs (l1_state n) []
           in (int (length changed), n\<lparr> l1_state := st \<rparr>))"

section \<open>Submission\<close>

definition latency_ms :: "time \<Rightarrow> time \<Rightarrow> u64" where
  "latency_ms now created = of_int (Milliseconds (time_sub now created))"

definition proof_ok :: "string \<Rightarrow> SubmitRequest \<Rightarrow> bool" where
  "proof_ok seed req \<longleftrightarrow>
     (let proofOK = (pr_ProofBytes (rq_Proof req) = GenerateProofBytes seed (rq_BlockIndex req));
          proofOK = (if pr_BlockIndex (rq_Proof req) \<noteq> rq_BlockIndex req then False else proofOK)
      in if pr_CommitmentHash (rq_Proof req) \<noteq> rq_CommitmentHash req then False else proofOK)"

definition payload_ok :: "SubmitRequest \<Rightarrow> bool" where
  "payload_ok req \<longleftrightarrow>
     (let payloadOK = True;
          payloadOK = (if rq_TxCount req \<noteq> of_nat (length (rq_Txs req)) then False else payloadOK);
          payloadOK = (if \<exists>tx \<in> set (rq_Txs req). Amount tx = 0 then False else payloadOK)
      in if CommitmentFromTxs (rq_BlockIndex req) (rq_Txs req) \<noteq> rq_CommitmentHash req then False
         else payloadOK)"

definition append_log :: "BlockLog \<Rightarrow> L1CertNode \<Rightarrow> L1CertNode" where
  "append_log entry n = n\<lparr> l1_blockLog := l1_blockLog n @ [entry] \<rparr>"

text \<open>
  The three ways a block that is not a duplicate of the same content is turned down: the entry and
  the response differ only in the flags and texts.
\<close>

definition reject_entry :: "SubmitRequest \<Rightarrow> L1CertNode \<Rightarrow> u64 \<Rightarrow> bool \<Rightarrow> string \<Rightarrow> BlockLog" where
  "reject_entry req n latencyMs proofOK err =
     \<lparr> bl_Phase = rq_Phase req, bl_BlockIndex = rq_BlockIndex req, bl_TxCount = rq_TxCount req,
       bl_ProofVerified = proofOK, bl_Finalized = False, bl_Duplicate = False, bl_StateApplied = False,
       bl_StateVersion = l1_stateVersion n, bl_DeltaCount = int (length (rq_Txs req)), bl_Error = err,
       bl_FinalizeMs = f64_of_int (uint latencyMs),
       bl_CommitmentHash = EncodeToString (rq_CommitmentHash req) \<rparr>"

definition SubmitCertifiedBlock :: "time \<Rightarrow> SubmitRequest \<Rightarrow> L1CertNode \<Rightarrow> SubmitResponse \<times> L1CertNode" where
  "SubmitCertifiedBlock now req n =
     (let latencyMs = latency_ms now (rq_CreatedAt req);
          proofOK = proof_ok (l1_proofSeed n) req;
          payloadOK = payload_ok req
      in case map_of (l1_blocks n) (rq_BlockIndex req) of
        Some existing \<Rightarrow>
          if ab_Commitment existing = rq_CommitmentHash req \<and> ab_TxCount existing = rq_TxCount req
          then (\<lparr> rs_Accepted = (proofOK \<and> payloadOK), rs_Duplicate = True, rs_ProofOK = proofOK,
                  rs_Finalized = (proofOK \<and> payloadOK), rs_Reason = ''duplicate submission'',
                  rs_LatencyMs = latencyMs, rs_BlockIndex = rq_BlockIndex req \<rparr>,
                append_log
                  \<lparr> bl_Phase = rq_Phase req, bl_BlockIndex = rq_BlockIndex req, bl_TxCount = rq_TxCount req,
                    bl_ProofVerified = proofOK, bl_Finalized = proofOK, bl_Duplicate = True,
                    bl_StateApplied = False, bl_StateVersion = ab_StateVer existing,
                    bl_DeltaCount = ab_DeltaCount existing, bl_Error = [],
                    bl_FinalizeMs = f64_of_int (uint latencyMs),
                    bl_CommitmentHash = EncodeToString (rq_CommitmentHash req) \<rparr> n)
          else (\<lparr> rs_Accepted = False, rs_Duplicate = True, rs_ProofOK = False, rs_Finalized = False,
                  rs_Reason = ''duplicate block index with different commitment'',
                  rs_LatencyMs = latencyMs, rs_BlockIndex = rq_BlockIndex req \<rparr>,
                append_log (reject_entry req n latencyMs False
                  ''duplicate block index with different commitment'') n)
      | None \<Rightarrow>
          if \<not> payloadOK
          then (\<lparr> rs_Accepted = False, rs_Duplicate = False, rs_ProofOK = proofOK, rs_Finalized = False,
                  rs_Reason = ''payload validation failed'',
                  rs_LatencyMs = latencyMs, rs_BlockIndex = rq_BlockIndex req \<rparr>,
                append_log (reject_entry req n latencyMs proofOK
                  ''payload validation failed or commitment mismatch'') n)
          else if \<not> proofOK
          then (\<lparr> rs_Accepted = False, rs_Duplicate = False, rs_ProofOK = False, rs_Finalized = False,
                  rs_Reason = ''proof verification failed'',
                  rs_LatencyMs = latencyMs, rs_BlockIndex = rq_BlockIndex req \<rparr>,
                append_log (reject_entry req n latencyMs False ''proof verification failed'') n)
          else
            let (deltaCount, n) = applyTxs (rq_Txs req) n;
                n = n\<lparr> l1_stateVersion := l1_stateVersion n + 1 \<rparr>;
                n = n\<lparr> l1_blocks := AList.update (rq_BlockIndex req)
                         \<lparr> ab_Commitment = rq_CommitmentHash req, ab_TxCount = rq_TxCount req,
                           ab_StateVer = l1_stateVersion n, ab_DeltaCount = deltaCount \<rparr> (l1_blocks n) \<rparr>;
                n = n\<lparr> l1_metrics := AddVerifiedTx (ucast (rq_TxCount req)) (l1_metrics n) \<rparr>;
                n = n\<lparr> l1_metrics := ObserveFinalizeLatencyMs latencyMs (l1_metrics n) \<rparr>
            in (\<lparr> rs_Accepted = True, rs_Duplicate = False, rs_ProofOK = True, rs_Finalized = True,
                  rs_Reason = ''ok'', rs_LatencyMs = latencyMs, rs_BlockIndex = rq_BlockIndex req \<rparr>,
                append_log
                  \<lparr> bl_Phase = rq_Phase req, bl_BlockIndex = rq_BlockIndex req, bl_TxCount = rq_TxCount req,
                    bl_ProofVerified = True, bl_Finalized = True, bl_Duplicate = False,
                    bl_StateApplied = True, bl_StateVersion = l1_stateVersion n,
                    bl_DeltaCount = deltaCount, bl_Error = [],
                    bl_FinalizeMs = f64_of_int (uint latencyMs),
                    bl_CommitmentHash = EncodeToString (rq_CommitmentHash req) \<rparr> n))"

section \<open>Queries\<close>

datatype l1_error = BlockNotFound u32

definition BlockLogs :: "L1CertNode \<Rightarrow> BlockLog list" where
  "BlockLogs n = l1_blockLog n"

definition VerifiedBlocks :: "L1CertNode \<Rightarrow> int" where
  "VerifiedBlocks n = int (length (l1_blocks n))"

definition MustBlock :: "u32 \<Rightarrow> L1CertNode \<Rightarrow> l1_error + acceptedBlock" where
  "MustBlock blockIndex n =
     (case map_of (l1_blocks n) blockIndex of None \<Rightarrow> Inl (BlockNotFound blockIndex) | Some b \<Rightarrow> Inr b)"

definition Balance :: "u32 \<Rightarrow> L1CertNode \<Rightarrow> i64" where
  "Balance index n = map_get 0 (l1_state n) index"

definition StateVersion :: "L1CertNode \<Rightarrow> u64" where
  "StateVersion n = l1_stateVersion n"

section \<open>What the node checks and what a batch does\<close>

definition l1_accepts :: "string \<Rightarrow> SubmitRequest \<Rightarrow> bool" where
  "l1_accepts seed req \<longleftrightarrow>
     rq_Proof req = \<lparr> pr_BlockIndex = rq_BlockIndex req, pr_CommitmentHash = rq_CommitmentHash req,
                      pr_ProofBytes = GenerateProofBytes seed (rq_BlockIndex req) \<rparr>
     \<and> rq_TxCount req = of_nat (length (rq_Txs req))
     \<and> (\<forall>tx \<in> set (rq_Txs req). Amount tx \<noteq> 0)
     \<and> rq_CommitmentHash req = CommitmentFromTxs (rq_BlockIndex req) (rq_Txs req)"

lemma l1_accepts_checks: "l1_accepts seed req \<longleftrightarrow> proof_ok seed req \<and> payload_ok req"
  by (cases "rq_Proof req") (auto simp: l1_accepts_def proof_ok_def payload_ok_def Let_def)

text \<open>The net amount a batch moves to an account, as a 64-bit word, and the accounts it touches.\<close>

definition net_flow :: "Tx12 list \<Rightarrow> u32 \<Rightarrow> i64" where
  "net_flow txs i =
     sum_list (map (\<lambda>tx. (if ReceiverIndex tx = i then ucast (Amount tx) else 0)
                        - (if SenderIndex tx = i then ucast (Amount tx) else 0)) txs)"

definition touched :: "Tx12 list \<Rightarrow> u32 set" where
  "touched txs = SenderIndex ` set txs \<union> ReceiverIndex ` set txs"

lemma net_flow_simps [simp]:
  "net_flow [] i = 0"
  "net_flow (tx # txs) i = (if ReceiverIndex tx = i then ucast (Amount tx) else 0)
                        - (if SenderIndex tx = i then ucast (Amount tx) else 0) + net_flow txs i"
  by (simp_all add: net_flow_def)

lemma apply_loop_balance:
  "map_get 0 (fst (apply_loop txs st changed)) i = map_get 0 st i + net_flow txs i"
  by (induction txs st changed rule: apply_loop.induct) (auto simp: Let_def)

lemma apply_loop_ok: "go_map_ok st \<Longrightarrow> go_map_ok (fst (apply_loop txs st changed))"
  by (induction txs st changed rule: apply_loop.induct) (simp_all add: Let_def)

lemma apply_loop_total:
  "go_map_ok st \<Longrightarrow> sum_list (map snd (fst (apply_loop txs st changed))) = sum_list (map snd st)"
proof (induction txs arbitrary: st changed)
  case (Cons tx txs)
  let ?a = "ucast (Amount tx) :: i64"
  let ?st = "AList.update (SenderIndex tx) (map_get 0 st (SenderIndex tx) + - ?a) st"
  have "sum_list (map snd (AList.update (ReceiverIndex tx) (map_get 0 ?st (ReceiverIndex tx) + ?a) ?st))
      = sum_list (map snd st)"
    using Cons.prems by (simp only: sum_list_update_map go_map_ok_update) simp
  then show ?case using Cons by (simp add: Let_def)
qed simp

lemma apply_loop_changed:
  "set (snd (apply_loop txs st changed)) = set changed \<union> touched txs"
  "distinct changed \<Longrightarrow> distinct (snd (apply_loop txs st changed))"
  by (induction txs st changed rule: apply_loop.induct) (auto simp: Let_def touched_def)

lemma applyTxs_eq [l1_simps]:
  "applyTxs txs n = (int (card (touched txs)), n\<lparr> l1_state := fst (apply_loop txs (l1_state n) []) \<rparr>)"
proof -
  have "length (snd (apply_loop txs (l1_state n) [])) = card (touched txs)"
    using apply_loop_changed [where txs = txs and st = "l1_state n" and changed = "[]"]
      distinct_card [of "snd (apply_loop txs (l1_state n) [])"] by simp
  then show ?thesis
    by (cases "txs = []") (auto simp: applyTxs_def touched_def split: prod.split)
qed

section \<open>One submission\<close>

text \<open>The entry the accepted block leaves in the map.\<close>

definition accepted_entry :: "SubmitRequest \<Rightarrow> L1CertNode \<Rightarrow> acceptedBlock" where
  "accepted_entry req n =
     \<lparr> ab_Commitment = rq_CommitmentHash req, ab_TxCount = rq_TxCount req,
       ab_StateVer = l1_stateVersion n + 1, ab_DeltaCount = int (card (touched (rq_Txs req))) \<rparr>"

definition applies :: "SubmitRequest \<Rightarrow> L1CertNode \<Rightarrow> bool" where
  "applies req n \<longleftrightarrow>
     map_of (l1_blocks n) (rq_BlockIndex req) = None \<and> l1_accepts (l1_proofSeed n) req"

lemma Submit_applies [l1_simps]:
  fixes now :: time
  assumes "applies req n"
  defines "r \<equiv> SubmitCertifiedBlock now req n"
  shows "l1_blocks (snd r) = AList.update (rq_BlockIndex req) (accepted_entry req n) (l1_blocks n)"
    and "l1_state (snd r) = fst (apply_loop (rq_Txs req) (l1_state n) [])"
    and "l1_stateVersion (snd r) = l1_stateVersion n + 1"
    and "l1_metrics (snd r) = ObserveFinalizeLatencyMs (latency_ms now (rq_CreatedAt req))
           (AddVerifiedTx (ucast (rq_TxCount req)) (l1_metrics n))"
    and "fst r = \<lparr> rs_Accepted = True, rs_Duplicate = False, rs_ProofOK = True, rs_Finalized = True,
           rs_Reason = ''ok'', rs_LatencyMs = latency_ms now (rq_CreatedAt req),
           rs_BlockIndex = rq_BlockIndex req \<rparr>"
  using assms by (simp_all add: SubmitCertifiedBlock_def applies_def l1_accepts_checks Let_def applyTxs_eq
      append_log_def accepted_entry_def)

lemma Submit_keeps [l1_simps]:
  assumes "\<not> applies req n"
  shows "\<exists>e. snd (SubmitCertifiedBlock now req n) = append_log e n \<and> \<not> bl_StateApplied e"
  using assms by (auto simp: SubmitCertifiedBlock_def applies_def l1_accepts_checks Let_def
      reject_entry_def split: option.split)

lemma Submit_fields [l1_simps, simp]:
  "l1_proofSeed (snd (SubmitCertifiedBlock now req n)) = l1_proofSeed n"
  "rs_LatencyMs (fst (SubmitCertifiedBlock now req n)) = latency_ms now (rq_CreatedAt req)"
  "rs_BlockIndex (fst (SubmitCertifiedBlock now req n)) = rq_BlockIndex req"
  by (auto simp: SubmitCertifiedBlock_def Let_def applyTxs_eq append_log_def split: option.split)

lemma append_log_fields [simp]:
  "l1_blocks (append_log e n) = l1_blocks n" "l1_state (append_log e n) = l1_state n"
  "l1_stateVersion (append_log e n) = l1_stateVersion n" "l1_metrics (append_log e n) = l1_metrics n"
  "l1_proofSeed (append_log e n) = l1_proofSeed n" "l1_blockLog (append_log e n) = l1_blockLog n @ [e]"
  by (simp_all add: append_log_def)

lemma Submit_unchanged:
  assumes "\<not> applies req n"
  shows "l1_blocks (snd (SubmitCertifiedBlock now req n)) = l1_blocks n"
    and "l1_state (snd (SubmitCertifiedBlock now req n)) = l1_state n"
    and "l1_stateVersion (snd (SubmitCertifiedBlock now req n)) = l1_stateVersion n"
    and "l1_metrics (snd (SubmitCertifiedBlock now req n)) = l1_metrics n"
  using Submit_keeps [OF assms, of now] by auto

lemma Submit_duplicate_iff:
  "rs_Duplicate (fst (SubmitCertifiedBlock now req n)) \<longleftrightarrow> map_of (l1_blocks n) (rq_BlockIndex req) \<noteq> None"
  by (auto simp: SubmitCertifiedBlock_def Let_def applyTxs_eq split: option.split)

lemma Submit_accepted_iff:
  "rs_Accepted (fst (SubmitCertifiedBlock now req n)) \<longleftrightarrow>
     l1_accepts (l1_proofSeed n) req
     \<and> (case map_of (l1_blocks n) (rq_BlockIndex req) of None \<Rightarrow> True
         | Some e \<Rightarrow> ab_Commitment e = rq_CommitmentHash req \<and> ab_TxCount e = rq_TxCount req)"
  by (auto simp: SubmitCertifiedBlock_def l1_accepts_checks Let_def applyTxs_eq split: option.split)

lemma Submit_finalized_iff:
  "rs_Finalized (fst (SubmitCertifiedBlock now req n)) = rs_Accepted (fst (SubmitCertifiedBlock now req n))"
  by (auto simp: SubmitCertifiedBlock_def Let_def applyTxs_eq split: option.split)

text \<open>C6. The response, on every branch: a submission is accepted, and finalized, exactly when its proof record and
  its payload are what the node computes for that block and the block is either new or already recorded with this
  commitment and count; it is a duplicate exactly when the block is already recorded.\<close>

theorem Submit_response:
  "(rs_Accepted (fst (SubmitCertifiedBlock now req n)) \<longleftrightarrow>
       l1_accepts (l1_proofSeed n) req
       \<and> (case map_of (l1_blocks n) (rq_BlockIndex req) of None \<Rightarrow> True
           | Some e \<Rightarrow> ab_Commitment e = rq_CommitmentHash req \<and> ab_TxCount e = rq_TxCount req))
   \<and> rs_Finalized (fst (SubmitCertifiedBlock now req n)) = rs_Accepted (fst (SubmitCertifiedBlock now req n))
   \<and> (rs_Duplicate (fst (SubmitCertifiedBlock now req n)) \<longleftrightarrow>
       map_of (l1_blocks n) (rq_BlockIndex req) \<noteq> None)"
  by (intro conjI Submit_accepted_iff Submit_finalized_iff Submit_duplicate_iff)

section \<open>The ledger behind the node\<close>

text \<open>
  The node promises to be a ledger: the list of the blocks accepted so far, each with its
  transfers.  A valid submission for a new block extends it; nothing else changes it.
\<close>

type_synonym ledger = "(u32 \<times> Tx12 list) list"

definition ledger_step :: "string \<Rightarrow> SubmitRequest \<Rightarrow> ledger \<Rightarrow> ledger" where
  "ledger_step seed req L =
     (if l1_accepts seed req \<and> rq_BlockIndex req \<notin> fst ` set L then L @ [(rq_BlockIndex req, rq_Txs req)]
      else L)"

fun submit_all :: "(time \<times> SubmitRequest) list \<Rightarrow> L1CertNode \<Rightarrow> SubmitResponse list \<times> L1CertNode" where
  "submit_all [] n = ([], n)"
| "submit_all ((now, req) # reqs) n =
     (let (r, n1) = SubmitCertifiedBlock now req n; (rs, n2) = submit_all reqs n1 in (r # rs, n2))"

definition ledger_of :: "string \<Rightarrow> (time \<times> SubmitRequest) list \<Rightarrow> ledger" where
  "ledger_of seed reqs = fold (\<lambda>(now, req). ledger_step seed req) reqs []"

text \<open>What the node stores for the ledger's block number \<open>k\<close>, counted from 1.\<close>

definition block_entry :: "nat \<Rightarrow> u32 \<times> Tx12 list \<Rightarrow> acceptedBlock" where
  "block_entry k bt = (case bt of (b, txs) \<Rightarrow>
     \<lparr> ab_Commitment = CommitmentFromTxs b txs, ab_TxCount = of_nat (length txs),
       ab_StateVer = of_nat k, ab_DeltaCount = int (card (touched txs)) \<rparr>)"

fun blocks_from :: "nat \<Rightarrow> ledger \<Rightarrow> (u32, acceptedBlock) go_map" where
  "blocks_from k [] = []"
| "blocks_from k (bt # L) = (fst bt, block_entry k bt) # blocks_from (Suc k) L"

definition ledger_blocks :: "ledger \<Rightarrow> (u32, acceptedBlock) go_map" where
  "ledger_blocks L = blocks_from 1 L"

definition ledger_tx :: "ledger \<Rightarrow> u64" where
  "ledger_tx L = sum_list (map (\<lambda>bt. ucast (of_nat (length (snd bt)) :: u32)) L)"

definition ledger_balance :: "ledger \<Rightarrow> u32 \<Rightarrow> i64" where
  "ledger_balance L i = sum_list (map (\<lambda>bt. net_flow (snd bt) i) L)"

definition l1_refines :: "string \<Rightarrow> Registry \<Rightarrow> ledger \<Rightarrow> L1CertNode \<Rightarrow> bool" where
  "l1_refines seed m L n \<longleftrightarrow>
     distinct (map fst L) \<and> l1_proofSeed n = seed
     \<and> l1_blocks n = ledger_blocks L
     \<and> go_map_ok (l1_state n) \<and> sum_list (map snd (l1_state n)) = 0
     \<and> (\<forall>i. map_get 0 (l1_state n) i = ledger_balance L i)
     \<and> l1_stateVersion n = of_nat (length L)
     \<and> m_verifiedTx (l1_metrics n) = m_verifiedTx m + ledger_tx L"

lemma ledger_blocks_snoc:
  "ledger_blocks (L @ [bt]) = ledger_blocks L @ [(fst bt, block_entry (Suc (length L)) bt)]"
proof -
  have "blocks_from k (L @ [bt]) = blocks_from k L @ [(fst bt, block_entry (k + length L) bt)]" for k
    by (induction L arbitrary: k) simp_all
  then show ?thesis by (simp add: ledger_blocks_def)
qed

lemma fst_ledger_blocks: "map fst (ledger_blocks L) = map fst L"
  by (induction L rule: rev_induct) (simp add: ledger_blocks_def, simp add: ledger_blocks_snoc)

lemma length_ledger_blocks [simp]: "length (ledger_blocks L) = length L"
  by (metis fst_ledger_blocks length_map)

lemma update_new: "k \<notin> fst ` set m \<Longrightarrow> AList.update k v m = m @ [(k, v)]"
  by (induction m) auto

lemma ledger_blocks_None: "map_of (ledger_blocks L) b = None \<longleftrightarrow> b \<notin> fst ` set L"
  by (metis fst_ledger_blocks list.set_map map_of_eq_None_iff)

lemma l1_refines_new: "l1_refines seed m [] (NewL1CertNode seed m)"
  by (simp add: l1_refines_def NewL1CertNode_def ledger_blocks_def map_get_def ledger_balance_def ledger_tx_def)

lemma l1_refines_step:
  assumes "l1_refines seed m L n"
  shows "l1_refines seed m (ledger_step seed req L) (snd (SubmitCertifiedBlock now req n))"
proof (cases "applies req n")
  case True
  let ?b = "rq_BlockIndex req" and ?bt = "(rq_BlockIndex req, rq_Txs req)"
  have new: "?b \<notin> fst ` set L" and acc: "l1_accepts seed req"
    using True assms by (auto simp: applies_def l1_refines_def ledger_blocks_None)
  have entry: "accepted_entry req n = block_entry (Suc (length L)) ?bt"
    using acc assms by (simp add: accepted_entry_def block_entry_def l1_accepts_def l1_refines_def add.commute)
  have fresh: "?b \<notin> fst ` set (ledger_blocks L)"
    using new by (metis fst_ledger_blocks list.set_map)
  have cnt: "rq_TxCount req = of_nat (length (rq_Txs req))" using acc by (simp add: l1_accepts_def)
  show ?thesis
    using assms new acc fresh
    by (simp add: l1_refines_def ledger_step_def Submit_applies [OF True] entry update_new ledger_blocks_snoc
        apply_loop_ok apply_loop_total apply_loop_balance ledger_balance_def ledger_tx_def cnt add.commute)
next
  case False
  then have "ledger_step seed req L = L"
    using assms ledger_blocks_None [of L "rq_BlockIndex req"]
    by (auto simp: applies_def ledger_step_def l1_refines_def)
  then show ?thesis
    using assms by (simp add: l1_refines_def Submit_unchanged [OF False])
qed

lemma l1_refines_run:
  "l1_refines seed m L n \<Longrightarrow>
   l1_refines seed m (fold (\<lambda>(now, req). ledger_step seed req) reqs L) (snd (submit_all reqs n))"
proof (induction reqs arbitrary: n L)
  case (Cons tr reqs)
  obtain now req where tr: "tr = (now, req)" by (cases tr)
  show ?case
    using Cons.IH [OF l1_refines_step [OF Cons.prems, of req now]]
    by (simp add: tr Let_def split: prod.split) (metis snd_conv)
qed simp

lemma l1_refines_all: "l1_refines seed m (ledger_of seed reqs) (snd (submit_all reqs (NewL1CertNode seed m)))"
  unfolding ledger_of_def by (rule l1_refines_run) (rule l1_refines_new)

text \<open>C5. The node implements the ledger: after any submissions, in any order and with any repetitions and forgeries,
  its recorded blocks, balances, versions and counters are those of the ledger of accepted blocks.\<close>

theorem l1_implements_ledger:
  "let n = snd (submit_all reqs (NewL1CertNode seed m)); L = ledger_of seed reqs in
     l1_blocks n = ledger_blocks L \<and> distinct (map fst L)
     \<and> (\<forall>i. Balance i n = ledger_balance L i)
     \<and> StateVersion n = of_nat (length L) \<and> VerifiedBlocks n = int (length L)
     \<and> VerifiedTx (l1_metrics n) = VerifiedTx m + ledger_tx L"
  using l1_refines_all [of seed m reqs]
  by (simp add: Let_def l1_refines_def Balance_def StateVersion_def VerifiedBlocks_def VerifiedTx_def)

text \<open>C8. No transfer creates or destroys value: after any submissions the balances of all accounts sum to zero in
  64-bit arithmetic, self-transfers and overflowing batches included.\<close>

theorem l1_conservation:
  "sum_list (map snd (l1_state (snd (submit_all reqs (NewL1CertNode seed m))))) = 0"
  using l1_refines_all [of seed m reqs] by (simp add: l1_refines_def)

section \<open>Rejections, replays and the log\<close>

text \<open>A submission that is not a valid new block has no effect but one log entry: blocks, balances, version and
  metrics are untouched, so replays and forgeries cost nothing but log space.\<close>

theorem Submit_frame:
  "let n' = snd (SubmitCertifiedBlock now req n) in
     if applies req n
     then \<exists>e. l1_blockLog n' = l1_blockLog n @ [e] \<and> bl_StateApplied e \<and> bl_Finalized e
        \<and> bl_TxCount e = rq_TxCount req \<and> bl_StateVersion e = l1_stateVersion n'
     else \<exists>e. n' = n\<lparr> l1_blockLog := l1_blockLog n @ [e] \<rparr> \<and> \<not> bl_StateApplied e"
proof (cases "applies req n")
  case True
  then show ?thesis
    by (simp add: SubmitCertifiedBlock_def applies_def l1_accepts_checks Let_def applyTxs_eq append_log_def)
next
  case False
  then show ?thesis using Submit_keeps [OF False, of now] by (auto simp: append_log_def)
qed

lemma submit_all_append:
  "snd (submit_all (xs @ ys) n) = snd (submit_all ys (snd (submit_all xs n)))"
proof (induction xs arbitrary: n)
  case (Cons tr xs)
  then show ?case by (cases tr) (simp add: Let_def split: prod.split, metis snd_conv)
qed simp

lemma Submit_immutable:
  "map_of (l1_blocks n) b = Some x \<Longrightarrow> map_of (l1_blocks (snd (SubmitCertifiedBlock now req n))) b = Some x"
  by (cases "applies req n") (auto simp: Submit_applies Submit_unchanged applies_def)

lemma submit_all_immutable:
  "map_of (l1_blocks n) b = Some x \<Longrightarrow> map_of (l1_blocks (snd (submit_all reqs n))) b = Some x"
proof (induction reqs arbitrary: n)
  case (Cons tr reqs)
  then show ?case
    using Submit_immutable by (cases tr) (simp add: Let_def split: prod.split, metis snd_conv)
qed simp

text \<open>C35. What is certified stays certified: no later submissions remove an accepted block or change its commitment,
  count, version or number of touched accounts.\<close>

theorem accepted_block_immutable:
  assumes "MustBlock b n = Inr x"
  shows "MustBlock b (snd (submit_all reqs n)) = Inr x"
  using assms submit_all_immutable [of n b x reqs]
  by (simp add: MustBlock_def split: option.splits)

theorem accepted_block_immutable_witness:
  "MustBlock 3 (snd (submit_all [(5, \<lparr> rq_Phase = ''x'', rq_BlockIndex = 3, rq_CommitmentHash = [1],
       rq_Proof = \<lparr> pr_BlockIndex = 3, pr_CommitmentHash = [], pr_ProofBytes = [] \<rparr>, rq_TxCount = 9,
       rq_Txs = [], rq_CreatedAt = 0 \<rparr>)]
     ((NewL1CertNode ''s'' NewRegistry)\<lparr> l1_blocks := [(3, block_entry 1 (3, []))] \<rparr>)))
   = Inr (block_entry 1 (3, []))"
  by (rule accepted_block_immutable) (simp add: MustBlock_def)

lemma blocks_from_map_of:
  "map_of (blocks_from k L) b =
     (case map_of L b of None \<Rightarrow> None
      | Some txs \<Rightarrow> Some (block_entry (k + length (takeWhile (\<lambda>bt. fst bt \<noteq> b) L)) (b, txs)))"
  by (induction k L rule: blocks_from.induct) (auto split: option.split)

text \<open>C7. Certification binds: a response that accepts a block the node already recorded was given for the recorded
  transfers, or SHA-256 collides on the two explicit encodings. The ledger is that of any earlier submissions.\<close>

theorem acceptance_binds_payload:
  "case map_of (ledger_of seed reqs) (rq_BlockIndex req) of
     None \<Rightarrow> \<not> rs_Duplicate (fst (SubmitCertifiedBlock now req (snd (submit_all reqs (NewL1CertNode seed m)))))
   | Some txs \<Rightarrow>
       if rs_Accepted (fst (SubmitCertifiedBlock now req (snd (submit_all reqs (NewL1CertNode seed m)))))
       then rq_Txs req = txs \<or> sha_collides (commit_preimage (rq_BlockIndex req) (rq_Txs req))
                                  (commit_preimage (rq_BlockIndex req) txs)
       else \<not> (l1_accepts seed req \<and> rq_Txs req = txs)"
proof (cases "map_of (ledger_of seed reqs) (rq_BlockIndex req)")
  case None
  then have "map_of (l1_blocks (snd (submit_all reqs (NewL1CertNode seed m)))) (rq_BlockIndex req) = None"
    using l1_refines_all [of seed m reqs] by (simp add: l1_refines_def ledger_blocks_def blocks_from_map_of)
  then show ?thesis using None by (simp add: Submit_duplicate_iff)
next
  case (Some txs)
  let ?n = "snd (submit_all reqs (NewL1CertNode seed m))" and ?b = "rq_BlockIndex req"
  obtain k where e: "map_of (l1_blocks ?n) ?b = Some (block_entry k (?b, txs))" and seed: "l1_proofSeed ?n = seed"
    using Some l1_refines_all [of seed m reqs] by (simp add: l1_refines_def ledger_blocks_def blocks_from_map_of)
  have "rs_Accepted (fst (SubmitCertifiedBlock now req ?n)) \<longleftrightarrow> l1_accepts seed req
      \<and> CommitmentFromTxs ?b txs = rq_CommitmentHash req \<and> of_nat (length txs) = rq_TxCount req"
    by (simp add: Submit_accepted_iff e seed block_entry_def)
  then show ?thesis
    using Some CommitmentFromTxs_eq_iff [of ?b "rq_Txs req" ?b txs] by (auto simp: l1_accepts_def)
qed

text \<open>
  The log tells the accepted submissions apart by three of its flags; the report counts these.
\<close>

definition log_verified :: "BlockLog \<Rightarrow> bool" where
  "log_verified e \<longleftrightarrow> bl_Finalized e \<and> bl_ProofVerified e \<and> \<not> bl_Duplicate e"

definition ledger_line :: "u32 \<times> Tx12 list \<Rightarrow> u32 \<times> u32" where
  "ledger_line bt = (fst bt, of_nat (length (snd bt)))"

definition log_lines :: "BlockLog list \<Rightarrow> (u32 \<times> u32) list" where
  "log_lines logs = map (\<lambda>e. (bl_BlockIndex e, bl_TxCount e)) (filter log_verified logs)"

lemma Submit_log_applied:
  "applies req n \<Longrightarrow> \<exists>e. log_verified e \<and> bl_BlockIndex e = rq_BlockIndex req
     \<and> bl_TxCount e = rq_TxCount req \<and> bl_Phase e = rq_Phase req
     \<and> l1_blockLog (snd (SubmitCertifiedBlock now req n)) = l1_blockLog n @ [e]"
  by (simp add: SubmitCertifiedBlock_def applies_def l1_accepts_checks Let_def applyTxs_eq append_log_def
      log_verified_def)

lemma Submit_log_kept:
  "\<not> applies req n \<Longrightarrow> \<exists>e. \<not> log_verified e \<and> bl_Phase e = rq_Phase req
     \<and> l1_blockLog (snd (SubmitCertifiedBlock now req n)) = l1_blockLog n @ [e]"
  by (auto simp: SubmitCertifiedBlock_def applies_def l1_accepts_checks Let_def append_log_def
      log_verified_def reject_entry_def split: option.split)

lemma Submit_log:
  obtains (applied) e where "applies req n" "log_verified e" "bl_BlockIndex e = rq_BlockIndex req"
      "bl_TxCount e = rq_TxCount req" "bl_Phase e = rq_Phase req"
      "l1_blockLog (snd (SubmitCertifiedBlock now req n)) = l1_blockLog n @ [e]"
    | (kept) e where "\<not> applies req n" "\<not> log_verified e" "bl_Phase e = rq_Phase req"
      "l1_blockLog (snd (SubmitCertifiedBlock now req n)) = l1_blockLog n @ [e]"
  using Submit_log_applied [of req n now] Submit_log_kept [of req n now] by (cases "applies req n") blast+

lemma log_lines_step:
  assumes "l1_refines seed m L n" "log_lines (l1_blockLog n) = map ledger_line L"
  shows "log_lines (l1_blockLog (snd (SubmitCertifiedBlock now req n)))
    = map ledger_line (ledger_step seed req L)"
proof (cases rule: Submit_log [of req n now])
  case (applied e)
  then show ?thesis
    using assms ledger_blocks_None [of L "rq_BlockIndex req"]
    by (auto simp: log_lines_def ledger_step_def ledger_line_def applies_def l1_refines_def l1_accepts_def)
next
  case (kept e)
  then show ?thesis
    using assms ledger_blocks_None [of L "rq_BlockIndex req"]
    by (auto simp: log_lines_def ledger_step_def applies_def l1_refines_def)
qed

lemma log_lines_run:
  "l1_refines seed m L n \<Longrightarrow> log_lines (l1_blockLog n) = map ledger_line L
   \<Longrightarrow> log_lines (l1_blockLog (snd (submit_all reqs n)))
      = map ledger_line (fold (\<lambda>(now, req). ledger_step seed req) reqs L)
     \<and> length (l1_blockLog (snd (submit_all reqs n))) = length (l1_blockLog n) + length reqs"
proof (induction reqs arbitrary: n L)
  case (Cons tr reqs)
  obtain now req where tr: "tr = (now, req)" by (cases tr)
  have len: "length (l1_blockLog (snd (SubmitCertifiedBlock now req n))) = Suc (length (l1_blockLog n))"
    by (cases rule: Submit_log [of req n now]) simp_all
  have "snd (submit_all (tr # reqs) n) = snd (submit_all reqs (snd (SubmitCertifiedBlock now req n)))"
    using submit_all_append [of "[tr]" reqs n] by (simp add: tr Let_def split: prod.splits)
  then show ?case
    using Cons.IH [OF l1_refines_step [OF Cons.prems(1), of req now] log_lines_step [OF Cons.prems, of now req]] len
    by (simp add: tr)
qed simp

text \<open>C32. The log is complete and truthful: it has one entry for every submission, and its finalized, verified,
  non-duplicate entries are exactly the blocks of the ledger, in order and with their transfer counts.\<close>

theorem l1_log_matches_ledger:
  "let logs = l1_blockLog (snd (submit_all reqs (NewL1CertNode seed m))) in
     length logs = length reqs \<and> log_lines logs = map ledger_line (ledger_of seed reqs)"
  using log_lines_run [OF l1_refines_new, of seed m reqs]
  by (simp add: ledger_of_def log_lines_def Let_def NewL1CertNode_def)

text \<open>The request an honest prover submits for a block.\<close>

definition honest_request :: "string \<Rightarrow> string \<Rightarrow> u32 \<Rightarrow> Tx12 list \<Rightarrow> time \<Rightarrow> SubmitRequest" where
  "honest_request seed phase b txs created =
     \<lparr> rq_Phase = phase, rq_BlockIndex = b, rq_CommitmentHash = CommitmentFromTxs b txs,
       rq_Proof = BuildProofRecord b (CommitmentFromTxs b txs) (GenerateProofBytes seed b),
       rq_TxCount = of_nat (length txs), rq_Txs = txs, rq_CreatedAt = created \<rparr>"

lemma honest_request_accepts:
  "l1_accepts seed (honest_request seed phase b txs created) \<longleftrightarrow> (\<forall>tx \<in> set txs. Amount tx \<noteq> 0)"
  by (simp add: l1_accepts_def honest_request_def BuildProofRecord_def copy_into_def Let_def)

text \<open>The log and the response disagree on a resubmission whose proof is good and whose transfers do not match the
  commitment: the response does not finalize it, the log entry says finalized.\<close>

theorem duplicate_log_divergence:
  "let req = honest_request seed ''certification'' b [] created;
       n = snd (SubmitCertifiedBlock t (req :: SubmitRequest) (NewL1CertNode seed m));
       (r, n') = SubmitCertifiedBlock t (req\<lparr> rq_Txs := [tx] \<rparr>) n
   in \<not> rs_Finalized r \<and> bl_Finalized (last (l1_blockLog n'))"
proof -
  let ?req = "honest_request seed ''certification'' b [] created"
  let ?n = "snd (SubmitCertifiedBlock t ?req (NewL1CertNode seed m))"
  have a: "applies ?req (NewL1CertNode seed m)"
    using honest_request_accepts [of seed "''certification''" b "[]" created]
    by (simp add: applies_def NewL1CertNode_def)
  have "proof_ok seed (?req\<lparr> rq_Txs := [tx] \<rparr>)"
    by (simp add: proof_ok_def honest_request_def BuildProofRecord_def copy_into_def Let_def)
  moreover have "\<not> payload_ok (?req\<lparr> rq_Txs := [tx] \<rparr>)"
    by (simp add: payload_ok_def honest_request_def Let_def)
  moreover have "l1_proofSeed ?n = seed" by (simp add: NewL1CertNode_def)
  ultimately show ?thesis
    using Submit_applies(1) [OF a, of t]
    by (simp add: Let_def SubmitCertifiedBlock_def [of t "_\<lparr> rq_Txs := _ \<rparr>"] accepted_entry_def append_log_def)
qed

text \<open>A client clock ahead of the node's wraps the latency around: a block stamped \<open>k\<close> milliseconds in the future
  is logged with a latency of \<open>2 ^ 64 - k\<close> milliseconds.\<close>

theorem latency_wraps:
  assumes "0 < k" "k \<le> 9223372036854"
  shows "uint (latency_ms now (now + k * 1000000)) = 2 ^ 64 - k"
proof -
  have "Milliseconds (time_sub now (now + k * 1000000)) = - k"
    using assms by (simp add: time_sub_def Milliseconds_def go_quot_def)
  then have "uint (latency_ms now (now + k * 1000000)) = (- k) mod 2 ^ 64"
    by (simp only: latency_ms_def unsigned_of_int take_bit_eq_mod) simp
  also have "\<dots> = 2 ^ 64 - k" using assms by (simp add: zmod_zminus1_eq_if mod_pos_pos_trivial)
  finally show ?thesis .
qed

theorem latency_wraps_witness: "uint (latency_ms 0 1000000) = 2 ^ 64 - 1"
  using latency_wraps [of 1 0] by simp

end
