(* ===== verification/Config.thy ===== *)
theory Config imports Go_Float begin

text \<open>
  \<^verbatim>\<open>internal/config/config.go\<close>: the run's configuration, its validation, and the two computations
  the pipeline's size depends on, blocks per phase and transfers per block.  Durations are
  \<^verbatim>\<open>time.Duration\<close>, 64-bit counts of nanoseconds that wrap around; the transfer count goes through
  \<^verbatim>\<open>float64\<close>, as in the code.
\<close>

section \<open>Data\<close>

record Phase =
  ph_TPS :: int
  ph_DurationSeconds :: int

record FaultInjection =
  PauseAtBlock :: u32
  PauseMillis :: int
  BadProofAt :: u32

record Config =
  cfg_Name :: string
  cfg_BlockTimeMillis :: int
  cfg_GasLimit :: u64
  cfg_Lanes :: int
  cfg_MaxLanes :: int
  cfg_QueueCapacity :: u64
  cfg_CertMode :: bool
  cfg_SkipState :: bool
  cfg_SkipSignature :: bool
  cfg_ProofSeed :: string
  cfg_Warmup :: Phase
  cfg_Certification :: Phase
  cfg_MetricsListenAddr :: string
  cfg_ReportDir :: string
  cfg_TxDatasetPath :: string
  cfg_ProofDatasetPath :: string
  cfg_Fault :: FaultInjection

datatype config_error =
    ReadConfig string
  | ParseConfig string
  | BlockTimeNotPositive
  | LanesOutOfRange
  | MaxLanesNotPositive
  | QueueCapacityNotPowerOfTwo
  | TpsInvalid
  | DurationInvalid
  | ReportDirRequired
  | MetricsListenAddrRequired

section \<open>Validation\<close>

definition Validate :: "Config \<Rightarrow> config_error option" where
  "Validate c =
     (if cfg_BlockTimeMillis c \<le> 0 then Some BlockTimeNotPositive
      else if cfg_Lanes c \<le> 0 \<or> cfg_MaxLanes c < cfg_Lanes c then Some LanesOutOfRange
      else if cfg_MaxLanes c \<le> 0 then Some MaxLanesNotPositive
      else if cfg_QueueCapacity c < 2 \<or> cfg_QueueCapacity c AND (cfg_QueueCapacity c - 1) \<noteq> 0
        then Some QueueCapacityNotPowerOfTwo
      else if ph_TPS (cfg_Warmup c) < 0 \<or> ph_TPS (cfg_Certification c) \<le> 0 then Some TpsInvalid
      else if ph_DurationSeconds (cfg_Warmup c) < 0 \<or> ph_DurationSeconds (cfg_Certification c) \<le> 0
        then Some DurationInvalid
      else if cfg_ReportDir c = [] then Some ReportDirRequired
      else if cfg_MetricsListenAddr c = [] then Some MetricsListenAddrRequired
      else None)"

text \<open>
  \<^verbatim>\<open>Load\<close>: the file system and \<^verbatim>\<open>encoding/json\<close> come in as functions; only a configuration that
  passes validation is returned.
\<close>

definition Load ::
    "(string \<Rightarrow> string + byte list) \<Rightarrow> (byte list \<Rightarrow> string + Config) \<Rightarrow> string \<Rightarrow> config_error + Config" where
  "Load ReadFile Unmarshal path =
     (case ReadFile path of
        Inl e \<Rightarrow> Inl (ReadConfig e)
      | Inr payload \<Rightarrow> (case Unmarshal payload of
            Inl e \<Rightarrow> Inl (ParseConfig e)
          | Inr cfg \<Rightarrow> (case Validate cfg of Some e \<Rightarrow> Inl e | None \<Rightarrow> Inr cfg)))"

section \<open>Durations\<close>

definition Millisecond :: int where "Millisecond = 1000000"

definition Second :: int where "Second = 1000000000"

definition BlockInterval :: "Config \<Rightarrow> int" where
  "BlockInterval c = wrap64 (cfg_BlockTimeMillis c * Millisecond)"

text \<open>
  Blocks of a phase; \<^const>\<open>None\<close> is the run-time panic of an integer division by zero.
\<close>

definition BlocksForPhase :: "Config \<Rightarrow> Phase \<Rightarrow> int option" where
  "BlocksForPhase c p =
     (if ph_DurationSeconds p = 0 then Some 0
      else if BlockInterval c = 0 then None
      else Some (wrap64 (go_quot (wrap64 (ph_DurationSeconds p * Second)) (BlockInterval c))))"

text \<open>\<^verbatim>\<open>Duration.Seconds\<close> of the standard library: whole seconds plus the rest over \<open>1e9\<close>.\<close>

definition Seconds :: "int \<Rightarrow> rat" where
  "Seconds d = f64_add (f64_of_int (go_quot d Second)) (f64_div (f64_of_int (go_rem d Second)) (10 ^ 9))"

definition TxPerBlock :: "Config \<Rightarrow> int \<Rightarrow> int" where
  "TxPerBlock c tps =
     (if tps \<le> 0 then 0
      else int_of_f64 (f64_mul (f64_of_int tps) (Seconds (BlockInterval c))))"

section \<open>Validation accepts exactly the intended configurations\<close>

text \<open>The contract of a usable configuration, stated without the code's bit trick.\<close>

definition valid_config :: "Config \<Rightarrow> bool" where
  "valid_config c \<longleftrightarrow>
     0 < cfg_BlockTimeMillis c \<and> 0 < cfg_Lanes c \<and> cfg_Lanes c \<le> cfg_MaxLanes c
     \<and> (\<exists>k < 64. 0 < k \<and> cfg_QueueCapacity c = 2 ^ k)
     \<and> 0 \<le> ph_TPS (cfg_Warmup c) \<and> 0 < ph_TPS (cfg_Certification c)
     \<and> 0 \<le> ph_DurationSeconds (cfg_Warmup c) \<and> 0 < ph_DurationSeconds (cfg_Certification c)
     \<and> cfg_ReportDir c \<noteq> [] \<and> cfg_MetricsListenAddr c \<noteq> []"

lemma Validate_valid: "valid_config c \<Longrightarrow> Validate c = None"
  using capacity_test [of "cfg_QueueCapacity c"]
  by (auto simp: Validate_def valid_config_def)

text \<open>\<^verbatim>\<open>Validate\<close> accepts a configuration exactly when it is usable: positive times, lanes between 1 and the
  maximum, a queue capacity that is a power of two of at least 2 (which the code tests with \<open>c & (c - 1)\<close>),
  sensible rates and durations, and non-empty paths.\<close>

theorem Validate_iff: "Validate c = None \<longleftrightarrow> valid_config c"
  using capacity_test [of "cfg_QueueCapacity c"]
  by (auto simp: Validate_def valid_config_def)

text \<open>The check \<open>max_lanes > 0\<close> is dead code: the lane check before it already rejects every such
  configuration, so its error is never returned.\<close>

lemma Validate_never_max_lanes: "Validate c \<noteq> Some MaxLanesNotPositive"
  by (auto simp: Validate_def)

section \<open>Blocks per phase\<close>

lemma BlockInterval_small:
  "0 < cfg_BlockTimeMillis c \<Longrightarrow> cfg_BlockTimeMillis c \<le> 9223372036854
   \<Longrightarrow> BlockInterval c = cfg_BlockTimeMillis c * Millisecond"
  by (simp add: BlockInterval_def Millisecond_def wrap64_small)

lemma BlocksForPhase_value:
  assumes "valid_config c"
    and "cfg_BlockTimeMillis c \<le> 9223372036854"
    and "0 \<le> ph_DurationSeconds p" "ph_DurationSeconds p \<le> 9223372036"
  shows "BlocksForPhase c p = Some (ph_DurationSeconds p * 1000 div cfg_BlockTimeMillis c)"
proof -
  let ?b = "cfg_BlockTimeMillis c" and ?d = "ph_DurationSeconds p"
  have b: "0 < ?b" using assms(1) by (simp add: valid_config_def)
  have dur: "wrap64 (?d * Second) = ?d * 1000 * Millisecond"
    using assms(3,4) by (subst wrap64_small) (auto simp: Second_def Millisecond_def)
  have q: "go_quot (?d * 1000 * Millisecond) (?b * Millisecond) = ?d * 1000 div ?b"
    using b assms(3) by (subst go_quot_nonneg) (auto simp: Millisecond_def mult.commute)
  have le: "?d * 1000 div ?b \<le> ?d * 1000"
    using b assms(3) zdiv_mono2 [of "?d * 1000" 1 ?b] by auto
  have "0 \<le> ?d * 1000 div ?b" using b assms(3) by (simp add: pos_imp_zdiv_nonneg_iff)
  then have "wrap64 (?d * 1000 div ?b) = ?d * 1000 div ?b"
    using le assms(4) by (intro wrap64_small) auto
  then show ?thesis
    using b assms(2) by (auto simp: BlocksForPhase_def BlockInterval_small dur q) (simp add: Millisecond_def)
qed

text \<open>For durations the nanosecond clock can hold, a phase has as many blocks as whole block intervals fit
  into it: the division cannot panic and no product wraps around.\<close>

theorem BlocksForPhase_exact:
  assumes "valid_config c"
    and "cfg_BlockTimeMillis c \<le> 9223372036854"
    and "0 \<le> ph_DurationSeconds p" "ph_DurationSeconds p \<le> 9223372036"
  shows "BlocksForPhase c p = Some (ph_DurationSeconds p * 1000 div cfg_BlockTimeMillis c)"
  using assms by (rule BlocksForPhase_value)

section \<open>Transfers per block\<close>

text \<open>One rounding changes a non-negative value by a factor within \<open>1 \<plusminus> 2 ^ -53\<close>.\<close>

lemma fl64_between:
  assumes "0 \<le> l" "l \<le> x" "x \<le> h"
  shows "l * (1 - 1 / 2 ^ 53) \<le> fl64 x" "fl64 x \<le> h * (1 + 1 / 2 ^ 53)"
proof -
  have x: "0 \<le> x" using assms by simp
  have "x - x / 2 ^ 53 \<le> fl64 x" "fl64 x \<le> x + x / 2 ^ 53"
    using fl64_err [OF x] by (simp_all only: abs_le_iff) linarith+
  then have b: "x * (1 - 1 / 2 ^ 53) \<le> fl64 x" "fl64 x \<le> x * (1 + 1 / 2 ^ 53)"
    by (simp_all add: algebra_simps)
  have "l * (1 - 1 / 2 ^ 53) \<le> x * (1 - 1 / 2 ^ 53)" using assms by (intro mult_right_mono) auto
  then show "l * (1 - 1 / 2 ^ 53) \<le> fl64 x" using b by linarith
  have "x * (1 + 1 / 2 ^ 53) \<le> h * (1 + 1 / 2 ^ 53)" using assms by (intro mult_right_mono) auto
  then show "fl64 x \<le> h * (1 + 1 / 2 ^ 53)" using b by linarith
qed

lemma Seconds_between:
  assumes "0 < b" "b \<le> 9223372036854"
  shows "of_int b / 1000 * (1 - 1 / 2 ^ 53) ^ 2 \<le> Seconds (b * Millisecond)"
    and "Seconds (b * Millisecond) \<le> of_int b / 1000 * (1 + 1 / 2 ^ 53) ^ 2"
proof -
  define q m where "q = b div 1000" and "m = b mod 1000"
  have qm: "0 \<le> q" "q \<le> 2 ^ 53" "0 \<le> m" "m < 1000" "b = 1000 * q + m"
    using assms by (auto simp: q_def m_def pos_imp_zdiv_nonneg_iff)
  have d: "b * Millisecond = q * Second + m * Millisecond"
    by (simp add: qm(5) Millisecond_def Second_def)
  have "go_quot (b * Millisecond) Second = q"
    using qm by (subst go_quot_nonneg) (auto simp: Second_def Millisecond_def)
  moreover have "go_rem (b * Millisecond) Second = m * Millisecond"
    using qm by (subst go_rem_nonneg) (auto simp: Second_def Millisecond_def)
  moreover have "f64_of_int (m * Millisecond) = of_int (m * Millisecond)"
    using qm by (intro f64_of_int_exact) (auto simp: Millisecond_def)
  ultimately have sec: "Seconds (b * Millisecond) = fl64 (of_int q + fl64 (of_int m / 1000))"
    using qm by (simp add: Seconds_def f64_add_def f64_div_def f64_of_int_exact Millisecond_def)
  have x: "of_int b / 1000 = (of_int q + of_int m / 1000 :: rat)" by (simp add: qm(5))
  define f where "f = fl64 (of_int m / 1000)"
  have fq: "of_int m / 1000 * (1 - 1 / 2 ^ 53) \<le> f" "f \<le> of_int m / 1000 * (1 + 1 / 2 ^ 53)"
    using fl64_between [of "of_int m / 1000" "of_int m / 1000" "of_int m / 1000"] qm
    by (simp_all add: f_def)
  have q0: "(0 :: rat) \<le> of_int q" "(0 :: rat) \<le> of_int m" using qm by simp_all
  have lo: "of_int b / 1000 * (1 - 1 / 2 ^ 53) \<le> of_int q + f"
    unfolding x using fq(1) q0 by (simp add: algebra_simps)
  have hi: "of_int q + f \<le> of_int b / 1000 * (1 + 1 / 2 ^ 53)"
    unfolding x using fq(2) q0 by (simp add: algebra_simps)
  have "0 \<le> of_int b / 1000 * (1 - 1 / 2 ^ 53 :: rat)" using assms by simp
  from fl64_between [OF this lo hi] show
    "of_int b / 1000 * (1 - 1 / 2 ^ 53) ^ 2 \<le> Seconds (b * Millisecond)"
    "Seconds (b * Millisecond) \<le> of_int b / 1000 * (1 + 1 / 2 ^ 53) ^ 2"
    by (simp_all add: sec power2_eq_square mult.assoc flip: f_def)
qed

lemma TxPerBlock_cases:
  assumes tps: "0 < tps" and b: "0 < cfg_BlockTimeMillis c"
    and N: "tps * cfg_BlockTimeMillis c < 2 ^ 51" and bt: "cfg_BlockTimeMillis c \<le> 9223372036854"
  shows "TxPerBlock c tps = tps * cfg_BlockTimeMillis c div 1000
      \<or> (1000 dvd tps * cfg_BlockTimeMillis c
         \<and> TxPerBlock c tps = tps * cfg_BlockTimeMillis c div 1000 - 1)"
proof -
  let ?b = "cfg_BlockTimeMillis c"
  define n where "n = tps * ?b"
  define P where "P = f64_mul (f64_of_int tps) (Seconds (?b * Millisecond))"
  have n: "0 < n" "n < 2 ^ 51" using assms by (simp_all add: n_def)
  have "tps * 1 \<le> tps * ?b" using tps b by (intro mult_left_mono) auto
  then have t53: "tps \<le> 2 ^ 53" using N by simp
  let ?x = "of_int n / 1000 :: rat"
  have sec: "of_int ?b / 1000 * (1 - 1 / 2 ^ 53) ^ 2 \<le> Seconds (?b * Millisecond)"
    "Seconds (?b * Millisecond) \<le> of_int ?b / 1000 * (1 + 1 / 2 ^ 53) ^ 2"
    using Seconds_between [OF b bt] by auto
  have t0: "(0 :: rat) \<le> of_int tps" using tps by simp
  have lo: "?x * (1 - 1 / 2 ^ 53) ^ 2 \<le> of_int tps * Seconds (?b * Millisecond)"
    using mult_left_mono [OF sec(1) t0] by (simp add: n_def field_simps)
  have hi: "of_int tps * Seconds (?b * Millisecond) \<le> ?x * (1 + 1 / 2 ^ 53) ^ 2"
    using mult_left_mono [OF sec(2) t0] by (simp add: n_def field_simps)
  have "0 \<le> ?x * (1 - 1 / 2 ^ 53) ^ 2" using n by simp
  from fl64_between [OF this lo hi]
  have P: "?x * (1 - 1 / 2 ^ 53) ^ 2 * (1 - 1 / 2 ^ 53) \<le> P" "P \<le> ?x * (1 + 1 / 2 ^ 53) ^ 2 * (1 + 1 / 2 ^ 53)"
    using t53 tps by (simp_all add: P_def f64_mul_def f64_of_int_exact)
  have nr: "(of_int n :: rat) < of_int (2 ^ 51)" "(0 :: rat) < of_int n"
    using n by (simp_all only: of_int_less_iff of_int_0_less_iff)
  have close: "(of_int n - 1) / 1000 < P" "P < (of_int n + 1) / 1000"
    using P nr by (simp_all add: power2_eq_square field_simps)
  have floor: "\<lfloor>P\<rfloor> = n div 1000 \<or> (1000 dvd n \<and> \<lfloor>P\<rfloor> = n div 1000 - 1)"
  proof -
    have "of_int n = (1000 * of_int (n div 1000) + of_int (n mod 1000) :: rat)"
      by (metis mult_div_mod_eq of_int_add of_int_mult of_int_numeral)
    moreover have "0 \<le> (of_int (n mod 1000) :: rat)" "(of_int (n mod 1000) :: rat) \<le> 999" by simp_all
    ultimately have up: "P < of_int (n div 1000) + 1" and down: "of_int (n div 1000) - 1 \<le> P"
      using close by (simp_all add: field_simps)
    show ?thesis
    proof (cases "of_int (n div 1000) \<le> P")
      case True
      then show ?thesis using up by (auto intro: floor_unique)
    next
      case False
      have "n mod 1000 = 0"
      proof (rule ccontr)
        assume "n mod 1000 \<noteq> 0"
        then have "1 \<le> n mod 1000" by (simp add: order_neq_le_trans int_one_le_iff_zero_less)
        then have "(of_int 1 :: rat) \<le> of_int (n mod 1000)" by (simp only: of_int_le_iff)
        then have "of_int (n div 1000) \<le> P"
          using close \<open>of_int n = _ + _\<close> by (simp add: field_simps)
        then show False using False by simp
      qed
      then show ?thesis using False down by (auto intro!: floor_unique)
    qed
  qed
  have fr: "0 \<le> \<lfloor>P\<rfloor>" "int64_range \<lfloor>P\<rfloor>" "0 \<le> P"
  proof -
    show P0: "0 \<le> P" using P(1) nr by (simp add: field_simps power2_eq_square)
    then show "0 \<le> \<lfloor>P\<rfloor>" by simp
    have "n div 1000 < 2 ^ 51" using n by (simp add: div_less_iff_less_mult)
    then have "\<lfloor>P\<rfloor> < 2 ^ 51" using floor by linarith
    then have "\<lfloor>P\<rfloor> < 2 ^ 63" by (rule less_trans) simp
    with \<open>0 \<le> \<lfloor>P\<rfloor>\<close> show "int64_range \<lfloor>P\<rfloor>" unfolding int64_range_def by linarith
  qed
  have "TxPerBlock c tps = \<lfloor>P\<rfloor>"
    using tps b bt fr by (simp add: TxPerBlock_def BlockInterval_small int_of_f64_def Let_def P_def)
  then show ?thesis using floor by (simp add: n_def)
qed

text \<open>C37. The transfer count per block is \<open>tps * block_time_millis / 1000\<close> rounded down, with one exception the float
  arithmetic makes: where that quotient is a whole number, the code may come out one transfer short.  (Rates and
  times whose product is below \<open>2 ^ 51\<close>.)\<close>

theorem TxPerBlock_floor:
  assumes tps: "0 < tps" and b: "0 < cfg_BlockTimeMillis c"
    and N: "tps * cfg_BlockTimeMillis c < 2 ^ 51" and bt: "cfg_BlockTimeMillis c \<le> 9223372036854"
  shows "TxPerBlock c tps = tps * cfg_BlockTimeMillis c div 1000
      \<or> (1000 dvd tps * cfg_BlockTimeMillis c
         \<and> TxPerBlock c tps = tps * cfg_BlockTimeMillis c div 1000 - 1)"
  using assms by (rule TxPerBlock_cases)

section \<open>Sample configurations\<close>

text \<open>The values of \<^verbatim>\<open>configs/dev-air/smoke.json\<close>, with the block time and rate as parameters.\<close>

definition smoke_config :: "int \<Rightarrow> int \<Rightarrow> Config" where
  "smoke_config blockTime tps =
     \<lparr> cfg_Name = ''dev-air-smoke'', cfg_BlockTimeMillis = blockTime, cfg_GasLimit = 45000000,
       cfg_Lanes = 4, cfg_MaxLanes = 8, cfg_QueueCapacity = 2048,
       cfg_CertMode = True, cfg_SkipState = True, cfg_SkipSignature = True,
       cfg_ProofSeed = ''hyperl2-cert-seed'',
       cfg_Warmup = \<lparr> ph_TPS = 2000, ph_DurationSeconds = 2 \<rparr>,
       cfg_Certification = \<lparr> ph_TPS = tps, ph_DurationSeconds = 3 \<rparr>,
       cfg_MetricsListenAddr = '':9101'', cfg_ReportDir = ''reports/dev-air-smoke'',
       cfg_TxDatasetPath = [], cfg_ProofDatasetPath = [],
       cfg_Fault = \<lparr> PauseAtBlock = 0, PauseMillis = 0, BadProofAt = 0 \<rparr> \<rparr>"

lemma smoke_config_fields [simp]:
  "cfg_Lanes (smoke_config b t) = 4" "cfg_BlockTimeMillis (smoke_config b t) = b"
  "cfg_Certification (smoke_config b t) = \<lparr> ph_TPS = t, ph_DurationSeconds = 3 \<rparr>"
  "cfg_Warmup (smoke_config b t) = \<lparr> ph_TPS = 2000, ph_DurationSeconds = 2 \<rparr>"
  "cfg_Fault (smoke_config b t) = \<lparr> PauseAtBlock = 0, PauseMillis = 0, BadProofAt = 0 \<rparr>"
  "cfg_QueueCapacity (smoke_config b t) = 2048"
  by (simp_all add: smoke_config_def)

lemma smoke_config_valid: "0 < b \<Longrightarrow> 0 < t \<Longrightarrow> valid_config (smoke_config b t)"
  by (auto simp: valid_config_def smoke_config_def intro!: exI [of _ 11])

theorem BlocksForPhase_exact_witness:
  "BlocksForPhase (smoke_config 200 5000) (cfg_Certification (smoke_config 200 5000)) = Some 15"
  using BlocksForPhase_exact [OF smoke_config_valid, of 200 5000 "cfg_Certification (smoke_config 200 5000)"]
  by (simp add: smoke_config_def)

theorem TxPerBlock_floor_witness:
  "TxPerBlock (smoke_config 333 5000) 5000 = 1665
   \<or> (1000 dvd (1665000 :: int) \<and> TxPerBlock (smoke_config 333 5000) 5000 = 1664)"
  using TxPerBlock_floor [of 5000 "smoke_config 333 5000"] by (simp add: smoke_config_def)

text \<open>The exception is real: 100 transfers per second in blocks of 290 ms should give 29 transfers per block,
  and the code computes 28, because \<open>100 * 0.29\<close> rounds to just below 29 in \<^verbatim>\<open>float64\<close>.\<close>

theorem TxPerBlock_short_by_one:
  "TxPerBlock (smoke_config 290 100) 100 = 28 \<and> (100 * 290 :: int) div 1000 = 29"
proof -
  have q: "go_quot 290000000 Second = 0" "go_rem 290000000 Second = 290000000"
    by (simp_all add: go_rem_nonneg go_quot_nonneg Second_def)
  let ?s = "5224175567749775 / 2 ^ 54 :: rat"
  have r: "fl64 (29 / 100) = ?s" "fl64 ?s = ?s"
    using fl64_near [of "-2" "29 / 100" 5224175567749775] fl64_near [of "-2" ?s 5224175567749775]
    by (simp_all add: power_int_def power_divide)
  have "Seconds 290000000 = fl64 (fl64 (29 / 100))"
    by (simp add: Seconds_def q f64_add_def f64_div_def f64_of_int_exact)
  then have s: "Seconds 290000000 = ?s" by (simp only: r)
  have "f64_mul (f64_of_int 100) (Seconds 290000000) = 8162774324609023 / 2 ^ 48"
    unfolding s f64_mul_def
    by (subst fl64_near [of 4 _ 8162774324609023]; simp add: f64_of_int_exact power_int_def power_divide)
  then have "int_of_f64 (f64_mul (f64_of_int 100) (Seconds 290000000)) = 28"
    by (simp add: int_of_f64_def int64_range_def Let_def floor_eq_iff)
  then show ?thesis
    by (simp add: TxPerBlock_def smoke_config_def BlockInterval_small Millisecond_def)
qed

text \<open>Validation does not bound the block time, and the nanosecond product wraps around: with
  \<open>block_time_millis = 2 ^ 58\<close> the interval is 0 and counting the blocks of a phase divides by zero.\<close>

theorem BlocksForPhase_overflow_panics:
  "Validate (smoke_config (2 ^ 58) 5000) = None
   \<and> BlocksForPhase (smoke_config (2 ^ 58) 5000) (cfg_Certification (smoke_config (2 ^ 58) 5000)) = None"
proof -
  have "Validate (smoke_config (2 ^ 58) 5000) = None"
    by (intro Validate_valid smoke_config_valid) simp_all
  moreover have "BlockInterval (smoke_config (2 ^ 58) 5000) = 0"
    by (simp add: BlockInterval_def smoke_config_def Millisecond_def wrap64_def signed_take_bit_eq_if_positive bit_iff_odd take_bit_eq_mod)
  ultimately show ?thesis by (simp add: BlocksForPhase_def)
qed

end
