(* ===== verification/Stages.thy ===== *)
theory Stages imports L1_Node Config "HOL-Library.Multiset" begin

text \<open>
  The work of the pipeline's stages in \<^verbatim>\<open>internal/pipeline/runner.go\<close>, apart from the queues between
  them: generating a block's transfers, splitting a block over the lanes, collecting the lanes
  of a block again, and turning the finished block into a submission with its proof.
\<close>

section \<open>Ingress: synthetic transfers\<close>

definition synthetic_tx :: "u64 \<Rightarrow> nat \<Rightarrow> Tx12" where
  "synthetic_tx base i =
     (let sender = ucast (base + of_nat i) :: u32
      in \<lparr> SenderIndex = sender, ReceiverIndex = sender XOR 0x9e3779b9, Amount = of_nat (i mod 4096 + 1) \<rparr>)"

definition GenerateSyntheticTxs :: "u32 \<Rightarrow> int \<Rightarrow> Tx12 list" where
  "GenerateSyntheticTxs blockIndex txCount =
     (if txCount \<le> 0 then []
      else let base = (ucast blockIndex :: u64) * 1000000
           in map (synthetic_tx base) [0..<nat txCount])"

definition isPayloadValid :: "Tx12 \<Rightarrow> bool" where
  "isPayloadValid tx \<longleftrightarrow> 0 < Amount tx"

lemma isPayloadValid_iff: "isPayloadValid tx \<longleftrightarrow> Amount tx \<noteq> 0"
  by (simp add: isPayloadValid_def word_neq_0_conv)

lemma length_GenerateSyntheticTxs [simp]: "length (GenerateSyntheticTxs b n) = nat n"
  by (simp add: GenerateSyntheticTxs_def)

lemma synthetic_valid: "tx \<in> set (GenerateSyntheticTxs b n) \<Longrightarrow> isPayloadValid tx"
proof -
  have "(of_nat (i mod 4096 + 1) :: u32) \<noteq> 0" for i
  proof -
    have "i mod 4096 < 4096" by simp
    then have "unat (of_nat (i mod 4096 + 1) :: u32) = i mod 4096 + 1" by (intro unat_u32_small) simp
    then show ?thesis by (metis Suc_eq_plus1 nat.distinct(1) unat_0)
  qed
  then show "tx \<in> set (GenerateSyntheticTxs b n) \<Longrightarrow> isPayloadValid tx"
    by (auto simp: GenerateSyntheticTxs_def synthetic_tx_def isPayloadValid_iff Let_def split: if_splits)
qed

section \<open>Sequencer: splitting a block over the lanes\<close>

text \<open>The loop \<^verbatim>\<open>for i, tx := range job.Txs\<close>; there is at least one lane.\<close>

fun split_loop :: "nat \<Rightarrow> Tx12 list \<Rightarrow> Tx12 list list \<Rightarrow> Tx12 list list" where
  "split_loop i [] lanes = lanes"
| "split_loop i (tx # txs) lanes =
     (let lane = i mod length lanes in split_loop (Suc i) txs (lanes[lane := lanes ! lane @ [tx]]))"

definition split_lanes :: "nat \<Rightarrow> Tx12 list \<Rightarrow> Tx12 list list" where
  "split_lanes Lanes txs = split_loop 0 txs (replicate Lanes [])"

definition lane_batches :: "Config \<Rightarrow> BlockJob \<Rightarrow> LaneBatch list" where
  "lane_batches cfg job =
     (let lanes = split_lanes (nat (cfg_Lanes cfg)) (bj_Txs job)
      in map (\<lambda>laneID. \<lparr> lb_Phase = bj_Phase job, lb_BlockIndex = bj_BlockIndex job,
                         lb_LaneID = of_nat laneID, lb_Payload = lanes ! laneID,
                         lb_CreatedAt = bj_CreatedAt job \<rparr>) [0..<nat (cfg_Lanes cfg)])"

section \<open>Aggregator: collecting the lanes of a block\<close>

record aggregateState =
  as_phase :: string
  as_createdAt :: time
  as_laneHashes :: "(u16, hash) go_map"
  as_txCount :: u32
  as_txs :: "Tx12 list"

text \<open>The loop over a batch's transfers: invalid ones are counted as drops and left out.\<close>

fun collect_txs :: "Tx12 list \<Rightarrow> aggregateState \<Rightarrow> Registry \<Rightarrow> aggregateState \<times> Registry" where
  "collect_txs [] st m = (st, m)"
| "collect_txs (tx # txs) st m =
     (if \<not> isPayloadValid tx then collect_txs txs st (IncDrop 1 m)
      else collect_txs txs (st\<lparr> as_txCount := as_txCount st + 1, as_txs := as_txs st @ [tx] \<rparr>) m)"

definition new_aggregate :: "LaneBatch \<Rightarrow> aggregateState" where
  "new_aggregate batch = \<lparr> as_phase = lb_Phase batch, as_createdAt = lb_CreatedAt batch, as_laneHashes = [],
     as_txCount = 0, as_txs = [] \<rparr>"

type_synonym aggregates = "(u32, aggregateState) go_map"

text \<open>
  One batch: the new map, the metrics, and the commit if this was the block's last lane.  The
  entry is deleted when the commit has been queued, not here.  \<^const>\<open>None\<close> is the panic of the
  frame encoder.
\<close>

definition aggregate_batch ::
    "Config \<Rightarrow> LaneBatch \<Rightarrow> aggregates \<times> Registry \<Rightarrow> (BlockCommit option \<times> aggregates \<times> Registry) option" where
  "aggregate_batch cfg batch = (\<lambda>(states, m).
     let st = (case map_of states (lb_BlockIndex batch) of Some st \<Rightarrow> st | None \<Rightarrow> new_aggregate batch);
         bf = BuildLaneBatchFrame (lb_BlockIndex batch) (lb_LaneID batch) (lb_Payload batch)
     in case BatchFrameV1_CommitmentHash bf of
          Inl _ \<Rightarrow> None
        | Inr h \<Rightarrow>
            let st = st\<lparr> as_laneHashes := AList.update (lb_LaneID batch) h (as_laneHashes st) \<rparr>;
                (st, m) = collect_txs (lb_Payload batch) st m;
                states = AList.update (lb_BlockIndex batch) st states
            in Some (if int (length (as_laneHashes st)) = cfg_Lanes cfg
                     then Some \<lparr> bc_Phase = as_phase st, bc_BlockIndex = lb_BlockIndex batch,
                                 bc_CommitmentHash = CommitmentFromTxs (lb_BlockIndex batch) (as_txs st),
                                 bc_TxCount = as_txCount st, bc_Txs = as_txs st,
                                 bc_CreatedAt = as_createdAt st \<rparr>
                     else None, states, m))"

section \<open>Replayer: attaching the proof\<close>

text \<open>The injected fault flips the first byte of the record's own copy of the proof.\<close>

definition flip_first :: "byte list \<Rightarrow> byte list" where
  "flip_first p = (case p of [] \<Rightarrow> [] | b # bs \<Rightarrow> (b XOR 0xff) # bs)"

definition replay_request :: "Config \<Rightarrow> BlockCommit \<Rightarrow> ProofBook \<Rightarrow> SubmitRequest \<times> ProofBook" where
  "replay_request cfg commit book =
     (let (proofBytes, book) = ProofForBlock (bc_BlockIndex commit) book;
          proof = BuildProofRecord (bc_BlockIndex commit) (bc_CommitmentHash commit) proofBytes;
          proof = (if BadProofAt (cfg_Fault cfg) \<noteq> 0 \<and> BadProofAt (cfg_Fault cfg) = bc_BlockIndex commit
                   then proof\<lparr> pr_ProofBytes := flip_first (pr_ProofBytes proof) \<rparr> else proof)
      in (\<lparr> rq_Phase = bc_Phase commit, rq_BlockIndex = bc_BlockIndex commit,
            rq_CommitmentHash = bc_CommitmentHash commit, rq_Proof = proof, rq_TxCount = bc_TxCount commit,
            rq_Txs = bc_Txs commit, rq_CreatedAt = bc_CreatedAt commit \<rparr>, book))"

section \<open>The split is a round-robin partition\<close>

lemma length_split_loop [simp]: "length (split_loop i txs lanes) = length lanes"
  by (induction i txs lanes rule: split_loop.induct) (simp_all add: Let_def)

lemma length_split_lanes [simp]: "length (split_lanes n txs) = n"
  by (simp add: split_lanes_def)

lemma split_loop_lane:
  "k < length lanes \<Longrightarrow> split_loop i txs lanes ! k =
     lanes ! k @ map snd (filter (\<lambda>jt. fst jt mod length lanes = k) (enumerate i txs))"
proof (induction txs arbitrary: i lanes)
  case (Cons tx txs)
  then show ?case by (auto simp: Let_def nth_list_update)
qed simp

lemma mset_concat_append:
  "k < length lanes \<Longrightarrow> mset (concat (lanes[k := lanes ! k @ xs])) = mset (concat lanes) + mset xs"
proof (induction lanes arbitrary: k)
  case (Cons l lanes)
  then show ?case by (cases k) simp_all
qed simp

lemma mset_split_loop:
  "lanes \<noteq> [] \<Longrightarrow> mset (concat (split_loop i txs lanes)) = mset (concat lanes) + mset txs"
proof (induction txs arbitrary: i lanes)
  case (Cons tx txs)
  let ?k = "i mod length lanes"
  have k: "?k < length lanes" using Cons.prems by simp
  have "mset (concat (split_loop i (tx # txs) lanes))
      = mset (concat (lanes[?k := lanes ! ?k @ [tx]])) + mset txs"
    using Cons by (simp add: Let_def)
  then show ?case by (simp only: mset_concat_append [OF k]) simp
qed simp

lemma mset_split_lanes: "0 < n \<Longrightarrow> mset (concat (split_lanes n txs)) = mset txs"
  by (simp add: split_lanes_def mset_split_loop)

lemma set_split_lanes: "0 < n \<Longrightarrow> set (concat (split_lanes n txs)) = set txs"
  by (metis mset_split_lanes set_mset_mset)

lemma length_concat_split: "0 < n \<Longrightarrow> length (concat (split_lanes n txs)) = length txs"
  by (metis mset_split_lanes size_mset)

text \<open>The sequencer deals the transfers of a block out like cards: lane \<open>k\<close> gets, in order, the transfers at the
  positions congruent to \<open>k\<close>, and together the lanes hold every transfer exactly once.\<close>

theorem split_round_robin:
  assumes "0 < n"
  shows "(\<forall>k < n. split_lanes n txs ! k = map ((!) txs) (filter (\<lambda>i. i mod n = k) [0..<length txs]))
    \<and> mset (concat (split_lanes n txs)) = mset txs"
proof
  have e: "enumerate 0 txs = map (\<lambda>i. (i, txs ! i)) [0..<length txs]"
    by (rule nth_equalityI) (simp_all add: nth_enumerate_eq)
  show "\<forall>k < n. split_lanes n txs ! k = map ((!) txs) (filter (\<lambda>i. i mod n = k) [0..<length txs])"
    by (simp add: split_lanes_def split_loop_lane e filter_map comp_def)
qed (rule mset_split_lanes [OF assms])

theorem split_round_robin_witness:
  "split_lanes 2 (GenerateSyntheticTxs 0 3) ! 1 = map ((!) (GenerateSyntheticTxs 0 3)) [1]"
  using split_round_robin [of 2 "GenerateSyntheticTxs 0 3"] by (simp add: upt_rec)

section \<open>The aggregator puts a block together\<close>

lemma collect_txs_eq [agg_simps]:
  "collect_txs txs st m =
     (st\<lparr> as_txCount := as_txCount st + of_nat (length (filter isPayloadValid txs)),
          as_txs := as_txs st @ filter isPayloadValid txs \<rparr>,
      IncDrop (of_nat (length (filter (\<lambda>tx. \<not> isPayloadValid tx) txs))) m)"
  by (induction txs st m rule: collect_txs.induct) (simp_all add: IncDrop_def add.assoc)

text \<open>
  The aggregator's loop over a list of batches, with the deletion of a block whose commit has
  been queued.
\<close>

fun collect_batches ::
    "Config \<Rightarrow> LaneBatch list \<Rightarrow> aggregates \<times> Registry \<Rightarrow> (BlockCommit list \<times> aggregates \<times> Registry) option" where
  "collect_batches cfg [] s = Some ([], s)"
| "collect_batches cfg (b # bs) s =
     (case aggregate_batch cfg b s of
        None \<Rightarrow> None
      | Some (c, states, m) \<Rightarrow>
          (let states = (case c of None \<Rightarrow> states | Some _ \<Rightarrow> AList.delete (lb_BlockIndex b) states)
           in case collect_batches cfg bs (states, m) of
                None \<Rightarrow> None
              | Some (cs, s') \<Rightarrow> Some ((case c of None \<Rightarrow> cs | Some x \<Rightarrow> x # cs), s')))"

definition lane_batch :: "BlockJob \<Rightarrow> Tx12 list list \<Rightarrow> nat \<Rightarrow> LaneBatch" where
  "lane_batch job lanes k = \<lparr> lb_Phase = bj_Phase job, lb_BlockIndex = bj_BlockIndex job,
     lb_LaneID = of_nat k, lb_Payload = lanes ! k, lb_CreatedAt = bj_CreatedAt job \<rparr>"

lemma lane_batch_fields [simp]:
  "lb_Phase (lane_batch job lanes k) = bj_Phase job"
  "lb_BlockIndex (lane_batch job lanes k) = bj_BlockIndex job"
  "lb_LaneID (lane_batch job lanes k) = of_nat k"
  "lb_Payload (lane_batch job lanes k) = lanes ! k"
  "lb_CreatedAt (lane_batch job lanes k) = bj_CreatedAt job"
  by (simp_all add: lane_batch_def)

text \<open>The commit that lanes with given transfers lead to.\<close>

definition lanes_commit :: "BlockJob \<Rightarrow> Tx12 list list \<Rightarrow> BlockCommit" where
  "lanes_commit job lanes =
     (let txs = filter isPayloadValid (concat lanes)
      in \<lparr> bc_Phase = bj_Phase job, bc_BlockIndex = bj_BlockIndex job,
           bc_CommitmentHash = CommitmentFromTxs (bj_BlockIndex job) txs,
           bc_TxCount = of_nat (length txs), bc_Txs = txs, bc_CreatedAt = bj_CreatedAt job \<rparr>)"

definition job_commit :: "Config \<Rightarrow> BlockJob \<Rightarrow> BlockCommit" where
  "job_commit cfg job = lanes_commit job (split_lanes (nat (cfg_Lanes cfg)) (bj_Txs job))"

lemma lanes_commit_fields [simp]:
  "bc_BlockIndex (lanes_commit job lanes) = bj_BlockIndex job"
  "bc_Phase (lanes_commit job lanes) = bj_Phase job"
  "bc_CreatedAt (lanes_commit job lanes) = bj_CreatedAt job"
  "bc_Txs (lanes_commit job lanes) = filter isPayloadValid (concat lanes)"
  "bc_CommitmentHash (lanes_commit job lanes) = CommitmentFromTxs (bj_BlockIndex job) (bc_Txs (lanes_commit job lanes))"
  "bc_TxCount (lanes_commit job lanes) = of_nat (length (bc_Txs (lanes_commit job lanes)))"
  by (simp_all add: lanes_commit_def Let_def)

text \<open>The aggregate of a block after the first \<open>k\<close> lanes.\<close>

definition partial_aggregate :: "BlockJob \<Rightarrow> Tx12 list list \<Rightarrow> nat \<Rightarrow> aggregateState \<Rightarrow> bool" where
  "partial_aggregate job lanes k st \<longleftrightarrow>
     as_phase st = bj_Phase job \<and> as_createdAt st = bj_CreatedAt job
     \<and> map fst (as_laneHashes st) = map of_nat [0..<k]
     \<and> as_txs st = filter isPayloadValid (concat (take k lanes))
     \<and> as_txCount st = of_nat (length (as_txs st))"

lemma lane_batches_eq:
  "lane_batches cfg job = map (lane_batch job (split_lanes (nat (cfg_Lanes cfg)) (bj_Txs job))) [0..<nat (cfg_Lanes cfg)]"
  by (simp add: lane_batches_def lane_batch_def Let_def)

lemma CommitmentHash_ok:
  "length (bf_Payload b) < 2 ^ 32 \<Longrightarrow> \<exists>h. BatchFrameV1_CommitmentHash b = Inr h"
  by (simp add: BatchFrameV1_CommitmentHash_def MarshalBinary_layout)

lemma aggregate_lane:
  assumes k: "k < length lanes" "length lanes \<le> 2 ^ 16" and small: "length (lanes ! k) < 2 ^ 32"
    and st: "case map_of states (bj_BlockIndex job) of
        Some st \<Rightarrow> partial_aggregate job lanes k st | None \<Rightarrow> k = 0"
  shows "\<exists>st'. partial_aggregate job lanes (Suc k) st'
    \<and> aggregate_batch cfg (lane_batch job lanes k) (states, m)
      = Some (if int (Suc k) = cfg_Lanes cfg
              then Some \<lparr> bc_Phase = as_phase st', bc_BlockIndex = bj_BlockIndex job,
                         bc_CommitmentHash = CommitmentFromTxs (bj_BlockIndex job) (as_txs st'),
                         bc_TxCount = as_txCount st', bc_Txs = as_txs st', bc_CreatedAt = as_createdAt st' \<rparr>
              else None,
              AList.update (bj_BlockIndex job) st' states,
              IncDrop (of_nat (length (filter (\<lambda>tx. \<not> isPayloadValid tx) (lanes ! k)))) m)"
proof -
  let ?batch = "lane_batch job lanes k"
  define st where "st = (case map_of states (bj_BlockIndex job) of Some st \<Rightarrow> st | None \<Rightarrow> new_aggregate ?batch)"
  have p: "partial_aggregate job lanes k st"
    using assms(4) by (cases "map_of states (bj_BlockIndex job)")
      (auto simp: st_def partial_aggregate_def new_aggregate_def)
  obtain h where h: "BatchFrameV1_CommitmentHash
      (BuildLaneBatchFrame (bj_BlockIndex job) (of_nat k) (lanes ! k)) = Inr h"
    using CommitmentHash_ok [of "BuildLaneBatchFrame (bj_BlockIndex job) (of_nat k) (lanes ! k)"] small
    by (auto simp: BuildLaneBatchFrame_def)
  have new: "(of_nat k :: u16) \<notin> fst ` set (as_laneHashes st)"
  proof -
    have "(of_nat k :: u16) \<noteq> of_nat j" if "j < k" for j
      using u16_of_nat_inj [of k j] that k by simp
    moreover have "fst ` set (as_laneHashes st) = of_nat ` {0..<k}"
      using p by (metis partial_aggregate_def list.set_map set_upt)
    ultimately show ?thesis by (metis atLeastLessThan_iff imageE)
  qed
  let ?vs = "filter isPayloadValid (lanes ! k)"
  let ?st' = "st\<lparr> as_laneHashes := as_laneHashes st @ [(of_nat k, h)],
      as_txCount := as_txCount st + of_nat (length ?vs), as_txs := as_txs st @ ?vs \<rparr>"
  have len: "length (as_laneHashes st) = k"
    using p by (metis partial_aggregate_def length_map length_upt minus_nat.diff_0)
  have "partial_aggregate job lanes (Suc k) ?st'"
    using p k(1) by (simp add: partial_aggregate_def take_Suc_conv_app_nth)
  moreover have "aggregate_batch cfg ?batch (states, m)
      = Some (if int (Suc k) = cfg_Lanes cfg
              then Some \<lparr> bc_Phase = as_phase ?st', bc_BlockIndex = bj_BlockIndex job,
                         bc_CommitmentHash = CommitmentFromTxs (bj_BlockIndex job) (as_txs ?st'),
                         bc_TxCount = as_txCount ?st', bc_Txs = as_txs ?st', bc_CreatedAt = as_createdAt ?st' \<rparr>
              else None,
              AList.update (bj_BlockIndex job) ?st' states,
              IncDrop (of_nat (length (filter (\<lambda>tx. \<not> isPayloadValid tx) (lanes ! k)))) m)"
    using h len st_def [symmetric] update_new [OF new, of h]
    by (simp add: aggregate_batch_def collect_txs_eq Let_def)
  ultimately show ?thesis by blast
qed

definition invalid_count :: "Tx12 list \<Rightarrow> nat" where
  "invalid_count txs = length (filter (\<lambda>tx. \<not> isPayloadValid tx) txs)"

lemma invalid_count_append [simp]: "invalid_count (xs @ ys) = invalid_count xs + invalid_count ys"
  by (simp add: invalid_count_def)

lemma invalid_count_mset: "invalid_count txs = size (filter_mset (\<lambda>tx. \<not> isPayloadValid tx) (mset txs))"
  by (simp add: invalid_count_def flip: mset_filter)

lemma IncDrop_IncDrop [simp]: "IncDrop a (IncDrop b m) = IncDrop (b + a) m"
  by (simp add: IncDrop_def add.assoc)

lemma IncDrop_0 [simp]: "IncDrop 0 m = m"
  by (simp add: IncDrop_def)

lemma collect_lanes:
  fixes cfg job
  defines "n \<equiv> nat (cfg_Lanes cfg)" and "b \<equiv> bj_BlockIndex job"
  assumes lanes: "length lanes = n" "0 < cfg_Lanes cfg" "n \<le> 2 ^ 16"
    and small: "\<And>l. l \<in> set lanes \<Longrightarrow> length l < 2 ^ 32"
  shows "k < n \<Longrightarrow> (case map_of states b of Some st \<Rightarrow> partial_aggregate job lanes k st | None \<Rightarrow> k = 0)
    \<Longrightarrow> collect_batches cfg (map (lane_batch job lanes) [k..<n]) (states, m)
      = Some ([lanes_commit job lanes], AList.delete b states,
              IncDrop (of_nat (invalid_count (concat (drop k lanes)))) m)"
proof (induction "n - k" arbitrary: k states m)
  case 0
  then show ?case by simp
next
  case (Suc d)
  have small_k: "length (lanes ! k) < 2 ^ 32" using small lanes(1) Suc.prems(1) by simp
  obtain st' where st': "partial_aggregate job lanes (Suc k) st'"
    and agg: "aggregate_batch cfg (lane_batch job lanes k) (states, m)
      = Some (if int (Suc k) = cfg_Lanes cfg
              then Some \<lparr> bc_Phase = as_phase st', bc_BlockIndex = b,
                         bc_CommitmentHash = CommitmentFromTxs b (as_txs st'),
                         bc_TxCount = as_txCount st', bc_Txs = as_txs st', bc_CreatedAt = as_createdAt st' \<rparr>
              else None, AList.update b st' states, IncDrop (of_nat (invalid_count (lanes ! k))) m)"
    using aggregate_lane [where k = k and lanes = lanes and states = states and job = job and cfg = cfg and m = m] lanes small_k Suc.prems
    unfolding b_def invalid_count_def by auto
  have upt: "[k..<n] = k # [Suc k..<n]" using Suc.prems(1) by (rule upt_conv_Cons)
  have drop: "drop k lanes = lanes ! k # drop (Suc k) lanes"
    using Suc.prems(1) lanes(1) by (simp add: Cons_nth_drop_Suc)
  show ?case
  proof (cases "Suc k = n")
    case True
    then have last: "int (Suc k) = cfg_Lanes cfg" using lanes(2) by (simp add: n_def)
    have "take (Suc k) lanes = lanes" using True lanes(1) by simp
    then have "lanes_commit job lanes = \<lparr> bc_Phase = as_phase st', bc_BlockIndex = b,
        bc_CommitmentHash = CommitmentFromTxs b (as_txs st'), bc_TxCount = as_txCount st',
        bc_Txs = as_txs st', bc_CreatedAt = as_createdAt st' \<rparr>"
      using st' by (simp add: lanes_commit_def partial_aggregate_def Let_def b_def)
    then show ?thesis
      using agg last True lanes(1) by (simp add: upt drop delete_update_same invalid_count_def flip: b_def)
  next
    case False
    then have "int (Suc k) \<noteq> cfg_Lanes cfg" "Suc k < n" using Suc.prems(1) lanes(2) by (auto simp: n_def)
    have rest: "collect_batches cfg (map (lane_batch job lanes) [Suc k..<n])
          (AList.update b st' states, IncDrop (of_nat (invalid_count (lanes ! k))) m)
        = Some ([lanes_commit job lanes], AList.delete b (AList.update b st' states),
            IncDrop (of_nat (invalid_count (concat (drop (Suc k) lanes))))
              (IncDrop (of_nat (invalid_count (lanes ! k))) m))"
      using Suc.hyps(2) st' \<open>Suc k < n\<close> by (intro Suc.hyps(1)) simp_all
    show ?thesis
      using agg rest \<open>int (Suc k) \<noteq> cfg_Lanes cfg\<close> by (simp add: upt drop delete_update_same flip: b_def)
  qed
qed

lemma lane_small:
  assumes "0 < n" "length txs < 2 ^ 32" "l \<in> set (split_lanes n txs)" shows "length l < 2 ^ 32"
proof -
  have "length l \<le> length (concat (split_lanes n txs))"
    using member_le_sum_list [of "length l" "map length (split_lanes n txs)"] assms(3)
    by (simp add: length_concat)
  then show ?thesis using assms(1,2) length_concat_split [of n txs] by linarith
qed

text \<open>The aggregator undoes the split: fed with the batches of a block that it has not seen, it emits one commit, after
  the last lane, whose transfers are the block's valid transfers lane by lane, whose count and commitment are those
  of that list, and it keeps nothing of the block; every invalid transfer is counted as one drop.\<close>

theorem aggregate_job:
  assumes "0 < cfg_Lanes cfg" "cfg_Lanes cfg \<le> 2 ^ 16" "length (bj_Txs job) < 2 ^ 32"
    and "map_of states (bj_BlockIndex job) = None"
  shows "collect_batches cfg (lane_batches cfg job) (states, m)
    = Some ([job_commit cfg job], states, IncDrop (of_nat (invalid_count (bj_Txs job))) m)"
proof -
  let ?n = "nat (cfg_Lanes cfg)" and ?b = "bj_BlockIndex job"
  let ?lanes = "split_lanes ?n (bj_Txs job)"
  have "invalid_count (concat ?lanes) = invalid_count (bj_Txs job)"
    using mset_split_lanes [of ?n "bj_Txs job"] assms(1) by (simp add: invalid_count_mset)
  moreover have "AList.delete ?b states = states"
    using assms(4) by (simp add: delete_id map_of_eq_None_iff)
  ultimately show ?thesis
    using collect_lanes [where lanes = ?lanes and cfg = cfg and job = job and k = 0 and states = states and m = m] assms lane_small [of ?n "bj_Txs job"]
    by (simp add: lane_batches_eq nat_le_iff job_commit_def)
qed

theorem aggregate_job_witness:
  "collect_batches (smoke_config 200 5000)
     (lane_batches (smoke_config 200 5000)
       \<lparr> bj_Phase = ''warmup'', bj_BlockIndex = 7, bj_Txs = GenerateSyntheticTxs 7 5, bj_CreatedAt = 0 \<rparr>)
     ([], NewRegistry)
   = Some ([job_commit (smoke_config 200 5000)
       \<lparr> bj_Phase = ''warmup'', bj_BlockIndex = 7, bj_Txs = GenerateSyntheticTxs 7 5, bj_CreatedAt = 0 \<rparr>],
       [], NewRegistry)"
proof -
  let ?job = "\<lparr> bj_Phase = ''warmup'', bj_BlockIndex = 7, bj_Txs = GenerateSyntheticTxs 7 5, bj_CreatedAt = 0 \<rparr>"
  have "invalid_count (bj_Txs ?job) = 0"
    using synthetic_valid [of _ 7 5] by (auto simp: invalid_count_def filter_empty_conv)
  then show ?thesis
    using aggregate_job [of "smoke_config 200 5000" ?job "[]" NewRegistry] by simp
qed

section \<open>The replayer's submissions\<close>

definition bad_block :: "Config \<Rightarrow> u32 \<Rightarrow> bool" where
  "bad_block cfg b \<longleftrightarrow> BadProofAt (cfg_Fault cfg) \<noteq> 0 \<and> BadProofAt (cfg_Fault cfg) = b"

lemma flip_first_neq: "p \<noteq> [] \<Longrightarrow> flip_first p \<noteq> p"
proof (cases p)
  case (Cons b bs)
  have "bit (b XOR 0xff) 0 \<noteq> bit b 0" by (simp add: bit_xor_iff)
  then have "b XOR 0xff \<noteq> b" by auto
  then show ?thesis using Cons by (simp add: flip_first_def)
qed simp

lemma replay_request_book [simp]:
  "book_view (snd (replay_request cfg c book)) = book_view book"
  by (simp add: replay_request_def ProofForBlock_def Let_def split: prod.split) (metis EnsureBlock_view snd_conv)

lemma replay_request_fields [simp]:
  "rq_BlockIndex (fst (replay_request cfg c book)) = bc_BlockIndex c"
  "rq_CommitmentHash (fst (replay_request cfg c book)) = bc_CommitmentHash c"
  "rq_TxCount (fst (replay_request cfg c book)) = bc_TxCount c"
  "rq_Txs (fst (replay_request cfg c book)) = bc_Txs c"
  "rq_Phase (fst (replay_request cfg c book)) = bc_Phase c"
  "rq_CreatedAt (fst (replay_request cfg c book)) = bc_CreatedAt c"
  by (simp_all add: replay_request_def Let_def split: prod.split)

lemma replay_request_proof:
  "rq_Proof (fst (replay_request cfg c book)) =
     \<lparr> pr_BlockIndex = bc_BlockIndex c, pr_CommitmentHash = bc_CommitmentHash c,
       pr_ProofBytes = (if bad_block cfg (bc_BlockIndex c) then flip_first (book_view book (bc_BlockIndex c))
                        else book_view book (bc_BlockIndex c)) \<rparr>"
proof -
  obtain p book' where e: "EnsureBlock (bc_BlockIndex c) book = (p, book')" "p = book_view book (bc_BlockIndex c)"
    by (metis EnsureBlock_fst fst_conv surj_pair)
  have r: "BuildProofRecord b h x = \<lparr> pr_BlockIndex = b, pr_CommitmentHash = h, pr_ProofBytes = x \<rparr>" for b h x
    by (simp add: BuildProofRecord_def copy_into_def Let_def)
  show ?thesis using e by (simp add: replay_request_def ProofForBlock_def bad_block_def Let_def r)
qed

lemma job_commit_fields [simp]:
  "bc_BlockIndex (job_commit cfg job) = bj_BlockIndex job"
  "bc_Phase (job_commit cfg job) = bj_Phase job"
  "bc_CreatedAt (job_commit cfg job) = bj_CreatedAt job"
  "bc_CommitmentHash (job_commit cfg job) = CommitmentFromTxs (bj_BlockIndex job) (bc_Txs (job_commit cfg job))"
  "bc_TxCount (job_commit cfg job) = of_nat (length (bc_Txs (job_commit cfg job)))"
  by (simp_all add: job_commit_def)

lemma job_commit_txs:
  "bc_Txs (job_commit cfg job) = filter isPayloadValid (concat (split_lanes (nat (cfg_Lanes cfg)) (bj_Txs job)))"
  by (simp add: job_commit_def)

lemma mset_job_commit:
  "0 < cfg_Lanes cfg \<Longrightarrow> mset (bc_Txs (job_commit cfg job)) = mset (filter isPayloadValid (bj_Txs job))"
  using mset_split_lanes [of "nat (cfg_Lanes cfg)" "bj_Txs job"] by (simp add: job_commit_txs)

lemma job_commit_valid: "tx \<in> set (bc_Txs (job_commit cfg job)) \<Longrightarrow> Amount tx \<noteq> 0"
  by (auto simp: job_commit_txs isPayloadValid_iff)

text \<open>A commit whose hash and count are those of its transfers, all of them valid.\<close>

definition sound_commit :: "BlockCommit \<Rightarrow> bool" where
  "sound_commit c \<longleftrightarrow> bc_CommitmentHash c = CommitmentFromTxs (bc_BlockIndex c) (bc_Txs c)
     \<and> bc_TxCount c = of_nat (length (bc_Txs c)) \<and> (\<forall>tx \<in> set (bc_Txs c). Amount tx \<noteq> 0)"

lemma sound_lanes_commit [simp]: "sound_commit (lanes_commit job lanes)"
  by (auto simp: sound_commit_def isPayloadValid_iff)

lemma sound_job_commit [simp]: "sound_commit (job_commit cfg job)"
  by (simp add: job_commit_def)

lemma replay_accepts_commit:
  assumes "book_view book (bc_BlockIndex c) = GenerateProofBytes seed (bc_BlockIndex c)" "sound_commit c"
  shows "l1_accepts seed (fst (replay_request cfg c book)) \<longleftrightarrow> \<not> bad_block cfg (bc_BlockIndex c)"
proof -
  have "GenerateProofBytes seed (bc_BlockIndex c) \<noteq> []"
    using length_GenerateProofBytes [of seed "bc_BlockIndex c"] by force
  then show ?thesis
    using assms flip_first_neq by (auto simp: l1_accepts_def replay_request_proof sound_commit_def)
qed

lemma replay_accepts:
  assumes "book_view book (bj_BlockIndex job) = GenerateProofBytes seed (bj_BlockIndex job)"
  shows "l1_accepts seed (fst (replay_request cfg (job_commit cfg job) book))
    \<longleftrightarrow> \<not> bad_block cfg (bj_BlockIndex job)"
  using replay_accepts_commit [of book "job_commit cfg job" seed cfg] assms by simp

text \<open>Moving the transfers of a block around changes no balance.\<close>

lemma net_flow_mset: "mset xs = mset ys \<Longrightarrow> net_flow xs i = net_flow ys i"
proof -
  have "sum_list (map f zs) = sum_mset (image_mset f (mset zs))" for f :: "Tx12 \<Rightarrow> i64" and zs
    by (simp add: sum_mset_sum_list flip: mset_map)
  then show "mset xs = mset ys \<Longrightarrow> net_flow xs i = net_flow ys i" by (simp add: net_flow_def)
qed

lemma certify_commit:
  assumes "book_view book (bc_BlockIndex c) = GenerateProofBytes (l1_proofSeed n) (bc_BlockIndex c)"
    and "map_of (l1_blocks n) (bc_BlockIndex c) = None" "sound_commit c"
  shows "rs_Finalized (fst (SubmitCertifiedBlock now (fst (replay_request cfg c book)) n))
      = (\<not> bad_block cfg (bc_BlockIndex c))"
    and "Balance i (snd (SubmitCertifiedBlock now (fst (replay_request cfg c book)) n)) = Balance i n
        + (if bad_block cfg (bc_BlockIndex c) then 0 else net_flow (bc_Txs c) i)"
proof -
  let ?req = "fst (replay_request cfg c book)"
  have a: "applies ?req n \<longleftrightarrow> \<not> bad_block cfg (bc_BlockIndex c)"
    using replay_accepts_commit [OF assms(1,3)] assms(2) by (simp add: applies_def)
  show "rs_Finalized (fst (SubmitCertifiedBlock now ?req n)) = (\<not> bad_block cfg (bc_BlockIndex c))"
    using replay_accepts_commit [OF assms(1,3)] assms(2) by (simp add: Submit_finalized_iff Submit_accepted_iff)
  show "Balance i (snd (SubmitCertifiedBlock now ?req n)) = Balance i n
      + (if bad_block cfg (bc_BlockIndex c) then 0 else net_flow (bc_Txs c) i)"
  proof (cases "bad_block cfg (bc_BlockIndex c)")
    case True
    then show ?thesis using Submit_unchanged(2) [of ?req n] a by (simp add: Balance_def)
  next
    case False
    then show ?thesis using Submit_applies(2) [of ?req n now] a by (simp add: Balance_def apply_loop_balance)
  qed
qed

text \<open>From the job to the balances: when the book holds the node's proofs, a new block is accepted and finalized unless
  it is the one chosen for the injected bad proof; accepted, it moves every account's balance by exactly what the
  valid transfers of the job move, whatever the number of lanes; the bad block moves nothing.\<close>

theorem certify_job:
  assumes "0 < cfg_Lanes cfg"
    and "book_view book (bj_BlockIndex job) = GenerateProofBytes (l1_proofSeed n) (bj_BlockIndex job)"
    and "map_of (l1_blocks n) (bj_BlockIndex job) = None"
  shows "let out = SubmitCertifiedBlock now (fst (replay_request cfg (job_commit cfg job) book)) n in
    rs_Finalized (fst out) = (\<not> bad_block cfg (bj_BlockIndex job))
    \<and> Balance i (snd out) = Balance i n
        + (if bad_block cfg (bj_BlockIndex job) then 0 else net_flow (filter isPayloadValid (bj_Txs job)) i)"
proof -
  have "net_flow (bc_Txs (job_commit cfg job)) i = net_flow (filter isPayloadValid (bj_Txs job)) i"
    by (rule net_flow_mset) (rule mset_job_commit [OF assms(1)])
  then show ?thesis
    using certify_commit [where c = "job_commit cfg job" and book = book and n = n and cfg = cfg and now = now] assms(2,3)
    by (simp add: Let_def)
qed

theorem certify_job_witness:
  "rs_Finalized (fst (SubmitCertifiedBlock 9
     (fst (replay_request (smoke_config 200 5000) (job_commit (smoke_config 200 5000)
       \<lparr> bj_Phase = ''warmup'', bj_BlockIndex = 7, bj_Txs = GenerateSyntheticTxs 7 5, bj_CreatedAt = 0 \<rparr>)
       (NewProofBook ''s'')))
     (NewL1CertNode ''s'' NewRegistry)))"
proof -
  let ?job = "\<lparr> bj_Phase = ''warmup'', bj_BlockIndex = 7, bj_Txs = GenerateSyntheticTxs 7 5, bj_CreatedAt = 0 \<rparr>"
  have "book_view (NewProofBook ''s'') (bj_BlockIndex ?job)
      = GenerateProofBytes (l1_proofSeed (NewL1CertNode ''s'' NewRegistry)) (bj_BlockIndex ?job)"
    "map_of (l1_blocks (NewL1CertNode ''s'' NewRegistry)) (bj_BlockIndex ?job) = None"
    "\<not> bad_block (smoke_config 200 5000) (bj_BlockIndex ?job)"
    by (simp_all add: NewL1CertNode_def bad_block_def)
  then show ?thesis
    using certify_job [of "smoke_config 200 5000" "NewProofBook ''s''" ?job "NewL1CertNode ''s'' NewRegistry" 9]
    by (simp only: Let_def smoke_config_fields simp_thms zero_less_numeral)
qed

end
