(* ===== verification/Go_Json.thy ===== *)
theory Go_Json imports Go_Bytes Go_Fmt begin

text \<open>
  \<^verbatim>\<open>encoding/json\<close>, as far as the services use it: the encoder's rendering of flat structs, and a decoder
  that scans one JSON value and stores the members of an object into the fields of a struct.  Strings are
  the byte strings of Go; bytes from 128 on are copied as they are, which is what both directions do
  with valid UTF-8 text (Go's encoder also escapes U+2028 and U+2029, which no caller sends).
\<close>

section \<open>Values\<close>

text \<open>A number is kept as the text it was written with, as the decoder does until it knows the field.\<close>

datatype json =
    JNull
  | JBool bool
  | JNum string
  | JStr string
  | JArr "json list"
  | JObj "(string \<times> json) list"

section \<open>The encoder\<close>

definition byte_hex :: "char \<Rightarrow> string" where
  "byte_hex c = EncodeToString [of_nat (of_char c)]"

text \<open>One byte of a string; HTML characters are escaped by default.\<close>

definition json_escape :: "char \<Rightarrow> string" where
  "json_escape c =
     (if c = CHR 0x22 \<or> c = CHR 0x5C then [CHR 0x5C, c]
      else if c = CHR 0x08 then [CHR 0x5C, CHR ''b'']
      else if c = CHR 0x0C then [CHR 0x5C, CHR ''f'']
      else if c = CHR 0x0A then [CHR 0x5C, CHR ''n'']
      else if c = CHR 0x0D then [CHR 0x5C, CHR ''r'']
      else if c = CHR 0x09 then [CHR 0x5C, CHR ''t'']
      else if (of_char c :: nat) < 32 \<or> c = CHR ''<'' \<or> c = CHR ''>'' \<or> c = CHR ''&''
        then [CHR 0x5C, CHR ''u'', CHR ''0'', CHR ''0''] @ byte_hex c
      else [c])"

definition json_string :: "string \<Rightarrow> string" where
  "json_string s = CHR 0x22 # concat (map json_escape s) @ [CHR 0x22]"

text \<open>A struct: the members in declaration order, each value already rendered.\<close>

fun json_members :: "(string \<times> string) list \<Rightarrow> string" where
  "json_members [] = []"
| "json_members [(k, v)] = json_string k @ CHR '':'' # v"
| "json_members ((k, v) # ms) = json_string k @ CHR '':'' # v @ CHR '','' # json_members ms"

definition json_object :: "(string \<times> string) list \<Rightarrow> string" where
  "json_object ms = CHR ''{'' # json_members ms @ ''}''"

section \<open>The scanner\<close>

definition json_space :: "char \<Rightarrow> bool" where
  "json_space c \<longleftrightarrow> c = CHR '' '' \<or> c = CHR 0x09 \<or> c = CHR 0x0A \<or> c = CHR 0x0D"

definition skip_space :: "string \<Rightarrow> string" where
  "skip_space s = dropWhile json_space s"

text \<open>The next token, if it is this character.\<close>

definition expect :: "char \<Rightarrow> string \<Rightarrow> string option" where
  "expect c s = (case skip_space s of [] \<Rightarrow> None | d # r \<Rightarrow> if d = c then Some r else None)"

definition hex4 :: "string \<Rightarrow> (nat \<times> string) option" where
  "hex4 s = (case DecodeString (take 4 s) of
     Inr [hi, lo] \<Rightarrow> Some (256 * unat hi + unat lo, drop 4 s) | _ \<Rightarrow> None)"

definition utf8 :: "nat \<Rightarrow> string" where
  "utf8 n = map char_of
     (if n < 0x80 then [n]
      else if n < 0x800 then [0xC0 + n div 64, 0x80 + n mod 64]
      else if n < 0x10000 then [0xE0 + n div 4096, 0x80 + n div 64 mod 64, 0x80 + n mod 64]
      else [0xF0 + n div 262144, 0x80 + n div 4096 mod 64, 0x80 + n div 64 mod 64, 0x80 + n mod 64])"

text \<open>What follows \<^verbatim>\<open>\u\<close>: a code unit, or a surrogate pair; a lone surrogate becomes U+FFFD.\<close>

definition unescape_u :: "string \<Rightarrow> (string \<times> string) option" where
  "unescape_u s = (case hex4 s of
     None \<Rightarrow> None
   | Some (n, r) \<Rightarrow>
       if n < 0xD800 \<or> 0xE000 \<le> n then Some (utf8 n, r)
       else if n < 0xDC00 \<and> take 2 r = [CHR 0x5C, CHR ''u'']
         then (case hex4 (drop 2 r) of
                 Some (m, r') \<Rightarrow> if 0xDC00 \<le> m \<and> m < 0xE000
                   then Some (utf8 (0x10000 + (n - 0xD800) * 0x400 + (m - 0xDC00)), r') else Some (utf8 0xFFFD, r)
               | None \<Rightarrow> Some (utf8 0xFFFD, r))
       else Some (utf8 0xFFFD, r))"

definition unescape :: "char \<Rightarrow> char option" where
  "unescape c = (if c = CHR 0x22 \<or> c = CHR 0x5C \<or> c = CHR ''/'' then Some c
     else if c = CHR ''b'' then Some (CHR 0x08) else if c = CHR ''f'' then Some (CHR 0x0C)
     else if c = CHR ''n'' then Some (CHR 0x0A) else if c = CHR ''r'' then Some (CHR 0x0D)
     else if c = CHR ''t'' then Some (CHR 0x09) else None)"

lemma hex4_shorter: "hex4 s = Some (n, r) \<Longrightarrow> length r < length s"
proof -
  assume h: "hex4 s = Some (n, r)"
  then have "s \<noteq> []" by (auto simp: hex4_def)
  then show "length r < length s" using h by (auto simp: hex4_def split: sum.splits list.splits)
qed

lemma unescape_u_shorter: "unescape_u s = Some (bs, r) \<Longrightarrow> length r < length s"
proof -
  assume u: "unescape_u s = Some (bs, r)"
  then obtain n r' where h: "hex4 s = Some (n, r')" by (auto simp: unescape_u_def split: option.splits)
  show "length r < length s"
  proof (cases "r = r'")
    case False
    with u h obtain m where "hex4 (drop 2 r') = Some (m, r)"
      by (auto simp: unescape_u_def split: if_splits option.splits)
    then have "length r < length (drop 2 r')" by (rule hex4_shorter)
    then show ?thesis using hex4_shorter [OF h] by simp
  qed (use hex4_shorter [OF h] in simp)
qed

text \<open>A string after its opening quote.\<close>

function parse_string :: "string \<Rightarrow> (string \<times> string) option" where
  "parse_string [] = None"
| "parse_string (c # s) =
     (if c = CHR 0x22 then Some ([], s)
      else if c = CHR 0x5C then
        (case s of
           [] \<Rightarrow> None
         | e # r \<Rightarrow>
             if e = CHR ''u'' then
               (case unescape_u r of
                  None \<Rightarrow> None
                | Some (bs, r') \<Rightarrow> map_option (\<lambda>(t, rest). (bs @ t, rest)) (parse_string r'))
             else
               (case unescape e of
                  None \<Rightarrow> None
                | Some x \<Rightarrow> map_option (\<lambda>(t, rest). (x # t, rest)) (parse_string r)))
      else if (of_char c :: nat) < 32 then None
      else map_option (\<lambda>(t, rest). (c # t, rest)) (parse_string s))"
  by pat_completeness auto
termination
  by (relation "measure length") (auto dest: unescape_u_shorter)

definition digit :: "char \<Rightarrow> bool" where
  "digit c \<longleftrightarrow> 48 \<le> (of_char c :: nat) \<and> (of_char c :: nat) \<le> 57"

text \<open>An optional part of a number: digits after a mark, of which there must be one.\<close>

definition parse_digits :: "string \<Rightarrow> (string \<times> string) option" where
  "parse_digits s = (case takeWhile digit s of [] \<Rightarrow> None | ds \<Rightarrow> Some (ds, dropWhile digit s))"

definition parse_fraction :: "string \<Rightarrow> (string \<times> string) option" where
  "parse_fraction s = (case s of
     c # r \<Rightarrow> if c = CHR ''.'' then map_option (\<lambda>(ds, r'). (c # ds, r')) (parse_digits r) else Some ([], s)
   | [] \<Rightarrow> Some ([], s))"

definition parse_exponent :: "string \<Rightarrow> (string \<times> string) option" where
  "parse_exponent s = (case s of
     c # r \<Rightarrow> if c = CHR ''e'' \<or> c = CHR ''E'' then
         (case r of
            sg # r' \<Rightarrow> if sg = CHR ''+'' \<or> sg = CHR ''-''
              then map_option (\<lambda>(ds, q). (c # sg # ds, q)) (parse_digits r')
              else map_option (\<lambda>(ds, q). (c # ds, q)) (parse_digits r)
          | [] \<Rightarrow> None)
       else Some ([], s)
   | [] \<Rightarrow> Some ([], s))"

definition parse_number :: "string \<Rightarrow> (string \<times> string) option" where
  "parse_number s =
     (let (sign, s1) = (case s of c # r \<Rightarrow> if c = CHR ''-'' then ([c], r) else ([], s) | [] \<Rightarrow> ([], s))
      in case parse_digits s1 of
           None \<Rightarrow> None
         | Some (ds, r) \<Rightarrow>
             let (whole, r) = (if hd ds = CHR ''0'' then ([CHR ''0''], tl s1) else (ds, r))
             in case parse_fraction r of
                  None \<Rightarrow> None
                | Some (f, r) \<Rightarrow> (case parse_exponent r of
                      None \<Rightarrow> None
                    | Some (e, r) \<Rightarrow> Some (sign @ whole @ f @ e, r)))"

text \<open>
  A value, the members of an object after its brace and the elements of an array after its bracket.
  The first argument bounds the nesting; every level takes at least one character, so the length
  of the input is enough.
\<close>

fun parse_value :: "nat \<Rightarrow> string \<Rightarrow> (json \<times> string) option"
  and parse_members :: "nat \<Rightarrow> string \<Rightarrow> ((string \<times> json) list \<times> string) option"
  and parse_elements :: "nat \<Rightarrow> string \<Rightarrow> (json list \<times> string) option" where
  "parse_value 0 s = None"
| "parse_value (Suc n) s =
     (case skip_space s of
        [] \<Rightarrow> None
      | c # r \<Rightarrow>
          if c = CHR ''{'' then
            (case expect (CHR ''}'') r of
               Some r' \<Rightarrow> Some (JObj [], r')
             | None \<Rightarrow> map_option (\<lambda>(ms, r'). (JObj ms, r')) (parse_members n r))
          else if c = CHR ''['' then
            (case expect (CHR '']'') r of
               Some r' \<Rightarrow> Some (JArr [], r')
             | None \<Rightarrow> map_option (\<lambda>(vs, r'). (JArr vs, r')) (parse_elements n r))
          else if c = CHR 0x22 then map_option (\<lambda>(t, r'). (JStr t, r')) (parse_string r)
          else if take 4 (c # r) = ''true'' then Some (JBool True, drop 4 (c # r))
          else if take 5 (c # r) = ''false'' then Some (JBool False, drop 5 (c # r))
          else if take 4 (c # r) = ''null'' then Some (JNull, drop 4 (c # r))
          else map_option (\<lambda>(t, r'). (JNum t, r')) (parse_number (c # r)))"
| "parse_members 0 s = None"
| "parse_members (Suc n) s =
     (case expect (CHR 0x22) s of None \<Rightarrow> None | Some r \<Rightarrow>
     (case parse_string r of None \<Rightarrow> None | Some (k, r) \<Rightarrow>
     (case expect (CHR '':'') r of None \<Rightarrow> None | Some r \<Rightarrow>
     (case parse_value n r of None \<Rightarrow> None | Some (v, r) \<Rightarrow>
     (case expect (CHR '','') r of
        Some r' \<Rightarrow> map_option (\<lambda>(ms, q). ((k, v) # ms, q)) (parse_members n r')
      | None \<Rightarrow> map_option (\<lambda>r'. ([(k, v)], r')) (expect (CHR ''}'') r))))))"
| "parse_elements 0 s = None"
| "parse_elements (Suc n) s =
     (case parse_value n s of None \<Rightarrow> None | Some (v, r) \<Rightarrow>
     (case expect (CHR '','') r of
        Some r' \<Rightarrow> map_option (\<lambda>(vs, q). (v # vs, q)) (parse_elements n r')
      | None \<Rightarrow> map_option (\<lambda>r'. ([v], r')) (expect (CHR '']'') r)))"

section \<open>Structs\<close>

text \<open>
  A member sets the field with its name, compared without regard to case; a later member overwrites an
  earlier one, null leaves the field alone, members without a field are skipped, and a value of
  another type is an error.
\<close>

definition fold_char :: "char \<Rightarrow> char" where
  "fold_char c = (if 65 \<le> (of_char c :: nat) \<and> (of_char c :: nat) \<le> 90 then char_of ((of_char c :: nat) + 32) else c)"

fun set_field :: "(json \<Rightarrow> 'a option) \<Rightarrow> 'a \<Rightarrow> json list \<Rightarrow> 'a option" where
  "set_field conv x [] = Some x"
| "set_field conv x (v # vs) =
     (if v = JNull then set_field conv x vs
      else case conv v of None \<Rightarrow> None | Some y \<Rightarrow> set_field conv y vs)"

definition struct_field :: "(json \<Rightarrow> 'a option) \<Rightarrow> 'a \<Rightarrow> string \<Rightarrow> (string \<times> json) list \<Rightarrow> 'a option" where
  "struct_field conv zero name ms =
     set_field conv zero (map snd (filter (\<lambda>m. map fold_char (fst m) = map fold_char name) ms))"

definition as_string :: "json \<Rightarrow> string option" where
  "as_string v = (case v of JStr s \<Rightarrow> Some s | _ \<Rightarrow> None)"

text \<open>\<^verbatim>\<open>strconv.ParseUint\<close> and the width of the field; \<^verbatim>\<open>strconv.ParseInt\<close> for \<^verbatim>\<open>int64\<close>.\<close>

definition as_uint :: "nat \<Rightarrow> json \<Rightarrow> nat option" where
  "as_uint w v = (case v of
     JNum s \<Rightarrow> if s \<noteq> [] \<and> list_all digit s \<and> read_dec s < 2 ^ w then Some (read_dec s) else None | _ \<Rightarrow> None)"

definition as_int64 :: "json \<Rightarrow> int option" where
  "as_int64 v = (case v of
     JNum s \<Rightarrow>
       (let (neg, ds) = (if s \<noteq> [] \<and> hd s = CHR ''-'' then (True, tl s) else (False, s));
            i = (if neg then - int (read_dec ds) else int (read_dec ds))
        in if ds \<noteq> [] \<and> list_all digit ds \<and> int64_range i then Some i else None)
   | _ \<Rightarrow> None)"

text \<open>\<^verbatim>\<open>Decode\<close> takes the first value of the input; null leaves the whole struct zero.\<close>

definition json_decode :: "((string \<times> json) list \<Rightarrow> 'a option) \<Rightarrow> string \<Rightarrow> 'a option" where
  "json_decode fields s = (case parse_value (Suc (length s)) s of
     Some (JObj ms, _) \<Rightarrow> fields ms | Some (JNull, _) \<Rightarrow> fields [] | _ \<Rightarrow> None)"

section \<open>What is encoded is decoded\<close>

lemma hex4_control: "hex4 (CHR ''0'' # CHR ''0'' # byte_hex c @ rest) = Some (of_char c, rest)"
proof -
  have z: "EncodeToString [0] = [CHR ''0'', CHR ''0'']" by (simp add: hex_digit_def)
  let ?b = "of_nat (of_char c) :: byte"
  have e: "CHR ''0'' # CHR ''0'' # byte_hex c = EncodeToString [0, ?b]"
    using z by (simp add: byte_hex_def)
  have t: "take 4 (CHR ''0'' # CHR ''0'' # byte_hex c @ rest) = EncodeToString [0, ?b]"
    using e by (simp add: byte_hex_def numeral_eq_Suc)
  have d: "drop 4 (CHR ''0'' # CHR ''0'' # byte_hex c @ rest) = rest"
    by (simp add: byte_hex_def numeral_eq_Suc)
  have u: "unat ?b = of_char c"
    using of_char_of [where 'a = nat] by (simp add: unsigned_of_nat take_bit_nat_eq_self)
  show ?thesis unfolding hex4_def t d Decode_Encode_hex by (simp add: u)
qed

lemma unescape_u_control:
  "(of_char c :: nat) < 128 \<Longrightarrow> unescape_u (CHR ''0'' # CHR ''0'' # byte_hex c @ rest) = Some ([c], rest)"
  by (simp add: unescape_u_def hex4_control utf8_def)

lemma parse_string_char:
  "parse_string (json_escape c @ s) = map_option (\<lambda>(t, rest). (c # t, rest)) (parse_string s)"
proof -
  let ?short = "{CHR 0x22, CHR 0x5C, CHR 0x08, CHR 0x0C, CHR 0x0A, CHR 0x0D, CHR 0x09}"
  let ?long = "(of_char c :: nat) < 32 \<or> c = CHR ''<'' \<or> c = CHR ''>'' \<or> c = CHR ''&''"
  show ?thesis
  proof (cases "c \<in> ?short")
    case True
    then show ?thesis
      by (elim insertE emptyE) (simp_all add: json_escape_def unescape_def)
  next
    case other: False
    show ?thesis
    proof (cases ?long)
      case True
      with other have e: "json_escape c = [CHR 0x5C, CHR ''u'', CHR ''0'', CHR ''0''] @ byte_hex c"
        unfolding json_escape_def by (simp only: insert_iff empty_iff de_Morgan_disj simp_thms if_True if_False)
      have "(of_char c :: nat) < 128" using True by auto
      then show ?thesis by (simp add: e unescape_u_control)
    next
      case False
      with other have "json_escape c = [c]"
        unfolding json_escape_def by (simp only: insert_iff empty_iff de_Morgan_disj simp_thms if_True if_False)
      then show ?thesis using other False by simp
    qed
  qed
qed

lemma parse_string_escaped:
  "parse_string (concat (map json_escape s) @ CHR 0x22 # rest) = Some (s, rest)"
  by (induction s) (simp_all add: parse_string_char)

definition renders :: "json \<Rightarrow> string \<Rightarrow> bool" where
  "renders v r \<longleftrightarrow> (\<forall>n c rest. c \<in> {CHR '','', CHR ''}''} \<longrightarrow> parse_value (Suc n) (r @ c # rest) = Some (v, c # rest))"

lemma renders_string [intro, simp]: "renders (JStr s) (json_string s)"
  by (simp add: renders_def json_string_def skip_space_def json_space_def parse_string_escaped)

lemma digit_dec_digit [simp]: "n < 10 \<Longrightarrow> digit (dec_digit n)"
proof -
  have "list_all (\<lambda>n. digit (dec_digit n)) [0..<10]" by (simp add: upt_rec dec_digit_def digit_def)
  then show "n < 10 \<Longrightarrow> digit (dec_digit n)" by (simp add: list_all_iff)
qed

lemma digits_dec_nat [simp]: "list_all digit (dec_nat n)"
proof (induction n rule: dec_nat.induct)
  case (1 n)
  then show ?case by (subst dec_nat.simps) (simp add: list_all_iff)
qed

lemma dec_nat_not_Nil [simp]: "dec_nat n \<noteq> []"
  by (subst dec_nat.simps) simp

lemma hd_dec_nat: "0 < n \<Longrightarrow> hd (dec_nat n) \<noteq> CHR ''0''"
proof (induction n rule: dec_nat.induct)
  case (1 n)
  have "list_all (\<lambda>n. dec_digit n \<noteq> CHR ''0'') [1..<10]" by (simp add: upt_rec dec_digit_def)
  then have "n < 10 \<Longrightarrow> dec_digit n \<noteq> CHR ''0''" using "1.prems" by (simp add: list_all_iff)
  moreover have "\<not> n < 10 \<Longrightarrow> 0 < n div 10" by simp
  ultimately show ?case using "1.IH" by (subst dec_nat.simps) auto
qed

lemma parse_digits_dec:
  assumes "\<not> digit c" shows "parse_digits (dec_nat n @ c # rest) = Some (dec_nat n, c # rest)"
proof -
  have "takeWhile digit (dec_nat n @ c # rest) = dec_nat n" "dropWhile digit (dec_nat n @ c # rest) = c # rest"
    using digits_dec_nat [of n] assms
    by (simp_all add: list_all_iff takeWhile_append2 dropWhile_append2 del: digits_dec_nat)
  then show ?thesis by (cases "dec_nat n") (simp_all add: parse_digits_def)
qed

lemma hd_dec_nat_sign: "hd (dec_nat n) \<noteq> CHR ''-''"
proof -
  have "digit (hd (dec_nat n))" using digits_dec_nat [of n] by (metis dec_nat_not_Nil list_all_iff list.set_sel(1))
  then show ?thesis by (auto simp: digit_def)
qed

lemma parse_whole:
  assumes "\<not> digit c" "c \<noteq> CHR ''.''" "c \<noteq> CHR ''e''" "c \<noteq> CHR ''E''"
  shows "parse_number (dec_nat n @ c # rest) = Some (dec_nat n, c # rest)"
    and "parse_number (CHR ''-'' # dec_nat n @ c # rest) = Some (CHR ''-'' # dec_nat n, c # rest)"
proof -
  have f: "parse_fraction (c # rest) = Some ([], c # rest)" "parse_exponent (c # rest) = Some ([], c # rest)"
    using assms by (simp_all add: parse_fraction_def parse_exponent_def)
  have w: "(if hd (dec_nat n) = CHR ''0'' then ([CHR ''0''], tl (dec_nat n @ c # rest)) else (dec_nat n, c # rest))
      = (dec_nat n, c # rest)"
  proof (cases "n = 0")
    case True
    then show ?thesis by (simp add: dec_nat.simps dec_digit_def)
  qed (simp add: hd_dec_nat)
  show "parse_number (CHR ''-'' # dec_nat n @ c # rest) = Some (CHR ''-'' # dec_nat n, c # rest)"
    using f w by (simp add: parse_number_def parse_digits_dec [OF assms(1)])
  have "(case dec_nat n @ c # rest of c' # r \<Rightarrow> if c' = CHR ''-'' then ([c'], r) else ([], dec_nat n @ c # rest)
      | [] \<Rightarrow> ([], dec_nat n @ c # rest)) = ([], dec_nat n @ c # rest)"
    using hd_dec_nat_sign [of n] by (cases "dec_nat n") simp_all
  then show "parse_number (dec_nat n @ c # rest) = Some (dec_nat n, c # rest)"
    using f w by (simp add: parse_number_def parse_digits_dec [OF assms(1)])
qed

text \<open>Numbers, like strings, are read back when a comma or a brace follows.\<close>

lemma parse_value_number:
  assumes "parse_number (d # r) = Some (t, q)" "digit d \<or> d = CHR ''-''"
  shows "parse_value (Suc k) (d # r) = Some (JNum t, q)"
proof -
  have "\<not> json_space d" "d \<noteq> CHR ''{''" "d \<noteq> CHR ''[''" "d \<noteq> CHR 0x22" "d \<noteq> CHR ''t''" "d \<noteq> CHR ''f''" "d \<noteq> CHR ''n''"
    using assms(2) by (auto simp: digit_def json_space_def)
  then show ?thesis using assms(1) by (simp add: skip_space_def)
qed

lemma digit_hd_dec: "dec_nat n = d # ds \<Longrightarrow> digit d"
  using digits_dec_nat [of n] by simp

lemma after_value: "c \<in> {CHR '','', CHR ''}''} \<Longrightarrow> \<not> digit c \<and> c \<noteq> CHR ''.'' \<and> c \<noteq> CHR ''e'' \<and> c \<noteq> CHR ''E''"
  by (auto simp: digit_def)

lemma renders_nat [intro, simp]: "renders (JNum (dec_nat n)) (dec_nat n)"
proof -
  obtain d ds where d: "dec_nat n = d # ds" by (metis dec_nat_not_Nil neq_Nil_conv)
  show ?thesis
    unfolding renders_def
  proof (intro allI impI)
    fix k c rest assume "c \<in> {CHR '','', CHR ''}''}"
    then have "parse_number (dec_nat n @ c # rest) = Some (dec_nat n, c # rest)"
      using after_value by (intro parse_whole(1)) blast+
    then show "parse_value (Suc k) (dec_nat n @ c # rest) = Some (JNum (dec_nat n), c # rest)"
      using digit_hd_dec [OF d] by (simp only: d append_Cons parse_value_number simp_thms)
  qed
qed

lemma renders_int [intro, simp]: "renders (JNum (dec_int i)) (dec_int i)"
proof (cases "i < 0")
  case True
  show ?thesis
    unfolding renders_def
  proof (intro allI impI)
    fix k c rest assume "c \<in> {CHR '','', CHR ''}''}"
    then have "parse_number (CHR ''-'' # dec_nat (nat (- i)) @ c # rest) = Some (CHR ''-'' # dec_nat (nat (- i)), c # rest)"
      using after_value by (intro parse_whole(2)) blast+
    then show "parse_value (Suc k) (dec_int i @ c # rest) = Some (JNum (dec_int i), c # rest)"
      using True by (simp only: dec_int_def if_True append_Cons parse_value_number simp_thms)
  qed
next
  case False
  then show ?thesis using renders_nat [of "nat i"] by (simp add: dec_int_def)
qed

lemma renders_bool [intro, simp]: "renders (JBool b) (FormatBool b)"
  by (cases b) (simp_all add: renders_def FormatBool_def skip_space_def json_space_def)

lemma expect_hit: "\<not> json_space c \<Longrightarrow> expect c (c # r) = Some r"
  by (simp add: expect_def skip_space_def)

lemma expect_miss: "\<not> json_space d \<Longrightarrow> d \<noteq> c \<Longrightarrow> expect c (d # r) = None"
  by (simp add: expect_def skip_space_def)

lemma json_marks [simp]:
  "\<not> json_space (CHR 0x22)" "\<not> json_space (CHR '':'')" "\<not> json_space (CHR '','')" "\<not> json_space (CHR ''}'')"
  "\<not> json_space (CHR ''{'')"
  by (simp_all add: json_space_def)

lemma parse_key: "parse_string (concat (map json_escape k) @ CHR 0x22 # rest) = Some (k, rest)"
  by (rule parse_string_escaped)

text \<open>Members with their texts and values: what the encoder was given and what the scanner finds.\<close>

type_synonym rendered = "(string \<times> string \<times> json) list"

definition texts :: "rendered \<Rightarrow> (string \<times> string) list" where
  "texts ms = map (\<lambda>(k, r, v). (k, r)) ms"

definition values_of :: "rendered \<Rightarrow> (string \<times> json) list" where
  "values_of ms = map (\<lambda>(k, r, v). (k, v)) ms"

lemma texts_values_simps [simp]:
  "texts [] = []" "texts ((k, r, v) # ms) = (k, r) # texts ms"
  "values_of [] = []" "values_of ((k, r, v) # ms) = (k, v) # values_of ms"
  by (simp_all add: texts_def values_of_def)

lemma json_members_Cons:
  "json_members ((k, r) # ms) = CHR 0x22 # concat (map json_escape k) @ CHR 0x22 # CHR '':'' # r
     @ (if ms = [] then [] else CHR '','' # json_members ms)"
  by (cases ms) (simp_all add: json_string_def)

lemma parse_members_rendered:
  assumes "ms \<noteq> []" "list_all (\<lambda>(k, r, v). renders v r) ms"
  shows "parse_members (Suc (length ms + j)) (json_members (texts ms) @ CHR ''}'' # rest) = Some (values_of ms, rest)"
  using assms
proof (induction ms arbitrary: j)
  case (Cons m ms)
  obtain k r v where m: "m = (k, r, v)" by (cases m)
  have "renders v r" using Cons.prems(2) by (simp add: m)
  then have v: "parse_value (Suc (length ms + j)) (r @ c # q) = Some (v, c # q)" if "c \<in> {CHR '','', CHR ''}''}" for c q
    using that unfolding renders_def by blast
  show ?case
  proof (cases "ms = []")
    case True
    then show ?thesis
      using v [of "CHR ''}''" rest] by (simp add: m json_members_Cons parse_key expect_hit expect_miss)
  next
    case False
    then have "parse_members (Suc (length ms + j)) (json_members (texts ms) @ CHR ''}'' # rest) = Some (values_of ms, rest)"
      using Cons.prems(2) by (intro Cons.IH) simp_all
    moreover have "texts ms \<noteq> []" using False by (simp add: texts_def)
    ultimately show ?thesis
      using v [of "CHR '',''" "json_members (texts ms) @ CHR ''}'' # rest"]
      by (simp add: m json_members_Cons parse_key expect_hit)
  qed
qed simp

lemma length_json_members: "length ms \<le> length (json_members ms)"
  by (induction ms rule: json_members.induct) (simp_all add: json_string_def)

text \<open>Decoding what the encoder made of a struct gives its fields to the assignment.\<close>

lemma json_decode_object:
  assumes "ms \<noteq> []" "list_all (\<lambda>(k, r, v). renders v r) ms"
  shows "json_decode fields (json_object (texts ms) @ rest) = fields (values_of ms)"
proof -
  let ?s = "json_object (texts ms) @ rest"
  define j where "j = length ?s - Suc (length ms)"
  have "Suc (length ms) \<le> length ?s"
    using length_json_members [of "texts ms"] by (simp add: json_object_def texts_def)
  then have len: "Suc (length ?s) = Suc (Suc (length ms + j))" by (simp add: j_def)
  obtain k r v ms' where ms: "ms = (k, r, v) # ms'" using assms(1) by (cases ms) auto
  have "parse_value (Suc (length ?s)) ?s = Some (JObj (values_of ms), rest)"
    unfolding len using parse_members_rendered [OF assms, of j rest]
    by (simp add: json_object_def skip_space_def json_members_Cons ms expect_miss)
  then show ?thesis by (simp add: json_decode_def)
qed

lemma as_uint_nat [simp]: "n < 2 ^ w \<Longrightarrow> as_uint w (JNum (dec_nat n)) = Some n"
  by (simp add: as_uint_def)

lemma as_int64_int [simp]: "int64_range i \<Longrightarrow> as_int64 (JNum (dec_int i)) = Some i"
  by (auto simp: as_int64_def dec_int_def hd_dec_nat_sign Let_def)

lemma as_string_string [simp]: "as_string (JStr s) = Some s"
  by (simp add: as_string_def)

lemma set_field_one [simp]: "v \<noteq> JNull \<Longrightarrow> set_field conv x [v] = conv v"
  by (simp split: option.split)

end
