(* ===== verification/Envelopes.thy ===== *)
theory Envelopes imports Pipeline_Types Go_Json Metrics begin

text \<open>
  The HTTP layer between the services: requests and responses as a handler sees them, the client
  \<^verbatim>\<open>postJSON\<close> that each of \<^verbatim>\<open>cmd/l2-sequencer\<close>, \<^verbatim>\<open>cmd/l2-aggregator\<close> and \<^verbatim>\<open>cmd/proof-replayer\<close> has a copy of, and
  the JSON form of the three envelopes of \<^verbatim>\<open>internal/pipeline/api.go\<close>, both ways.
\<close>

section \<open>Requests and responses\<close>

record http_request =
  hr_Method :: string
  hr_Body :: string

record http_response =
  hs_Status :: int
  hs_Body :: string

text \<open>A handler that panics drops the connection without an answer.\<close>

datatype http_outcome = Reply http_response | Aborted

definition http_Error :: "string \<Rightarrow> int \<Rightarrow> http_outcome" where
  "http_Error msg code = Reply \<lparr> hs_Status = code, hs_Body = msg @ newline \<rparr>"

definition json_reply :: "string \<Rightarrow> http_outcome" where
  "json_reply body = Reply \<lparr> hs_Status = 200, hs_Body = body @ newline \<rparr>"

definition ok_reply :: http_outcome where
  "ok_reply = json_reply (json_object [(''ok'', FormatBool True)])"

type_synonym ('a, 'w) service = "'a \<Rightarrow> 'w \<Rightarrow> http_outcome \<times> 'w"

text \<open>How every handler begins: the method, then the body into the struct.\<close>

definition json_handler :: "(string \<Rightarrow> 'a option) \<Rightarrow> ('a, 'w) service \<Rightarrow> (http_request, 'w) service" where
  "json_handler Decode act r w =
     (if hr_Method r \<noteq> ''POST'' then (http_Error ''method not allowed'' 405, w)
      else (case Decode (hr_Body r) of
              None \<Rightarrow> (http_Error ''invalid json'' 400, w)
            | Some env \<Rightarrow> act env w))"

section \<open>The client\<close>

text \<open>
  \<^verbatim>\<open>http.Post\<close> on the state \<open>'w\<close> of whatever it reaches: URL, content type and body to an error or the
  status of the answer.
\<close>

type_synonym 'w transport = "string \<Rightarrow> string \<Rightarrow> string \<Rightarrow> 'w \<Rightarrow> (string + int) \<times> 'w"

datatype post_error = TransportError string | BadStatus int

definition postJSON :: "'w transport \<Rightarrow> string \<Rightarrow> string \<Rightarrow> 'w \<Rightarrow> post_error option \<times> 'w" where
  "postJSON Post url payload w =
     (let buf = payload @ newline;
          (resp, w) = Post url ''application/json'' buf w
      in case resp of
           Inl err \<Rightarrow> (Some (TransportError err), w)
         | Inr status \<Rightarrow> (if status < 200 \<or> 299 < status then Some (BadStatus status) else None, w))"

text \<open>A transport that reaches a handler.\<close>

definition serve :: "(http_request, 'w) service \<Rightarrow> 'w transport" where
  "serve handler url contentType body w =
     (case handler \<lparr> hr_Method = ''POST'', hr_Body = body \<rparr> w of
        (Reply resp, w) \<Rightarrow> (Inr (hs_Status resp), w)
      | (Aborted, w) \<Rightarrow> (Inl ''EOF'', w))"

text \<open>The error a client sees of a handler's outcome.\<close>

definition outcome_error :: "http_outcome \<Rightarrow> post_error option" where
  "outcome_error out = (case out of
     Reply resp \<Rightarrow> (if hs_Status resp < 200 \<or> 299 < hs_Status resp then Some (BadStatus (hs_Status resp)) else None)
   | Aborted \<Rightarrow> Some (TransportError ''EOF''))"

lemma outcome_error_simps [simp]:
  "outcome_error (http_Error msg code) = (if code < 200 \<or> 299 < code then Some (BadStatus code) else None)"
  "outcome_error (json_reply body) = None" "outcome_error ok_reply = None"
  by (simp_all add: outcome_error_def http_Error_def json_reply_def ok_reply_def)

section \<open>Envelopes\<close>

text \<open>
  What the services rely on: an envelope that fits its fields is read back as it was sent.  Then a
  request sent to a service reaches the body of its handler with the envelope itself.
\<close>

locale envelope =
  fixes enc :: "'a \<Rightarrow> string" and dec :: "string \<Rightarrow> 'a option" and fits :: "'a \<Rightarrow> bool"
  assumes dec_enc: "fits x \<Longrightarrow> dec (enc x @ newline) = Some x"
begin

lemma posted:
  assumes "fits x"
  shows "postJSON (serve (json_handler dec act)) url (enc x) w = (case act x w of (out, w') \<Rightarrow> (outcome_error out, w'))"
  using dec_enc [OF assms]
  by (simp add: postJSON_def serve_def json_handler_def outcome_error_def split: prod.split http_outcome.split)

lemma enc_inj: "fits x \<Longrightarrow> fits y \<Longrightarrow> enc x = enc y \<Longrightarrow> x = y"
  by (metis dec_enc option.inject)

end

definition uint_field :: "nat \<Rightarrow> string \<Rightarrow> (string \<times> json) list \<Rightarrow> 'a::len word option" where
  "uint_field w name ms = struct_field (\<lambda>v. map_option of_nat (as_uint w v)) 0 name ms"

lemma uint_field_word [simp]:
  "map_option (of_nat :: nat \<Rightarrow> u32) (as_uint 32 (JNum (dec_nat (unat x)))) = Some x"
  "map_option (of_nat :: nat \<Rightarrow> u16) (as_uint 16 (JNum (dec_nat (unat y)))) = Some y"
  using unsigned_less [of x, where 'a = nat] unsigned_less [of y, where 'a = nat] by simp_all

text \<open>Field names, folded once and for all.\<close>

lemma fold_names:
  "map fold_char ''phase'' = ''phase''" "map fold_char ''block_index'' = ''block_index''"
  "map fold_char ''lane_id'' = ''lane_id''" "map fold_char ''batch_hex'' = ''batch_hex''"
  "map fold_char ''created_at_unix_ms'' = ''created_at_unix_ms''"
  "map fold_char ''commitment_hash_hex'' = ''commitment_hash_hex''"
  "map fold_char ''tx_count'' = ''tx_count''" "map fold_char ''tx_payload_hex'' = ''tx_payload_hex''"
  "map fold_char ''proof_hex'' = ''proof_hex''"
  by (simp_all add: fold_char_def)

definition json_LaneBatchEnvelope :: "LaneBatchEnvelope \<Rightarrow> string" where
  "json_LaneBatchEnvelope e = json_object
     [(''phase'', json_string (le_Phase e)), (''block_index'', dec_nat (unat (le_BlockIndex e))),
      (''lane_id'', dec_nat (unat (le_LaneID e))), (''batch_hex'', json_string (le_BatchHex e)),
      (''created_at_unix_ms'', dec_int (le_CreatedAtUnixMs e))]"

definition Decode_LaneBatchEnvelope :: "string \<Rightarrow> LaneBatchEnvelope option" where
  "Decode_LaneBatchEnvelope = json_decode (\<lambda>ms.
     Option.bind (struct_field as_string [] ''phase'' ms) (\<lambda>phase.
     Option.bind (uint_field 32 ''block_index'' ms) (\<lambda>blockIndex.
     Option.bind (uint_field 16 ''lane_id'' ms) (\<lambda>laneID.
     Option.bind (struct_field as_string [] ''batch_hex'' ms) (\<lambda>batchHex.
     Option.bind (struct_field as_int64 0 ''created_at_unix_ms'' ms) (\<lambda>createdAt.
       Some \<lparr> le_Phase = phase, le_BlockIndex = blockIndex, le_LaneID = laneID, le_BatchHex = batchHex,
              le_CreatedAtUnixMs = createdAt \<rparr>))))))"

definition json_BlockCommitEnvelope :: "BlockCommitEnvelope \<Rightarrow> string" where
  "json_BlockCommitEnvelope e = json_object
     [(''phase'', json_string (ce_Phase e)), (''block_index'', dec_nat (unat (ce_BlockIndex e))),
      (''commitment_hash_hex'', json_string (ce_CommitmentHashHex e)),
      (''tx_count'', dec_nat (unat (ce_TxCount e))), (''tx_payload_hex'', json_string (ce_TxPayloadHex e)),
      (''created_at_unix_ms'', dec_int (ce_CreatedAtUnixMs e))]"

definition Decode_BlockCommitEnvelope :: "string \<Rightarrow> BlockCommitEnvelope option" where
  "Decode_BlockCommitEnvelope = json_decode (\<lambda>ms.
     Option.bind (struct_field as_string [] ''phase'' ms) (\<lambda>phase.
     Option.bind (uint_field 32 ''block_index'' ms) (\<lambda>blockIndex.
     Option.bind (struct_field as_string [] ''commitment_hash_hex'' ms) (\<lambda>commitment.
     Option.bind (uint_field 32 ''tx_count'' ms) (\<lambda>txCount.
     Option.bind (struct_field as_string [] ''tx_payload_hex'' ms) (\<lambda>txPayload.
     Option.bind (struct_field as_int64 0 ''created_at_unix_ms'' ms) (\<lambda>createdAt.
       Some \<lparr> ce_Phase = phase, ce_BlockIndex = blockIndex, ce_CommitmentHashHex = commitment,
              ce_TxCount = txCount, ce_TxPayloadHex = txPayload, ce_CreatedAtUnixMs = createdAt \<rparr>)))))))"

definition json_L1SubmitEnvelope :: "L1SubmitEnvelope \<Rightarrow> string" where
  "json_L1SubmitEnvelope e = json_object
     [(''phase'', json_string (se_Phase e)), (''block_index'', dec_nat (unat (se_BlockIndex e))),
      (''commitment_hash_hex'', json_string (se_CommitmentHashHex e)),
      (''proof_hex'', json_string (se_ProofHex e)), (''tx_count'', dec_nat (unat (se_TxCount e))),
      (''tx_payload_hex'', json_string (se_TxPayloadHex e)),
      (''created_at_unix_ms'', dec_int (se_CreatedAtUnixMs e))]"

definition Decode_L1SubmitEnvelope :: "string \<Rightarrow> L1SubmitEnvelope option" where
  "Decode_L1SubmitEnvelope = json_decode (\<lambda>ms.
     Option.bind (struct_field as_string [] ''phase'' ms) (\<lambda>phase.
     Option.bind (uint_field 32 ''block_index'' ms) (\<lambda>blockIndex.
     Option.bind (struct_field as_string [] ''commitment_hash_hex'' ms) (\<lambda>commitment.
     Option.bind (struct_field as_string [] ''proof_hex'' ms) (\<lambda>proofHex.
     Option.bind (uint_field 32 ''tx_count'' ms) (\<lambda>txCount.
     Option.bind (struct_field as_string [] ''tx_payload_hex'' ms) (\<lambda>txPayload.
     Option.bind (struct_field as_int64 0 ''created_at_unix_ms'' ms) (\<lambda>createdAt.
       Some \<lparr> se_Phase = phase, se_BlockIndex = blockIndex, se_CommitmentHashHex = commitment,
              se_ProofHex = proofHex, se_TxCount = txCount, se_TxPayloadHex = txPayload,
              se_CreatedAtUnixMs = createdAt \<rparr>))))))))"

definition fits_LaneBatchEnvelope :: "LaneBatchEnvelope \<Rightarrow> bool" where
  "fits_LaneBatchEnvelope e \<longleftrightarrow> int64_range (le_CreatedAtUnixMs e)"

definition fits_BlockCommitEnvelope :: "BlockCommitEnvelope \<Rightarrow> bool" where
  "fits_BlockCommitEnvelope e \<longleftrightarrow> int64_range (ce_CreatedAtUnixMs e)"

definition fits_L1SubmitEnvelope :: "L1SubmitEnvelope \<Rightarrow> bool" where
  "fits_L1SubmitEnvelope e \<longleftrightarrow> int64_range (se_CreatedAtUnixMs e)"

lemmas envelope_fields = struct_field_def uint_field_def fold_names

lemma json_object_rendered:
  "ms \<noteq> [] \<Longrightarrow> list_all (\<lambda>(k, r, v). renders v r) ms \<Longrightarrow> texts ms = ts
   \<Longrightarrow> json_decode assign (json_object ts @ rest) = assign (values_of ms)"
  using json_decode_object by blast

lemma LaneBatchEnvelope_read:
  assumes "fits_LaneBatchEnvelope e"
  shows "Decode_LaneBatchEnvelope (json_LaneBatchEnvelope e @ rest) = Some e"
proof -
  have "int64_range (le_CreatedAtUnixMs e)" using assms by (simp add: fits_LaneBatchEnvelope_def)
  then show ?thesis
    unfolding Decode_LaneBatchEnvelope_def json_LaneBatchEnvelope_def
    by (subst json_object_rendered [where ms =
        "[(''phase'', json_string (le_Phase e), JStr (le_Phase e)),
          (''block_index'', dec_nat (unat (le_BlockIndex e)), JNum (dec_nat (unat (le_BlockIndex e)))),
          (''lane_id'', dec_nat (unat (le_LaneID e)), JNum (dec_nat (unat (le_LaneID e)))),
          (''batch_hex'', json_string (le_BatchHex e), JStr (le_BatchHex e)),
          (''created_at_unix_ms'', dec_int (le_CreatedAtUnixMs e), JNum (dec_int (le_CreatedAtUnixMs e)))]"])
      (simp_all add: envelope_fields)
qed

lemma BlockCommitEnvelope_read:
  assumes "fits_BlockCommitEnvelope e"
  shows "Decode_BlockCommitEnvelope (json_BlockCommitEnvelope e @ rest) = Some e"
proof -
  have "int64_range (ce_CreatedAtUnixMs e)" using assms by (simp add: fits_BlockCommitEnvelope_def)
  then show ?thesis
    unfolding Decode_BlockCommitEnvelope_def json_BlockCommitEnvelope_def
    by (subst json_object_rendered [where ms =
        "[(''phase'', json_string (ce_Phase e), JStr (ce_Phase e)),
          (''block_index'', dec_nat (unat (ce_BlockIndex e)), JNum (dec_nat (unat (ce_BlockIndex e)))),
          (''commitment_hash_hex'', json_string (ce_CommitmentHashHex e), JStr (ce_CommitmentHashHex e)),
          (''tx_count'', dec_nat (unat (ce_TxCount e)), JNum (dec_nat (unat (ce_TxCount e)))),
          (''tx_payload_hex'', json_string (ce_TxPayloadHex e), JStr (ce_TxPayloadHex e)),
          (''created_at_unix_ms'', dec_int (ce_CreatedAtUnixMs e), JNum (dec_int (ce_CreatedAtUnixMs e)))]"])
      (simp_all add: envelope_fields)
qed

lemma L1SubmitEnvelope_read:
  assumes "fits_L1SubmitEnvelope e"
  shows "Decode_L1SubmitEnvelope (json_L1SubmitEnvelope e @ rest) = Some e"
proof -
  have "int64_range (se_CreatedAtUnixMs e)" using assms by (simp add: fits_L1SubmitEnvelope_def)
  then show ?thesis
    unfolding Decode_L1SubmitEnvelope_def json_L1SubmitEnvelope_def
    by (subst json_object_rendered [where ms =
        "[(''phase'', json_string (se_Phase e), JStr (se_Phase e)),
          (''block_index'', dec_nat (unat (se_BlockIndex e)), JNum (dec_nat (unat (se_BlockIndex e)))),
          (''commitment_hash_hex'', json_string (se_CommitmentHashHex e), JStr (se_CommitmentHashHex e)),
          (''proof_hex'', json_string (se_ProofHex e), JStr (se_ProofHex e)),
          (''tx_count'', dec_nat (unat (se_TxCount e)), JNum (dec_nat (unat (se_TxCount e)))),
          (''tx_payload_hex'', json_string (se_TxPayloadHex e), JStr (se_TxPayloadHex e)),
          (''created_at_unix_ms'', dec_int (se_CreatedAtUnixMs e), JNum (dec_int (se_CreatedAtUnixMs e)))]"])
      (simp_all add: envelope_fields)
qed

text \<open>All three envelopes satisfy the law with the JSON of their struct tags.\<close>

interpretation lane_envelope: envelope json_LaneBatchEnvelope Decode_LaneBatchEnvelope fits_LaneBatchEnvelope
  by unfold_locales (rule LaneBatchEnvelope_read)

interpretation commit_envelope: envelope json_BlockCommitEnvelope Decode_BlockCommitEnvelope fits_BlockCommitEnvelope
  by unfold_locales (rule BlockCommitEnvelope_read)

interpretation submit_envelope: envelope json_L1SubmitEnvelope Decode_L1SubmitEnvelope fits_L1SubmitEnvelope
  by unfold_locales (rule L1SubmitEnvelope_read)



section \<open>The node's answer\<close>

definition json_SubmitResponse :: "SubmitResponse \<Rightarrow> string" where
  "json_SubmitResponse r = json_object
     [(''Accepted'', FormatBool (rs_Accepted r)), (''Duplicate'', FormatBool (rs_Duplicate r)),
      (''ProofOK'', FormatBool (rs_ProofOK r)), (''Finalized'', FormatBool (rs_Finalized r)),
      (''Reason'', json_string (rs_Reason r)), (''LatencyMs'', dec_nat (unat (rs_LatencyMs r))),
      (''BlockIndex'', dec_nat (unat (rs_BlockIndex r)))]"

end
