(* ===== verification/Svc_L1.thy ===== *)
theory Svc_L1 imports Stages Envelopes begin

text \<open>
  The two last services of the HTTP pipeline: \<^verbatim>\<open>cmd/proof-replayer\<close>, which attaches the proof to a block
  commit, and \<^verbatim>\<open>cmd/l1-cert-node\<close>, which submits it to the certification node.  Together they do what the
  in-process replayer does.
\<close>

section \<open>cmd/l1-cert-node: /submit-certified-block\<close>

text \<open>\<open>now\<close> is read when the envelope has no time of its own, \<open>now'\<close> by the node.\<close>

definition submit_certified_block :: "time \<Rightarrow> time \<Rightarrow> (L1SubmitEnvelope, L1CertNode) service" where
  "submit_certified_block now now' payload n =
     (case DecodeString (se_CommitmentHashHex payload) of
        Inl _ \<Rightarrow> (http_Error ''invalid commitment hash'' 400, n)
      | Inr commitBytes \<Rightarrow>
     if length commitBytes \<noteq> 32 then (http_Error ''invalid commitment hash'' 400, n)
     else (case DecodeString (se_ProofHex payload) of
        Inl _ \<Rightarrow> (http_Error ''invalid proof hex'' 400, n)
      | Inr proofBytes \<Rightarrow>
     (case DecodeString (se_TxPayloadHex payload) of
        Inl _ \<Rightarrow> (http_Error ''invalid tx payload hex'' 400, n)
      | Inr txPayloadBytes \<Rightarrow>
     (case DecodeTxSlice txPayloadBytes of
        Inl _ \<Rightarrow> (http_Error ''invalid tx payload'' 400, n)
      | Inr txs \<Rightarrow>
          let commitment = copy_into 0 32 commitBytes (replicate 32 0);
              createdAt = (if se_CreatedAtUnixMs payload = 0 then now else se_CreatedAtUnixMs payload * 1000000);
              proof = BuildProofRecord (se_BlockIndex payload) commitment proofBytes;
              (resp, n) = SubmitCertifiedBlock now'
                \<lparr> rq_Phase = se_Phase payload, rq_BlockIndex = se_BlockIndex payload,
                  rq_CommitmentHash = commitment, rq_Proof = proof, rq_TxCount = se_TxCount payload,
                  rq_Txs = txs, rq_CreatedAt = createdAt \<rparr> n
          in (json_reply (json_SubmitResponse resp), n)))))"

definition l1_cert_node :: "time \<Rightarrow> time \<Rightarrow> (http_request, L1CertNode) service" where
  "l1_cert_node now now' = json_handler Decode_L1SubmitEnvelope (submit_certified_block now now')"

section \<open>cmd/proof-replayer: /block-commit\<close>

text \<open>What \<^verbatim>\<open>fmt.Sprintf("submit to l1 failed: %v", err)\<close> makes of the client's error.\<close>

definition post_error_text :: "post_error \<Rightarrow> string" where
  "post_error_text e = (case e of TransportError msg \<Rightarrow> msg | BadStatus code \<Rightarrow> ''status='' @ dec_int code)"

definition block_commit ::
    "nat \<Rightarrow> string \<Rightarrow> 'w transport \<Rightarrow> (BlockCommitEnvelope, ProofBook \<times> 'w) service" where
  "block_commit badProofAt l1Endpoint Post commit = (\<lambda>(book, w).
     let (proofBytes, book) = ProofForBlock (ce_BlockIndex commit) book;
         proofCopy = replicate (length proofBytes) 0;
         proofCopy = copy_into 0 (length proofCopy) proofBytes proofCopy;
         proofCopy = (if badProofAt \<noteq> 0 \<and> of_nat badProofAt = ce_BlockIndex commit \<and> 0 < length proofCopy
                      then flip_first proofCopy else proofCopy);
         submit = \<lparr> se_Phase = ce_Phase commit, se_BlockIndex = ce_BlockIndex commit,
                    se_CommitmentHashHex = ce_CommitmentHashHex commit,
                    se_ProofHex = EncodeToString proofCopy, se_TxCount = ce_TxCount commit,
                    se_TxPayloadHex = ce_TxPayloadHex commit, se_CreatedAtUnixMs = ce_CreatedAtUnixMs commit \<rparr>;
         (err, w) = postJSON Post l1Endpoint (json_L1SubmitEnvelope submit) w
     in case err of
          Some e \<Rightarrow> (http_Error (''submit to l1 failed: '' @ post_error_text e) 502, (book, w))
        | None \<Rightarrow> (ok_reply, (book, w)))"

definition proof_replayer ::
    "nat \<Rightarrow> string \<Rightarrow> 'w transport \<Rightarrow> (http_request, ProofBook \<times> 'w) service" where
  "proof_replayer badProofAt l1Endpoint Post =
     json_handler Decode_BlockCommitEnvelope (block_commit badProofAt l1Endpoint Post)"

section \<open>What the node makes of an envelope\<close>

text \<open>The request an envelope stands for, if its texts are well formed.\<close>

definition envelope_request :: "time \<Rightarrow> L1SubmitEnvelope \<Rightarrow> SubmitRequest option" where
  "envelope_request now e =
     (case (DecodeString (se_CommitmentHashHex e), DecodeString (se_ProofHex e), DecodeString (se_TxPayloadHex e)) of
        (Inr h, Inr p, Inr t) \<Rightarrow>
          if length h = 32 \<and> length t mod 12 = 0
          then Some \<lparr> rq_Phase = se_Phase e, rq_BlockIndex = se_BlockIndex e, rq_CommitmentHash = h,
                 rq_Proof = \<lparr> pr_BlockIndex = se_BlockIndex e, pr_CommitmentHash = h, pr_ProofBytes = p \<rparr>,
                 rq_TxCount = se_TxCount e, rq_Txs = projr (DecodeTxSlice t),
                 rq_CreatedAt = (if se_CreatedAtUnixMs e = 0 then now else se_CreatedAtUnixMs e * 1000000) \<rparr>
          else None
      | _ \<Rightarrow> None)"

lemma BuildProofRecord_copy:
  "BuildProofRecord b h p = \<lparr> pr_BlockIndex = b, pr_CommitmentHash = h, pr_ProofBytes = p \<rparr>"
  by (simp add: BuildProofRecord_def copy_into_def Let_def)

text \<open>C34. The endpoint answers every request: 405 for another method, 400 for a body that is not the envelope's JSON or
  whose texts are malformed, both without touching the node; every well-formed envelope is submitted and answered
  with 200 and the node's response, also when the node rejects the block.\<close>

theorem l1_endpoint_answers:
  fixes r :: http_request and now :: time
  defines "req \<equiv> Option.bind (Decode_L1SubmitEnvelope (hr_Body r)) (envelope_request now)"
  shows "(hr_Method r \<noteq> ''POST'' \<longrightarrow> l1_cert_node now now' r n = (http_Error ''method not allowed'' 405, n))
    \<and> (hr_Method r = ''POST'' \<and> req = None \<longrightarrow> (\<exists>msg. l1_cert_node now now' r n = (http_Error msg 400, n)))
    \<and> (\<forall>q. hr_Method r = ''POST'' \<and> req = Some q \<longrightarrow> l1_cert_node now now' r n =
          (json_reply (json_SubmitResponse (fst (SubmitCertifiedBlock now' q n))), snd (SubmitCertifiedBlock now' q n)))"
proof (intro conjI impI allI)
  assume "hr_Method r = ''POST'' \<and> req = None"
  then consider "hr_Method r = ''POST''" "Decode_L1SubmitEnvelope (hr_Body r) = None"
    | e where "hr_Method r = ''POST''" "Decode_L1SubmitEnvelope (hr_Body r) = Some e" "envelope_request now e = None"
    by (cases "Decode_L1SubmitEnvelope (hr_Body r)") (auto simp: req_def)
  then show "\<exists>msg. l1_cert_node now now' r n = (http_Error msg 400, n)"
  proof cases
    case 2
    then show ?thesis
      by (auto simp: l1_cert_node_def json_handler_def envelope_request_def submit_certified_block_def
          DecodeTxSlice_def split: sum.splits if_splits)
  qed (auto simp: l1_cert_node_def json_handler_def)
next
  fix q assume "hr_Method r = ''POST'' \<and> req = Some q"
  then obtain e where e: "hr_Method r = ''POST''" "Decode_L1SubmitEnvelope (hr_Body r) = Some e"
    "envelope_request now e = Some q"
    by (auto simp: req_def bind_eq_Some_conv)
  then obtain h p t where d: "DecodeString (se_CommitmentHashHex e) = Inr h" "length h = 32"
      "DecodeString (se_ProofHex e) = Inr p" "DecodeString (se_TxPayloadHex e) = Inr t" "length t mod 12 = 0"
    by (auto simp: envelope_request_def split: sum.splits if_splits)
  obtain txs where txs: "DecodeTxSlice t = Inr txs" using DecodeTxSlice_total [OF d(5)] by blast
  have "copy_into 0 32 h (replicate 32 0) = h" using d(2) by (simp add: copy_into_def Let_def)
  then show "l1_cert_node now now' r n =
      (json_reply (json_SubmitResponse (fst (SubmitCertifiedBlock now' q n))), snd (SubmitCertifiedBlock now' q n))"
    using e d txs by (simp add: l1_cert_node_def json_handler_def submit_certified_block_def envelope_request_def
        BuildProofRecord_copy Let_def split: prod.split)
qed (simp add: l1_cert_node_def json_handler_def)

theorem l1_endpoint_answers_witness:
  "\<exists>msg. fst (l1_cert_node 0 0 \<lparr> hr_Method = ''POST'', hr_Body = [] \<rparr> (NewL1CertNode [] NewRegistry)) = http_Error msg 400"
proof -
  have "Decode_L1SubmitEnvelope [] = None"
    by (simp add: Decode_L1SubmitEnvelope_def json_decode_def skip_space_def)
  then show ?thesis
    using l1_endpoint_answers [of "\<lparr> hr_Method = ''POST'', hr_Body = [] \<rparr>" 0 0 "NewL1CertNode [] NewRegistry"] by auto
qed

section \<open>The replayer service does what the in-process replayer does\<close>

text \<open>The envelope the aggregator makes of a block commit stamped \<open>ms\<close> milliseconds after the epoch.\<close>

definition commit_to_envelope :: "BlockCommit \<Rightarrow> int \<Rightarrow> BlockCommitEnvelope" where
  "commit_to_envelope c ms =
     \<lparr> ce_Phase = bc_Phase c, ce_BlockIndex = bc_BlockIndex c,
       ce_CommitmentHashHex = EncodeToString (bc_CommitmentHash c), ce_TxCount = bc_TxCount c,
       ce_TxPayloadHex = EncodeToString (EncodeTxSlice (bc_Txs c)), ce_CreatedAtUnixMs = ms \<rparr>"

lemma replay_request_sound:
  "replay_request cfg c book =
     (\<lparr> rq_Phase = bc_Phase c, rq_BlockIndex = bc_BlockIndex c, rq_CommitmentHash = bc_CommitmentHash c,
        rq_Proof = \<lparr> pr_BlockIndex = bc_BlockIndex c, pr_CommitmentHash = bc_CommitmentHash c,
          pr_ProofBytes = (if bad_block cfg (bc_BlockIndex c) then flip_first (book_view book (bc_BlockIndex c))
                           else book_view book (bc_BlockIndex c)) \<rparr>,
        rq_TxCount = bc_TxCount c, rq_Txs = bc_Txs c, rq_CreatedAt = bc_CreatedAt c \<rparr>,
      snd (ProofForBlock (bc_BlockIndex c) book))"
proof (rule prod_eqI)
  let ?r = "fst (replay_request cfg c book)"
  have "?r = \<lparr> rq_Phase = rq_Phase ?r, rq_BlockIndex = rq_BlockIndex ?r, rq_CommitmentHash = rq_CommitmentHash ?r,
      rq_Proof = rq_Proof ?r, rq_TxCount = rq_TxCount ?r, rq_Txs = rq_Txs ?r, rq_CreatedAt = rq_CreatedAt ?r \<rparr>"
    by simp
  then show "?r = fst (\<lparr> rq_Phase = bc_Phase c, rq_BlockIndex = bc_BlockIndex c,
      rq_CommitmentHash = bc_CommitmentHash c,
      rq_Proof = \<lparr> pr_BlockIndex = bc_BlockIndex c, pr_CommitmentHash = bc_CommitmentHash c,
        pr_ProofBytes = (if bad_block cfg (bc_BlockIndex c) then flip_first (book_view book (bc_BlockIndex c))
                         else book_view book (bc_BlockIndex c)) \<rparr>,
      rq_TxCount = bc_TxCount c, rq_Txs = bc_Txs c, rq_CreatedAt = bc_CreatedAt c \<rparr>,
      snd (ProofForBlock (bc_BlockIndex c) book))"
    unfolding replay_request_fields replay_request_proof by simp
qed (simp add: replay_request_def Let_def split: prod.split)

lemma node_handles:
  assumes "length (bc_CommitmentHash c) = 32" "ms \<noteq> 0"
  shows "submit_certified_block now now'
      \<lparr> se_Phase = bc_Phase c, se_BlockIndex = bc_BlockIndex c,
        se_CommitmentHashHex = EncodeToString (bc_CommitmentHash c), se_ProofHex = EncodeToString p,
        se_TxCount = bc_TxCount c, se_TxPayloadHex = EncodeToString (EncodeTxSlice (bc_Txs c)),
        se_CreatedAtUnixMs = ms \<rparr> n
    = (let req = \<lparr> rq_Phase = bc_Phase c, rq_BlockIndex = bc_BlockIndex c, rq_CommitmentHash = bc_CommitmentHash c,
            rq_Proof = \<lparr> pr_BlockIndex = bc_BlockIndex c, pr_CommitmentHash = bc_CommitmentHash c, pr_ProofBytes = p \<rparr>,
            rq_TxCount = bc_TxCount c, rq_Txs = bc_Txs c, rq_CreatedAt = ms * 1000000 \<rparr>
       in (json_reply (json_SubmitResponse (fst (SubmitCertifiedBlock now' req n))), snd (SubmitCertifiedBlock now' req n)))"
proof -
  have "copy_into 0 32 (bc_CommitmentHash c) (replicate 32 0) = bc_CommitmentHash c"
    using assms(1) by (simp add: copy_into_def Let_def)
  then show ?thesis using assms
    by (simp add: submit_certified_block_def BuildProofRecord_copy Decode_Encode_TxSlice Let_def split: prod.split)
qed

lemma replayer_service:
  assumes "length (bc_CommitmentHash c) = 32" "bc_CreatedAt c = ms * 1000000" "ms \<noteq> 0" "int64_range ms"
    and "BadProofAt (cfg_Fault cfg) = of_nat badProofAt" "badProofAt < 2 ^ 32"
  shows "postJSON (serve (proof_replayer badProofAt l1Endpoint (serve (l1_cert_node now now')))) url
      (json_BlockCommitEnvelope (commit_to_envelope c ms)) (book, n)
    = (None, (snd (replay_request cfg c book),
              snd (SubmitCertifiedBlock now' (fst (replay_request cfg c book)) n)))"
proof -
  have fault: "badProofAt \<noteq> 0 \<and> of_nat badProofAt = bc_BlockIndex c \<longleftrightarrow> bad_block cfg (bc_BlockIndex c)"
  proof -
    have "(of_nat badProofAt :: u32) = 0 \<longleftrightarrow> badProofAt = 0"
      using unat_u32_small [of badProofAt] assms(6) by auto
    then show ?thesis using assms(5) by (auto simp: bad_block_def)
  qed
  obtain book' where P: "ProofForBlock (bc_BlockIndex c) book = (book_view book (bc_BlockIndex c), book')"
    by (metis EnsureBlock_fst ProofForBlock_def prod.collapse)
  define p where "p = (if bad_block cfg (bc_BlockIndex c) then flip_first (book_view book (bc_BlockIndex c))
    else book_view book (bc_BlockIndex c))"
  have flip: "(if badProofAt \<noteq> 0 \<and> of_nat badProofAt = bc_BlockIndex c \<and> 0 < length (book_view book (bc_BlockIndex c))
      then flip_first (book_view book (bc_BlockIndex c)) else book_view book (bc_BlockIndex c)) = p"
    using fault by (auto simp: p_def flip_first_def)
  have copy: "copy_into 0 (length x) x (replicate (length x) 0) = x" for x :: "byte list"
    by (simp add: copy_into_def Let_def)
  let ?req = "fst (replay_request cfg c book)"
  have req: "?req = \<lparr> rq_Phase = bc_Phase c, rq_BlockIndex = bc_BlockIndex c, rq_CommitmentHash = bc_CommitmentHash c,
      rq_Proof = \<lparr> pr_BlockIndex = bc_BlockIndex c, pr_CommitmentHash = bc_CommitmentHash c, pr_ProofBytes = p \<rparr>,
      rq_TxCount = bc_TxCount c, rq_Txs = bc_Txs c, rq_CreatedAt = ms * 1000000 \<rparr>"
    using assms(2) by (simp add: replay_request_sound p_def)
  have "block_commit badProofAt l1Endpoint (serve (l1_cert_node now now')) (commit_to_envelope c ms) (book, n)
      = (ok_reply, (book', snd (SubmitCertifiedBlock now' ?req n)))"
    using assms(4) flip copy [of "book_view book (bc_BlockIndex c)"]
    by (simp split del: if_split cong: if_cong add: block_commit_def commit_to_envelope_def P l1_cert_node_def submit_envelope.posted
        fits_L1SubmitEnvelope_def node_handles [OF assms(1,3)] req Let_def)
  moreover have "snd (replay_request cfg c book) = book'" by (simp add: replay_request_sound P)
  moreover have "fits_BlockCommitEnvelope (commit_to_envelope c ms)"
    using assms(4) by (simp add: fits_BlockCommitEnvelope_def commit_to_envelope_def)
  ultimately show ?thesis
    by (simp add: proof_replayer_def commit_envelope.posted)
qed

text \<open>C15. A block commit posted to the replayer service in front of the node's service changes the proof book and the node
  exactly as the in-process replayer does, injected fault included, and the poster sees no error, whatever the node
  thinks of the block.\<close>

theorem http_replayer_equals_runner:
  assumes "length (bc_CommitmentHash c) = 32" "bc_CreatedAt c = ms * 1000000" "ms \<noteq> 0" "int64_range ms"
    and "BadProofAt (cfg_Fault cfg) = of_nat badProofAt" "badProofAt < 2 ^ 32"
  shows "postJSON (serve (proof_replayer badProofAt l1Endpoint (serve (l1_cert_node now now')))) url
      (json_BlockCommitEnvelope (commit_to_envelope c ms)) (book, n)
    = (None, (snd (replay_request cfg c book),
              snd (SubmitCertifiedBlock now' (fst (replay_request cfg c book)) n)))"
  using assms by (rule replayer_service)

theorem http_replayer_equals_runner_witness:
  "postJSON (serve (proof_replayer 0 [] (serve (l1_cert_node 0 5)))) []
     (json_BlockCommitEnvelope (commit_to_envelope
        \<lparr> bc_Phase = ''warmup'', bc_BlockIndex = 3, bc_CommitmentHash = CommitmentFromTxs 3 [], bc_TxCount = 0,
          bc_Txs = [], bc_CreatedAt = 2000000 \<rparr> 2)) (NewProofBook ''s'', NewL1CertNode ''s'' NewRegistry)
   = (None, (snd (replay_request (smoke_config 200 5000)
        \<lparr> bc_Phase = ''warmup'', bc_BlockIndex = 3, bc_CommitmentHash = CommitmentFromTxs 3 [], bc_TxCount = 0,
          bc_Txs = [], bc_CreatedAt = 2000000 \<rparr> (NewProofBook ''s'')),
      snd (SubmitCertifiedBlock 5 (fst (replay_request (smoke_config 200 5000)
        \<lparr> bc_Phase = ''warmup'', bc_BlockIndex = 3, bc_CommitmentHash = CommitmentFromTxs 3 [], bc_TxCount = 0,
          bc_Txs = [], bc_CreatedAt = 2000000 \<rparr> (NewProofBook ''s''))) (NewL1CertNode ''s'' NewRegistry))))"
  by (rule http_replayer_equals_runner) (simp_all add: int64_range_def smoke_config_def)

end
