(* ===== verification/Svc_Aggregator.thy ===== *)
theory Svc_Aggregator imports Svc_L1 begin

text \<open>
  \<^verbatim>\<open>cmd/l2-aggregator\<close>: the endpoint \<^verbatim>\<open>/lane-batch\<close>, which collects the lanes of a block under a lock and
  forwards the block's commit to the proof replayer after the last lane.
\<close>

section \<open>State\<close>

text \<open>\<^verbatim>\<open>type state struct\<close>: a block of which some lanes have arrived.\<close>

record lane_state =
  ln_phase :: string
  ln_createdAt :: int
  ln_txCount :: u32
  ln_lanes :: "(u16, hash) go_map"
  ln_txs :: "Tx12 list"

type_synonym lane_states = "(u32, lane_state) go_map"

section \<open>The handler\<close>

text \<open>The loop over the frame's transfers: those without an amount are left out.\<close>

fun gather_txs :: "Tx12 list \<Rightarrow> lane_state \<Rightarrow> lane_state" where
  "gather_txs [] st = st"
| "gather_txs (tx # txs) st =
     (if Amount tx = 0 then gather_txs txs st
      else gather_txs txs (st\<lparr> ln_txCount := ln_txCount st + 1, ln_txs := ln_txs st @ [tx] \<rparr>))"

text \<open>The block's entry, made for its first lane; phase and time are filled in from a later lane if missing.\<close>

definition lane_entry :: "LaneBatchEnvelope \<Rightarrow> lane_states \<Rightarrow> lane_state" where
  "lane_entry env states =
     (let st = (case map_of states (le_BlockIndex env) of
            Some st \<Rightarrow> st
          | None \<Rightarrow> \<lparr> ln_phase = le_Phase env, ln_createdAt = le_CreatedAtUnixMs env, ln_txCount = 0,
                      ln_lanes = [], ln_txs = [] \<rparr>);
          st = (if ln_phase st = [] then st\<lparr> ln_phase := le_Phase env \<rparr> else st)
      in if ln_createdAt st = 0 then st\<lparr> ln_createdAt := le_CreatedAtUnixMs env \<rparr> else st)"

text \<open>The part under the lock: the commit, if this lane completes the block, and the new map.\<close>

definition record_lane ::
    "int \<Rightarrow> int \<Rightarrow> LaneBatchEnvelope \<Rightarrow> Tx12 list \<Rightarrow> hash \<Rightarrow> lane_states \<Rightarrow> BlockCommitEnvelope option \<times> lane_states" where
  "record_lane lanes now env payload laneHash states =
     (let st = lane_entry env states;
          st = st\<lparr> ln_lanes := AList.update (le_LaneID env) laneHash (ln_lanes st) \<rparr>;
          st = gather_txs payload st;
          states = AList.update (le_BlockIndex env) st states
      in if int (length (ln_lanes st)) = lanes
         then let commitment = CommitmentFromTxs (le_BlockIndex env) (ln_txs st);
                  stamp = (if ln_createdAt st = 0 then now else ln_createdAt st)
              in (Some \<lparr> ce_Phase = ln_phase st, ce_BlockIndex = le_BlockIndex env,
                        ce_CommitmentHashHex = EncodeToString commitment, ce_TxCount = ln_txCount st,
                        ce_TxPayloadHex = EncodeToString (EncodeTxSlice (ln_txs st)), ce_CreatedAtUnixMs = stamp \<rparr>,
                  AList.delete (le_BlockIndex env) states)
         else (None, states))"

definition zero_frame :: BatchFrameV1 where
  "zero_frame = \<lparr> bf_Flags = 0, bf_BlockIndex = 0, bf_LaneID = 0, bf_Payload = [] \<rparr>"

text \<open>\<open>now\<close> is the clock in milliseconds; an empty \<open>proofEndpoint\<close> means that nothing is forwarded.\<close>

definition lane_batch_post ::
    "int \<Rightarrow> int \<Rightarrow> string \<Rightarrow> 'w transport \<Rightarrow> (LaneBatchEnvelope, lane_states \<times> 'w) service" where
  "lane_batch_post lanes now proofEndpoint Post env = (\<lambda>(states, w).
     case DecodeString (le_BatchHex env) of
       Inl _ \<Rightarrow> (http_Error ''invalid batch_hex'' 400, (states, w))
     | Inr batchBytes \<Rightarrow>
    (case BatchFrameV1_UnmarshalBinary zero_frame batchBytes of
       (Some _, _) \<Rightarrow> (http_Error ''invalid batch payload'' 400, (states, w))
     | (None, bf) \<Rightarrow>
         if bf_BlockIndex bf \<noteq> le_BlockIndex env \<or> bf_LaneID bf \<noteq> le_LaneID env
         then (http_Error ''envelope mismatch'' 400, (states, w))
         else (case BatchFrameV1_CommitmentHash bf of
             Inl _ \<Rightarrow> (Aborted, (states, w))
           | Inr laneHash \<Rightarrow>
               let (maybeCommit, states) = record_lane lanes now env (bf_Payload bf) laneHash states
               in case maybeCommit of
                    None \<Rightarrow> (ok_reply, (states, w))
                  | Some commit \<Rightarrow>
                      if proofEndpoint = [] then (ok_reply, (states, w))
                      else let (err, w) = postJSON Post proofEndpoint (json_BlockCommitEnvelope commit) w
                           in case err of
                                Some _ \<Rightarrow> (http_Error ''forward to proof-replayer failed'' 502, (states, w))
                              | None \<Rightarrow> (ok_reply, (states, w)))))"

definition l2_aggregator ::
    "int \<Rightarrow> int \<Rightarrow> string \<Rightarrow> 'w transport \<Rightarrow> (http_request, lane_states \<times> 'w) service" where
  "l2_aggregator lanes now proofEndpoint Post =
     json_handler Decode_LaneBatchEnvelope (lane_batch_post lanes now proofEndpoint Post)"

section \<open>Every request is answered\<close>

lemma gather_txs_eq:
  "gather_txs txs st = st\<lparr> ln_txCount := ln_txCount st + of_nat (length (filter isPayloadValid txs)),
     ln_txs := ln_txs st @ filter isPayloadValid txs \<rparr>"
  by (induction txs st rule: gather_txs.induct) (simp_all add: isPayloadValid_iff add.assoc)

text \<open>C33. The aggregator answers every request, with one of five statuses; a refused request changes nothing, and whatever
  the answer, only the entry of the envelope's block is touched.\<close>

theorem aggregator_answers:
  assumes "l2_aggregator lanes now proofEndpoint Post r (states, w) = (out, (states', w'))"
  shows "\<exists>status body. out = Reply \<lparr> hs_Status = status, hs_Body = body \<rparr> \<and> status \<in> {200, 400, 405, 502}
    \<and> (status \<in> {400, 405} \<longrightarrow> states' = states \<and> w' = w)
    \<and> (status = 405 \<longleftrightarrow> hr_Method r \<noteq> ''POST'')
    \<and> (\<forall>env b. Decode_LaneBatchEnvelope (hr_Body r) = Some env \<longrightarrow> b \<noteq> le_BlockIndex env
          \<longrightarrow> map_of states' b = map_of states b)"
proof (cases "hr_Method r = ''POST''")
  case False
  then show ?thesis using assms by (auto simp: l2_aggregator_def json_handler_def http_Error_def)
next
  case post: True
  show ?thesis
  proof (cases "Decode_LaneBatchEnvelope (hr_Body r)")
    case None
    then show ?thesis using assms post by (auto simp: l2_aggregator_def json_handler_def http_Error_def)
  next
    case (Some env)
    then have h: "lane_batch_post lanes now proofEndpoint Post env (states, w) = (out, (states', w'))"
      using assms post by (simp add: l2_aggregator_def json_handler_def)
    show ?thesis
    proof (cases "DecodeString (le_BatchHex env)")
      case (Inl e)
      then show ?thesis using h post Some by (auto simp: lane_batch_post_def http_Error_def)
    next
      case (Inr bytes)
      obtain e bf where u: "BatchFrameV1_UnmarshalBinary zero_frame bytes = (e, bf)" by (cases "BatchFrameV1_UnmarshalBinary zero_frame bytes")
      show ?thesis
      proof (cases "e = None \<and> bf_BlockIndex bf = le_BlockIndex env \<and> bf_LaneID bf = le_LaneID env")
        case False
        then show ?thesis using h post Some Inr u
          by (cases e) (auto simp: lane_batch_post_def http_Error_def)
      next
        case True
        obtain hash where hash: "BatchFrameV1_CommitmentHash bf = Inr hash"
          using CommitmentHash_ok UnmarshalBinary_small u True by metis
        obtain c st where rec: "record_lane lanes now env (bf_Payload bf) hash states = (c, st)"
          by (cases "record_lane lanes now env (bf_Payload bf) hash states")
        have frame: "map_of st b = map_of states b" if "b \<noteq> le_BlockIndex env" for b
          using rec that by (auto simp: record_lane_def Let_def split: if_splits)
        have "states' = st" "out = ok_reply \<or> out = http_Error ''forward to proof-replayer failed'' 502"
          using h Inr u True hash rec
          by (auto simp: lane_batch_post_def split: option.splits if_splits prod.splits)
        then show ?thesis using post Some frame by (auto simp: ok_reply_def json_reply_def http_Error_def)
      qed
    qed
  qed
qed

theorem aggregator_answers_witness:
  "\<exists>status body. fst (l2_aggregator 4 0 [] (\<lambda>_ _ _ w. (Inl [], w)) \<lparr> hr_Method = ''GET'', hr_Body = [] \<rparr> ([], ()))
     = Reply \<lparr> hs_Status = status, hs_Body = body \<rparr> \<and> status \<in> {200, 400, 405, 502}"
proof -
  obtain out states' w' where e:
    "l2_aggregator 4 0 [] (\<lambda>_ _ _ w. (Inl [], w)) \<lparr> hr_Method = ''GET'', hr_Body = [] \<rparr> ([], ()) = (out, (states', w'))"
    by (metis prod.collapse)
  show ?thesis using aggregator_answers [OF e] e by auto
qed

section \<open>The service does what the in-process aggregator does\<close>

text \<open>The block states as the in-process aggregator would hold them: times in nanoseconds.\<close>

definition lane_view :: "lane_state \<Rightarrow> aggregateState" where
  "lane_view st = \<lparr> as_phase = ln_phase st, as_createdAt = ln_createdAt st * 1000000,
     as_laneHashes = ln_lanes st, as_txCount = ln_txCount st, as_txs = ln_txs st \<rparr>"

definition states_view :: "lane_states \<Rightarrow> aggregates" where
  "states_view states = map (\<lambda>(b, st). (b, lane_view st)) states"

definition stamped :: "lane_state \<Rightarrow> bool" where
  "stamped st \<longleftrightarrow> ln_phase st \<noteq> [] \<and> ln_createdAt st \<noteq> 0 \<and> int64_range (ln_createdAt st)"

definition all_stamped :: "lane_states \<Rightarrow> bool" where
  "all_stamped states \<longleftrightarrow> list_all (\<lambda>(b, st). stamped st) states"

lemma lane_view_inj [simp]: "lane_view st = lane_view st' \<longleftrightarrow> st = st'"
  by (cases st; cases st') (auto simp: lane_view_def)

lemma lane_view_fields [simp]:
  "as_phase (lane_view st) = ln_phase st" "as_createdAt (lane_view st) = ln_createdAt st * 1000000"
  "as_laneHashes (lane_view st) = ln_lanes st" "as_txCount (lane_view st) = ln_txCount st"
  "as_txs (lane_view st) = ln_txs st"
  by (simp_all add: lane_view_def)

lemma states_view_inj: "states_view S = states_view S' \<Longrightarrow> S = S'"
  unfolding states_view_def by (rule map_injective) (auto simp: inj_on_def)

lemma states_view_simps [simp]:
  "map_of (states_view S) b = map_option lane_view (map_of S b)"
  "AList.update b (lane_view st) (states_view S) = states_view (AList.update b st S)"
  "AList.delete b (states_view S) = states_view (AList.delete b S)"
  by (induction S) (auto simp: states_view_def)

lemma all_stamped_update [simp]: "all_stamped S \<Longrightarrow> stamped st \<Longrightarrow> all_stamped (AList.update b st S)"
  by (induction S) (auto simp: all_stamped_def)

lemma all_stamped_delete [simp]: "all_stamped S \<Longrightarrow> all_stamped (AList.delete b S)"
  by (induction S) (auto simp: all_stamped_def)

lemma all_stamped_lookup: "all_stamped S \<Longrightarrow> map_of S b = Some st \<Longrightarrow> stamped st"
  by (auto simp: all_stamped_def list_all_iff dest: map_of_SomeD)

text \<open>The envelope the sequencer makes of a lane batch.\<close>

definition lane_to_envelope :: "LaneBatch \<Rightarrow> int \<Rightarrow> LaneBatchEnvelope" where
  "lane_to_envelope b ms =
     \<lparr> le_Phase = lb_Phase b, le_BlockIndex = lb_BlockIndex b, le_LaneID = lb_LaneID b,
       le_BatchHex = EncodeToString (projr (BatchFrameV1_MarshalBinary
         (BuildLaneBatchFrame (lb_BlockIndex b) (lb_LaneID b) (lb_Payload b)))),
       le_CreatedAtUnixMs = ms \<rparr>"

lemma lane_to_envelope_fields [simp]:
  "le_Phase (lane_to_envelope b ms) = lb_Phase b" "le_BlockIndex (lane_to_envelope b ms) = lb_BlockIndex b"
  "le_LaneID (lane_to_envelope b ms) = lb_LaneID b" "le_CreatedAtUnixMs (lane_to_envelope b ms) = ms"
  by (simp_all add: lane_to_envelope_def)

text \<open>One lane recorded: the in-process aggregator makes the same step, and keeps the completed entry until it has
  queued the commit.\<close>

lemma record_lane_step:
  assumes env: "lb_Phase b \<noteq> []" "lb_CreatedAt b = ms * 1000000" "ms \<noteq> 0" "int64_range ms"
    and st: "all_stamped states"
    and hash: "BatchFrameV1_CommitmentHash (BuildLaneBatchFrame (lb_BlockIndex b) (lb_LaneID b) (lb_Payload b)) = Inr h"
    and agg: "aggregate_batch cfg b (states_view states, m) = Some (c, S, m')"
  shows "\<exists>states'. all_stamped states'
    \<and> record_lane (cfg_Lanes cfg) now (lane_to_envelope b ms) (lb_Payload b) h states
      = (map_option (\<lambda>c. commit_to_envelope c (bc_CreatedAt c div 1000000)) c, states')
    \<and> states_view states' = (case c of None \<Rightarrow> S | Some _ \<Rightarrow> AList.delete (lb_BlockIndex b) S)
    \<and> (\<forall>x. c = Some x \<longrightarrow> bc_CreatedAt x mod 1000000 = 0 \<and> int64_range (bc_CreatedAt x div 1000000)
          \<and> bc_CreatedAt x \<noteq> 0)"
proof -
  define st where "st = (case map_of states (lb_BlockIndex b) of Some st \<Rightarrow> st
    | None \<Rightarrow> \<lparr> ln_phase = lb_Phase b, ln_createdAt = ms, ln_txCount = 0, ln_lanes = [], ln_txs = [] \<rparr>)"
  have stamped: "stamped st"
    using env all_stamped_lookup [OF st] by (auto simp: st_def stamped_def split: option.split)
  define st' where "st' = gather_txs (lb_Payload b) (st\<lparr> ln_lanes := AList.update (lb_LaneID b) h (ln_lanes st) \<rparr>)"
  have stamped': "stamped st'" using stamped by (simp add: st'_def gather_txs_eq stamped_def)
  have ne: "ln_phase st \<noteq> []" "ln_createdAt st \<noteq> 0" "ln_createdAt st' \<noteq> 0"
    using stamped stamped' by (simp_all add: stamped_def)
  have view: "(case map_of (states_view states) (lb_BlockIndex b) of Some st \<Rightarrow> st | None \<Rightarrow> new_aggregate b) = lane_view st"
    using env(2) by (simp add: st_def lane_view_def new_aggregate_def split: option.split)
  have step: "(lane_view st)\<lparr> as_laneHashes := AList.update (lb_LaneID b) h (ln_lanes st),
      as_txCount := ln_txCount st + of_nat (length (filter isPayloadValid (lb_Payload b))),
      as_txs := ln_txs st @ filter isPayloadValid (lb_Payload b) \<rparr> = lane_view st'"
    by (simp add: st'_def gather_txs_eq lane_view_def)
  let ?commit = "\<lparr> bc_Phase = ln_phase st', bc_BlockIndex = lb_BlockIndex b,
    bc_CommitmentHash = CommitmentFromTxs (lb_BlockIndex b) (ln_txs st'), bc_TxCount = ln_txCount st',
    bc_Txs = ln_txs st', bc_CreatedAt = ln_createdAt st' * 1000000 \<rparr>"
  have cS: "c = (if int (length (ln_lanes st')) = cfg_Lanes cfg then Some ?commit else None)"
    "S = states_view (AList.update (lb_BlockIndex b) st' states)"
  proof -
    have "aggregate_batch cfg b (states_view states, m) = Some
        (if int (length (as_laneHashes (lane_view st'))) = cfg_Lanes cfg
         then Some \<lparr> bc_Phase = as_phase (lane_view st'), bc_BlockIndex = lb_BlockIndex b,
           bc_CommitmentHash = CommitmentFromTxs (lb_BlockIndex b) (as_txs (lane_view st')),
           bc_TxCount = as_txCount (lane_view st'), bc_Txs = as_txs (lane_view st'),
           bc_CreatedAt = as_createdAt (lane_view st') \<rparr> else None,
         AList.update (lb_BlockIndex b) (lane_view st') (states_view states),
         IncDrop (of_nat (length (filter (\<lambda>tx. \<not> isPayloadValid tx) (lb_Payload b)))) m)"
      using hash step
      by (simp only: aggregate_batch_def view Let_def split sum.case collect_txs_eq)
        (simp add: lane_view_def st'_def gather_txs_eq)
    then show "c = (if int (length (ln_lanes st')) = cfg_Lanes cfg then Some ?commit else None)"
      "S = states_view (AList.update (lb_BlockIndex b) st' states)"
      using agg by auto
  qed
  have "record_lane (cfg_Lanes cfg) now (lane_to_envelope b ms) (lb_Payload b) h states
    = (map_option (\<lambda>c. commit_to_envelope c (bc_CreatedAt c div 1000000)) c,
       (case c of None \<Rightarrow> AList.update (lb_BlockIndex b) st' states
        | Some _ \<Rightarrow> AList.delete (lb_BlockIndex b) (AList.update (lb_BlockIndex b) st' states)))"
  proof -
    have "lane_entry (lane_to_envelope b ms) states = st"
      using ne(1,2) by (auto simp: lane_entry_def st_def Let_def split: option.split)
    then have "record_lane (cfg_Lanes cfg) now (lane_to_envelope b ms) (lb_Payload b) h states =
      (let states = AList.update (lb_BlockIndex b) st' states
       in if int (length (ln_lanes st')) = cfg_Lanes cfg
          then (Some \<lparr> ce_Phase = ln_phase st', ce_BlockIndex = lb_BlockIndex b,
            ce_CommitmentHashHex = EncodeToString (CommitmentFromTxs (lb_BlockIndex b) (ln_txs st')),
            ce_TxCount = ln_txCount st', ce_TxPayloadHex = EncodeToString (EncodeTxSlice (ln_txs st')),
            ce_CreatedAtUnixMs = (if ln_createdAt st' = 0 then now else ln_createdAt st') \<rparr>,
            AList.delete (lb_BlockIndex b) states)
          else (None, states))"
      by (simp add: record_lane_def Let_def flip: st'_def)
    then show ?thesis
      using ne(3) cS(1) by (simp add: commit_to_envelope_def Let_def)
  qed
  then show ?thesis
    using st stamped' cS by (auto simp: stamped_def split: option.split if_splits)
qed

text \<open>A posted lane, up to the forwarding of the commit.\<close>

lemma lane_post_eq:
  assumes "length (lb_Payload b) < 2 ^ 32"
    and h: "BatchFrameV1_CommitmentHash (BuildLaneBatchFrame (lb_BlockIndex b) (lb_LaneID b) (lb_Payload b)) = Inr h"
  shows "lane_batch_post lanes now ep Post (lane_to_envelope b ms) (states, w) =
      (let (c, states) = record_lane lanes now (lane_to_envelope b ms) (lb_Payload b) h states
       in case c of
            None \<Rightarrow> (ok_reply, (states, w))
          | Some commit \<Rightarrow>
              if ep = [] then (ok_reply, (states, w))
              else let (err, w) = postJSON Post ep (json_BlockCommitEnvelope commit) w
                   in case err of
                        Some _ \<Rightarrow> (http_Error ''forward to proof-replayer failed'' 502, (states, w))
                      | None \<Rightarrow> (ok_reply, (states, w)))"
proof -
  let ?bf = "BuildLaneBatchFrame (lb_BlockIndex b) (lb_LaneID b) (lb_Payload b)"
  have f: "bf_BlockIndex ?bf = lb_BlockIndex b" "bf_LaneID ?bf = lb_LaneID b" "bf_Payload ?bf = lb_Payload b"
    by (simp_all add: BuildLaneBatchFrame_def)
  obtain bytes where bytes: "BatchFrameV1_MarshalBinary ?bf = Inr bytes"
    "BatchFrameV1_UnmarshalBinary zero_frame bytes = (None, ?bf)"
    using Unmarshal_Marshal_frame [of ?bf zero_frame] assms f by auto
  have hex: "DecodeString (le_BatchHex (lane_to_envelope b ms)) = Inr bytes"
    by (simp add: lane_to_envelope_def bytes(1))
  show ?thesis by (simp add: lane_batch_post_def hex bytes(2) h f)
qed

text \<open>A lane batch posted to the service in front of any further service acts as the in-process aggregator does: the
  block states correspond before and after, the commit of a completed block is forwarded as it would be queued,
  and its entry is gone.\<close>

lemma aggregator_service:
  assumes env: "lb_Phase b \<noteq> []" "lb_CreatedAt b = ms * 1000000" "ms \<noteq> 0" "int64_range ms"
    and st: "all_stamped states" and small: "length (lb_Payload b) < 2 ^ 32" and ep: "proofEndpoint \<noteq> []"
    and agg: "aggregate_batch cfg b (states_view states, m) = Some (c, S, m')"
  shows "\<exists>states'. all_stamped states'
    \<and> states_view states' = (case c of None \<Rightarrow> S | Some _ \<Rightarrow> AList.delete (lb_BlockIndex b) S)
    \<and> postJSON (serve (l2_aggregator (cfg_Lanes cfg) now proofEndpoint Post)) url
        (json_LaneBatchEnvelope (lane_to_envelope b ms)) (states, w)
      = (case c of
           None \<Rightarrow> (None, (states', w))
         | Some x \<Rightarrow>
             (case postJSON Post proofEndpoint
                 (json_BlockCommitEnvelope (commit_to_envelope x (bc_CreatedAt x div 1000000))) w of
                (err, w') \<Rightarrow> (map_option (\<lambda>_. BadStatus 502) err, (states', w'))))"
proof -
  let ?bf = "BuildLaneBatchFrame (lb_BlockIndex b) (lb_LaneID b) (lb_Payload b)"
  obtain h where h: "BatchFrameV1_CommitmentHash ?bf = Inr h"
    using CommitmentHash_ok [of ?bf] small by (auto simp: BuildLaneBatchFrame_def)
  obtain states' where s: "all_stamped states'"
    "record_lane (cfg_Lanes cfg) now (lane_to_envelope b ms) (lb_Payload b) h states
      = (map_option (\<lambda>c. commit_to_envelope c (bc_CreatedAt c div 1000000)) c, states')"
    "states_view states' = (case c of None \<Rightarrow> S | Some _ \<Rightarrow> AList.delete (lb_BlockIndex b) S)"
    using record_lane_step [OF env st h agg] by blast
  have fits: "fits_LaneBatchEnvelope (lane_to_envelope b ms)" using env(4) by (simp add: fits_LaneBatchEnvelope_def)
  show ?thesis
  proof (intro exI conjI)
    show "postJSON (serve (l2_aggregator (cfg_Lanes cfg) now proofEndpoint Post)) url
        (json_LaneBatchEnvelope (lane_to_envelope b ms)) (states, w)
      = (case c of
           None \<Rightarrow> (None, (states', w))
         | Some x \<Rightarrow>
             (case postJSON Post proofEndpoint
                 (json_BlockCommitEnvelope (commit_to_envelope x (bc_CreatedAt x div 1000000))) w of
                (err, w') \<Rightarrow> (map_option (\<lambda>_. BadStatus 502) err, (states', w'))))"
      unfolding l2_aggregator_def lane_envelope.posted [OF fits] lane_post_eq [OF small h] s(2)
      using ep by (auto split: option.split prod.split)
  qed (fact s)+
qed

section \<open>Repeated requests\<close>

lemma record_lane_new:
  assumes "map_of states (le_BlockIndex env) = None" "1 < lanes"
  obtains st where "record_lane lanes now env payload h states = (None, AList.update (le_BlockIndex env) st states)"
    "ln_lanes st = [(le_LaneID env, h)]" "ln_txs st = filter isPayloadValid payload"
    "ln_txCount st = of_nat (length (filter isPayloadValid payload))"
  using assms by (intro that [of "gather_txs payload ((lane_entry env states)\<lparr> ln_lanes := [(le_LaneID env, h)] \<rparr>)"])
    (simp_all add: record_lane_def lane_entry_def gather_txs_eq Let_def)

text \<open>A lane that is sent twice while its block is open counts once as a lane, but its transfers are in the block twice:
  the client's retry of a request whose answer was lost doubles them.\<close>

theorem resent_lane_doubles_transfers:
  assumes "map_of states (le_BlockIndex env) = None" "1 < lanes"
  shows "\<exists>st. map_of (snd (record_lane lanes now' env payload h (snd (record_lane lanes now env payload h states))))
      (le_BlockIndex env) = Some st
    \<and> length (ln_lanes st) = 1
    \<and> ln_txs st = filter isPayloadValid payload @ filter isPayloadValid payload
    \<and> ln_txCount st = 2 * of_nat (length (filter isPayloadValid payload))"
proof -
  obtain st where st: "record_lane lanes now env payload h states = (None, AList.update (le_BlockIndex env) st states)"
    "ln_lanes st = [(le_LaneID env, h)]" "ln_txs st = filter isPayloadValid payload"
    "ln_txCount st = of_nat (length (filter isPayloadValid payload))"
    using record_lane_new [OF assms] .
  then show ?thesis
    using assms(2) by (auto simp: record_lane_def lane_entry_def gather_txs_eq Let_def)
qed

theorem resent_lane_doubles_transfers_witness:
  "let env = \<lparr> le_Phase = ''warmup'', le_BlockIndex = 0, le_LaneID = 2, le_BatchHex = [], le_CreatedAtUnixMs = 1 \<rparr>;
       tx = \<lparr> SenderIndex = 1, ReceiverIndex = 2, Amount = 3 \<rparr>
   in \<exists>st. map_of (snd (record_lane 4 0 env [tx] [] (snd (record_lane 4 0 env [tx] [] [])))) 0 = Some st
      \<and> ln_txs st = [tx, tx]"
  using resent_lane_doubles_transfers
    [of "[]" "\<lparr> le_Phase = ''warmup'', le_BlockIndex = 0, le_LaneID = 2, le_BatchHex = [], le_CreatedAtUnixMs = 1 \<rparr>" 4 0
      "[\<lparr> SenderIndex = 1, ReceiverIndex = 2, Amount = 3 \<rparr>]" "[]" 0]
  by (auto simp: Let_def isPayloadValid_iff)

text \<open>The entry of a completed block is deleted before its commit is forwarded: when the forwarding fails, the answer is
  502 and the block is forgotten, so that the same request, sent again, opens the block anew and is answered with
  success without forwarding anything.\<close>

theorem failed_forward_loses_block:
  assumes "1 < lanes" and fail: "l2_aggregator lanes now ep Post r (states, w) = (Reply resp, (states', w'))"
    and status: "hs_Status resp = 502"
  shows "\<exists>states''. l2_aggregator lanes now' ep Post' r (states', w'') = (ok_reply, (states'', w''))"
proof -
  have post: "hr_Method r = ''POST''"
    using fail status by (auto simp: l2_aggregator_def json_handler_def http_Error_def split: if_splits)
  then obtain env where env: "Decode_LaneBatchEnvelope (hr_Body r) = Some env"
    "lane_batch_post lanes now ep Post env (states, w) = (Reply resp, (states', w'))"
    using fail status by (auto simp: l2_aggregator_def json_handler_def http_Error_def split: option.splits)
  obtain bytes where bytes: "DecodeString (le_BatchHex env) = Inr bytes"
    using env(2) status by (cases "DecodeString (le_BatchHex env)") (auto simp: lane_batch_post_def http_Error_def)
  obtain e bf where u: "BatchFrameV1_UnmarshalBinary zero_frame bytes = (e, bf)"
    by (cases "BatchFrameV1_UnmarshalBinary zero_frame bytes")
  have ok: "e = None" "bf_BlockIndex bf = le_BlockIndex env" "bf_LaneID bf = le_LaneID env"
    using env(2) status bytes u
    by (cases e; auto simp: lane_batch_post_def http_Error_def split: if_splits)+
  obtain hash where hash: "BatchFrameV1_CommitmentHash bf = Inr hash"
    using CommitmentHash_ok UnmarshalBinary_small u ok(1) by metis
  obtain c S where rec: "record_lane lanes now env (bf_Payload bf) hash states = (c, S)"
    by (cases "record_lane lanes now env (bf_Payload bf) hash states")
  have "c \<noteq> None" "states' = S"
    using env(2) status bytes u ok hash rec
    by (auto simp: lane_batch_post_def ok_reply_def json_reply_def split: option.splits if_splits prod.splits)
  then have "map_of states' (le_BlockIndex env) = None"
    using rec by (auto simp: record_lane_def Let_def split: if_splits)
  then obtain st where "record_lane lanes now' env (bf_Payload bf) hash states'
      = (None, AList.update (le_BlockIndex env) st states')"
    using record_lane_new assms(1) by metis
  then show ?thesis
    using post env(1) bytes u ok hash by (simp add: l2_aggregator_def json_handler_def lane_batch_post_def)
qed

theorem failed_forward_loses_block_witness:
  "\<exists>r states states'' w. fst (l2_aggregator 2 0 ''http://replayer'' (\<lambda>_ _ _ w. (Inl ''refused'', w)) r (states, ()))
       = http_Error ''forward to proof-replayer failed'' 502
     \<and> l2_aggregator 2 0 ''http://replayer'' (\<lambda>_ _ _ w. (Inr 200, w)) r
        (snd (l2_aggregator 2 0 ''http://replayer'' (\<lambda>_ _ _ w. (Inl ''refused'', w)) r (states, ())))
       = (ok_reply, (states'', w))"
proof -
  let ?b = "\<lparr> lb_Phase = ''warmup'', lb_BlockIndex = 0, lb_LaneID = 1, lb_Payload = [], lb_CreatedAt = 1000000 \<rparr>"
  let ?env = "lane_to_envelope ?b 1"
  let ?r = "\<lparr> hr_Method = ''POST'', hr_Body = json_LaneBatchEnvelope ?env \<rparr>"
  let ?S = "[(0, \<lparr> ln_phase = ''warmup'', ln_createdAt = 1, ln_txCount = 0, ln_lanes = [(0, [])], ln_txs = [] \<rparr>)] :: lane_states"
  let ?down = "\<lambda>_ _ _ w. (Inl ''refused'', w) :: (string + int) \<times> unit"
  obtain h where h: "BatchFrameV1_CommitmentHash (BuildLaneBatchFrame (lb_BlockIndex ?b) (lb_LaneID ?b) (lb_Payload ?b)) = Inr h"
    using CommitmentHash_ok [of "BuildLaneBatchFrame 0 1 []"] by (auto simp: BuildLaneBatchFrame_def)
  have "Decode_LaneBatchEnvelope (json_LaneBatchEnvelope ?env) = Some ?env"
    using LaneBatchEnvelope_read [of ?env "[]"] by (simp add: fits_LaneBatchEnvelope_def int64_range_def)
  then have out: "l2_aggregator 2 0 ''http://replayer'' ?down ?r (?S, ())
      = (http_Error ''forward to proof-replayer failed'' 502, ([], ()))"
    using lane_post_eq [OF _ h, of 2 0 "''http://replayer''" ?down 1 ?S "()"]
    by (simp add: l2_aggregator_def json_handler_def record_lane_def lane_entry_def postJSON_def Let_def)
  then obtain states'' where "l2_aggregator 2 0 ''http://replayer'' (\<lambda>_ _ _ w. (Inr 200, w)) ?r ([], ()) = (ok_reply, (states'', ()))"
    using failed_forward_loses_block [OF _ out [unfolded http_Error_def], where now' = 0 and w'' = "()"
        and Post' = "\<lambda>_ _ _ w. (Inr 200, w)"] by auto
  then show ?thesis
    using out by - (rule exI [of _ ?r], rule exI [of _ ?S], rule exI [of _ states''], rule exI [of _ "()"], simp)
qed

end
