(* ===== verification/Svc_Sequencer.thy ===== *)
theory Svc_Sequencer imports Svc_Aggregator "HOL-Library.Sublist" begin

text \<open>
  \<^verbatim>\<open>cmd/l2-sequencer\<close> and \<^verbatim>\<open>cmd/l2-ingress\<close>: transfers arrive on stream connections in records of twelve
  bytes, wait in a bounded channel, are buffered for the current block, and at each tick are dealt out
  over the lanes and posted to the aggregator.
\<close>

section \<open>State\<close>

text \<open>
  The channel with its capacity \<^verbatim>\<open>131072\<close>, the drop counter and the local variables of \<^verbatim>\<open>main\<close>.
\<close>

record seq_state =
  sq_txCh :: "Tx12 list"
  sq_dropped :: u64
  sq_currentBlock :: u32
  sq_buffer :: "Tx12 list"
  sq_rr :: u64

definition txCh_capacity :: nat where
  "txCh_capacity = 131072"

definition new_sequencer :: "nat \<Rightarrow> seq_state" where
  "new_sequencer startBlock = \<lparr> sq_txCh = [], sq_dropped = 0, sq_currentBlock = of_nat startBlock,
     sq_buffer = [], sq_rr = 0 \<rparr>"

section \<open>The stream reader\<close>

text \<open>One record of the stream: it is dropped when it does not parse or the channel is full.\<close>

definition read_record :: "byte list \<Rightarrow> seq_state \<Rightarrow> seq_state" where
  "read_record buf s =
     (case UnmarshalTx12 buf of
        Inl _ \<Rightarrow> s\<lparr> sq_dropped := sq_dropped s + 1 \<rparr>
      | Inr tx \<Rightarrow>
          if length (sq_txCh s) < txCh_capacity then s\<lparr> sq_txCh := sq_txCh s @ [tx] \<rparr>
          else s\<lparr> sq_dropped := sq_dropped s + 1 \<rparr>)"

text \<open>\<^verbatim>\<open>io.ReadFull\<close> cuts the stream into records; a shorter rest ends the connection.\<close>

function stream_records :: "byte list \<Rightarrow> byte list list" where
  "stream_records bs = (if length bs < 12 then [] else take 12 bs # stream_records (drop 12 bs))"
  by pat_completeness auto
termination
  by (relation "measure length") auto

declare stream_records.simps [simp del]

definition read_tx_stream :: "byte list \<Rightarrow> seq_state \<Rightarrow> seq_state" where
  "read_tx_stream bs s = fold read_record (stream_records bs) s"

section \<open>Sealing a block\<close>

fun deal :: "u64 \<Rightarrow> Tx12 list \<Rightarrow> Tx12 list list \<Rightarrow> Tx12 list list \<times> u64" where
  "deal rr [] laned = (laned, rr)"
| "deal rr (tx # txs) laned =
     (let lane = unat (rr mod of_nat (length laned))
      in deal (rr + 1) txs (laned[lane := laned ! lane @ [tx]]))"

text \<open>
  The loop over the lanes: the lanes whose batch could not be forwarded, which is only reported.
  \<^const>\<open>None\<close> is the panic of the frame encoder, which ends the process.
\<close>

fun post_lanes ::
    "'w transport \<Rightarrow> string \<Rightarrow> string \<Rightarrow> u32 \<Rightarrow> int \<Rightarrow> (nat \<times> Tx12 list) list \<Rightarrow> 'w \<Rightarrow> (u16 list \<times> 'w) option" where
  "post_lanes Post endpoint phase block createdAt [] w = Some ([], w)"
| "post_lanes Post endpoint phase block createdAt ((laneID, payload) # rest) w =
     (let bf = BuildLaneBatchFrame block (of_nat laneID) payload
      in case BatchFrameV1_MarshalBinary bf of
           Inl _ \<Rightarrow> None
         | Inr bytes \<Rightarrow>
             let env = \<lparr> le_Phase = phase, le_BlockIndex = block, le_LaneID = of_nat laneID,
                         le_BatchHex = EncodeToString bytes, le_CreatedAtUnixMs = createdAt \<rparr>;
                 (err, w) = postJSON Post endpoint (json_LaneBatchEnvelope env) w
             in (case post_lanes Post endpoint phase block createdAt rest w of
                   None \<Rightarrow> None
                 | Some (failed, w) \<Rightarrow> Some ((if err = None then [] else [of_nat laneID]) @ failed, w)))"

definition seal_block ::
    "int \<Rightarrow> string \<Rightarrow> string \<Rightarrow> 'w transport \<Rightarrow> int \<Rightarrow> seq_state \<Rightarrow> 'w \<Rightarrow> (u16 list \<times> seq_state \<times> 'w) option" where
  "seal_block lanes phase endpoint Post createdAt s w =
     (let (laned, rr) = deal (sq_rr s) (sq_buffer s) (replicate (nat lanes) [])
      in case post_lanes Post endpoint phase (sq_currentBlock s) createdAt (enumerate 0 laned) w of
           None \<Rightarrow> None
         | Some (failed, w) \<Rightarrow>
             Some (failed, s\<lparr> sq_rr := rr, sq_currentBlock := sq_currentBlock s + 1, sq_buffer := [] \<rparr>, w))"

text \<open>
  The process: a reader stores a record, the main loop takes a transfer from the channel, or the
  ticker fires.  The second component of the result is the block sealed by the step, if any.
\<close>

datatype seq_event = Seq_record "byte list" | Seq_receive | Seq_tick int

definition seq_step ::
    "int \<Rightarrow> string \<Rightarrow> string \<Rightarrow> 'w transport \<Rightarrow> seq_event \<Rightarrow> seq_state \<times> 'w \<Rightarrow> (Tx12 list option \<times> seq_state \<times> 'w) option" where
  "seq_step lanes phase endpoint Post ev = (\<lambda>(s, w).
     case ev of
       Seq_record buf \<Rightarrow> Some (None, read_record buf s, w)
     | Seq_receive \<Rightarrow>
         (case sq_txCh s of
            [] \<Rightarrow> None
          | tx # txs \<Rightarrow> Some (None, s\<lparr> sq_txCh := txs, sq_buffer := sq_buffer s @ [tx] \<rparr>, w))
     | Seq_tick createdAt \<Rightarrow>
         (case seal_block lanes phase endpoint Post createdAt s w of
            None \<Rightarrow> None
          | Some (_, s', w') \<Rightarrow> Some (Some (sq_buffer s), s', w')))"

fun seq_run ::
    "int \<Rightarrow> string \<Rightarrow> string \<Rightarrow> 'w transport \<Rightarrow> seq_event list \<Rightarrow> seq_state \<times> 'w \<Rightarrow> (Tx12 list list \<times> seq_state \<times> 'w) option" where
  "seq_run lanes phase endpoint Post [] sw = Some ([], sw)"
| "seq_run lanes phase endpoint Post (ev # evs) sw =
     (case seq_step lanes phase endpoint Post ev sw of
        None \<Rightarrow> None
      | Some (sealed, sw') \<Rightarrow>
          (case seq_run lanes phase endpoint Post evs sw' of
             None \<Rightarrow> None
           | Some (rest, sw'') \<Rightarrow> Some ((case sealed of None \<Rightarrow> [] | Some b \<Rightarrow> [b]) @ rest, sw'')))"

section \<open>cmd/l2-ingress\<close>

definition ingress_tx_per_block :: "int \<Rightarrow> int \<Rightarrow> int" where
  "ingress_tx_per_block tps blockTimeMs =
     int_of_f64 (f64_mul (f64_of_int tps) (Seconds (wrap64 (blockTimeMs * Millisecond))))"

datatype ingress_error = EndpointRequired | NotPositive | DialFailed string | WriteFailed u32 string

text \<open>\<open>Write\<close> appends one transfer to the connection or fails; pauses are left out.\<close>

fun ingress_txs ::
    "(byte list \<Rightarrow> byte list \<Rightarrow> string + byte list) \<Rightarrow> u32 \<Rightarrow> Tx12 list \<Rightarrow> byte list \<Rightarrow> ingress_error + byte list" where
  "ingress_txs Write blockIndex [] conn = Inr conn"
| "ingress_txs Write blockIndex (tx # txs) conn =
     (case Write conn (Tx12_MarshalBinary tx) of
        Inl e \<Rightarrow> Inl (WriteFailed blockIndex e)
      | Inr conn \<Rightarrow> ingress_txs Write blockIndex txs conn)"

fun ingress_blocks ::
    "(byte list \<Rightarrow> byte list \<Rightarrow> string + byte list) \<Rightarrow> u32 \<Rightarrow> int \<Rightarrow> nat \<Rightarrow> nat \<Rightarrow> byte list \<Rightarrow> ingress_error + byte list" where
  "ingress_blocks Write startBlock txPerBlock i 0 conn = Inr conn"
| "ingress_blocks Write startBlock txPerBlock i (Suc n) conn =
     (let blockIndex = startBlock + of_nat i
      in case ingress_txs Write blockIndex (GenerateSyntheticTxs blockIndex txPerBlock) conn of
           Inl e \<Rightarrow> Inl e
         | Inr conn \<Rightarrow> ingress_blocks Write startBlock txPerBlock (Suc i) n conn)"

definition ingress_main ::
    "(string \<Rightarrow> string option) \<Rightarrow> (byte list \<Rightarrow> byte list \<Rightarrow> string + byte list)
     \<Rightarrow> string \<Rightarrow> int \<Rightarrow> int \<Rightarrow> int \<Rightarrow> nat \<Rightarrow> ingress_error + byte list" where
  "ingress_main Dial Write endpoint blocks tps blockTimeMs startBlock =
     (if endpoint = [] then Inl EndpointRequired
      else if blocks \<le> 0 \<or> tps \<le> 0 \<or> blockTimeMs \<le> 0 then Inl NotPositive
      else (case Dial endpoint of
              Some e \<Rightarrow> Inl (DialFailed e)
            | None \<Rightarrow> ingress_blocks Write (of_nat startBlock) (ingress_tx_per_block tps blockTimeMs) 0 (nat blocks) []))"

section \<open>What is streamed is received\<close>

lemma stream_records_append:
  "length r = 12 \<Longrightarrow> stream_records (r @ bs) = r # stream_records bs"
  by (subst stream_records.simps) simp

lemma stream_records_txs:
  "length rest < 12 \<Longrightarrow> stream_records (concat (map Tx12_MarshalBinary txs) @ rest) = map Tx12_MarshalBinary txs"
  by (induction txs) (simp_all add: stream_records_append, subst stream_records.simps, simp)

lemma read_records_room:
  "length (sq_txCh s) + length txs \<le> txCh_capacity
   \<Longrightarrow> fold read_record (map Tx12_MarshalBinary txs) s = s\<lparr> sq_txCh := sq_txCh s @ txs \<rparr>"
  by (induction txs arbitrary: s) (simp_all add: read_record_def)

lemma ingress_txs_written:
  "(\<And>conn bs. Write conn bs = Inr (conn @ bs)) \<Longrightarrow> ingress_txs Write b txs conn = Inr (conn @ concat (map Tx12_MarshalBinary txs))"
  by (induction txs arbitrary: conn) simp_all

definition ingress_load :: "u32 \<Rightarrow> int \<Rightarrow> nat \<Rightarrow> nat \<Rightarrow> Tx12 list" where
  "ingress_load startBlock txPerBlock i n =
     concat (map (\<lambda>k. GenerateSyntheticTxs (startBlock + of_nat k) txPerBlock) [i..<i + n])"

lemma ingress_blocks_written:
  "(\<And>conn bs. Write conn bs = Inr (conn @ bs)) \<Longrightarrow>
   ingress_blocks Write startBlock k i n conn = Inr (conn @ concat (map Tx12_MarshalBinary (ingress_load startBlock k i n)))"
proof (induction n arbitrary: i conn)
  case (Suc n)
  have "[i..<i + Suc n] = i # [Suc i..<Suc i + n]" by (simp add: upt_rec)
  then show ?case using Suc by (simp add: ingress_load_def ingress_txs_written Let_def del: upt_Suc)
qed (simp add: ingress_load_def)



section \<open>Nothing is lost between the stream and the sealed blocks\<close>

text \<open>The records offered by a run, and the transfers in them.\<close>

fun offered :: "seq_event list \<Rightarrow> byte list list" where
  "offered [] = []"
| "offered (Seq_record buf # evs) = buf # offered evs"
| "offered (_ # evs) = offered evs"

definition held :: "seq_state \<Rightarrow> Tx12 list" where
  "held s = sq_buffer s @ sq_txCh s"

lemma seal_block_fields:
  assumes "seal_block lanes phase endpoint Post t s w = Some (failed, s', w')"
  shows "sq_txCh s' = sq_txCh s" "sq_buffer s' = []" "sq_dropped s' = sq_dropped s"
    "sq_currentBlock s' = sq_currentBlock s + 1"
  using assms by (auto simp: seal_block_def split: prod.splits option.splits)

text \<open>One record is taken or counted.\<close>

lemma read_record_cases:
  obtains (taken) tx where "UnmarshalTx12 buf = Inr tx" "held (read_record buf s) = held s @ [tx]"
      "sq_dropped (read_record buf s) = sq_dropped s" "sq_currentBlock (read_record buf s) = sq_currentBlock s"
    | (dropped) "held (read_record buf s) = held s" "sq_dropped (read_record buf s) = sq_dropped s + 1"
      "sq_currentBlock (read_record buf s) = sq_currentBlock s"
  by (cases "UnmarshalTx12 buf"; cases "length (sq_txCh s) < txCh_capacity") (auto simp: read_record_def held_def)



end
