(* ===== verification/Cluster.thy ===== *)
theory Cluster imports Svc_Sequencer begin

text \<open>
  The services connected: the sequencer posts to the aggregator, the aggregator to the replayer, the
  replayer to the certification node.  A tick of the sequencer certifies its block.
\<close>

section \<open>The chain of services\<close>

text \<open>The state behind the sequencer: the aggregator's blocks, the replayer's book and the node.\<close>

type_synonym chain = "lane_states \<times> ProofBook \<times> L1CertNode"

definition chain_post :: "int \<Rightarrow> nat \<Rightarrow> string \<Rightarrow> string \<Rightarrow> int \<Rightarrow> time \<Rightarrow> time \<Rightarrow> chain transport" where
  "chain_post lanes badProofAt proofEndpoint l1Endpoint ms now now' =
     serve (l2_aggregator lanes ms proofEndpoint
       (serve (proof_replayer badProofAt l1Endpoint (serve (l1_cert_node now now')))))"

section \<open>Dealing\<close>

lemma deal_index: "0 < n \<Longrightarrow> n < 2 ^ 64 \<Longrightarrow> unat (rr mod of_nat n :: u64) < n"
  by (simp add: unat_mod unsigned_of_nat take_bit_nat_eq_self)

lemma length_deal [simp]: "length (fst (deal rr txs laned)) = length laned"
  by (induction rr txs laned rule: deal.induct) (simp_all add: Let_def)

lemma mset_deal:
  "0 < length laned \<Longrightarrow> length laned < 2 ^ 64 \<Longrightarrow> mset (concat (fst (deal rr txs laned))) = mset (concat laned) + mset txs"
proof (induction txs arbitrary: rr laned)
  case (Cons tx txs)
  let ?k = "unat (rr mod of_nat (length laned) :: u64)"
  have k: "?k < length laned" using deal_index Cons.prems by blast
  have "mset (concat (fst (deal rr (tx # txs) laned)))
      = mset (concat (laned[?k := laned ! ?k @ [tx]])) + mset txs"
    using Cons by (simp add: Let_def)
  then show ?case by (simp only: mset_concat_append [OF k]) simp
qed simp

section \<open>Posting the lanes of a block\<close>

text \<open>The lanes go through the aggregator service as the batches go through the in-process aggregator; \<open>g\<close> is what
  the forwarding of a commit does to the services behind.\<close>

lemma post_lanes_collect:
  assumes env: "bj_Phase job \<noteq> []" "bj_CreatedAt job = t * 1000000" "t \<noteq> 0" "int64_range t"
    and small: "\<And>k. k \<in> set ks \<Longrightarrow> length (lanes ! k) < 2 ^ 32" and ep: "proofEndpoint \<noteq> []"
  shows "all_stamped states
    \<Longrightarrow> collect_batches cfg (map (lane_batch job lanes) ks) (states_view states, m) = Some (cs, S, m')
    \<Longrightarrow> (\<And>c w. c \<in> set cs \<Longrightarrow> postJSON Post proofEndpoint
          (json_BlockCommitEnvelope (commit_to_envelope c (bc_CreatedAt c div 1000000))) w = (None, g c w))
    \<Longrightarrow> \<exists>states'. states_view states' = S \<and> post_lanes (serve (l2_aggregator (cfg_Lanes cfg) now proofEndpoint Post))
          url (bj_Phase job) (bj_BlockIndex job) t (map (\<lambda>k. (k, lanes ! k)) ks) (states, w)
        = Some ([], (states', fold g cs w))"
  using small
proof (induction ks arbitrary: states w m cs)
  case (Cons k ks)
  let ?b = "lane_batch job lanes k"
  let ?Post = "serve (l2_aggregator (cfg_Lanes cfg) now proofEndpoint Post)"
  have sk: "length (lanes ! k) < 2 ^ 32" using Cons.prems(4) by simp
  obtain c S1 m1 where agg: "aggregate_batch cfg ?b (states_view states, m) = Some (c, S1, m1)"
    using Cons.prems(2) by (auto split: option.splits)
  let ?S = "case c of None \<Rightarrow> S1 | Some _ \<Rightarrow> AList.delete (lb_BlockIndex ?b) S1"
  obtain cs' where rest: "collect_batches cfg (map (lane_batch job lanes) ks) (?S, m1) = Some (cs', S, m')"
    and cs: "cs = (case c of None \<Rightarrow> cs' | Some x \<Rightarrow> x # cs')"
    using Cons.prems(2) agg by (auto split: option.splits)
  obtain states1 where s1: "all_stamped states1" "states_view states1 = ?S"
    "postJSON ?Post url (json_LaneBatchEnvelope (lane_to_envelope ?b t)) (states, w)
      = (case c of
           None \<Rightarrow> (None, (states1, w))
         | Some x \<Rightarrow> (case postJSON Post proofEndpoint
                 (json_BlockCommitEnvelope (commit_to_envelope x (bc_CreatedAt x div 1000000))) w of
                (err, w') \<Rightarrow> (map_option (\<lambda>_. BadStatus 502) err, (states1, w'))))"
    using aggregator_service [where b = ?b and ms = t and cfg = cfg and states = states and m = m and c = c and S = S1
        and m' = m1 and now = now and Post = Post and url = url and w = w and proofEndpoint = proofEndpoint]
      env Cons.prems(1) sk ep agg by auto
  define w1 where "w1 = (case c of None \<Rightarrow> w | Some x \<Rightarrow> g x w)"
  have posted: "postJSON ?Post url (json_LaneBatchEnvelope (lane_to_envelope ?b t)) (states, w) = (None, (states1, w1))"
    using s1(3) Cons.prems(3) cs by (cases c) (simp_all add: w1_def)
  obtain states' where s': "states_view states' = S"
    "post_lanes ?Post url (bj_Phase job) (bj_BlockIndex job) t (map (\<lambda>k. (k, lanes ! k)) ks) (states1, w1)
      = Some ([], (states', fold g cs' w1))"
    using Cons.IH [of states1 m1 cs' w1] s1(1,2) rest Cons.prems(3,4) cs by (auto split: option.splits)
  obtain bytes where bytes: "BatchFrameV1_MarshalBinary (BuildLaneBatchFrame (bj_BlockIndex job) (of_nat k) (lanes ! k)) = Inr bytes"
    using Unmarshal_Marshal_frame [of "BuildLaneBatchFrame (bj_BlockIndex job) (of_nat k) (lanes ! k)" zero_frame] sk
    by (auto simp: BuildLaneBatchFrame_def)
  then have "lane_to_envelope ?b t = \<lparr> le_Phase = bj_Phase job, le_BlockIndex = bj_BlockIndex job,
      le_LaneID = of_nat k, le_BatchHex = EncodeToString bytes, le_CreatedAtUnixMs = t \<rparr>"
    by (simp add: lane_to_envelope_def)
  then have "post_lanes ?Post url (bj_Phase job) (bj_BlockIndex job) t (map (\<lambda>k. (k, lanes ! k)) (k # ks)) (states, w)
      = Some ([], (states', fold g cs' w1))"
    using posted s'(2) bytes by (simp add: Let_def)
  moreover have "fold g cs' w1 = fold g cs w" using cs by (cases c) (simp_all add: w1_def)
  ultimately show ?case using s'(1) by auto
qed simp

section \<open>A tick certifies the block\<close>

text \<open>What the chain behind the aggregator does with a commit.\<close>

definition certify_effect :: "Config \<Rightarrow> time \<Rightarrow> BlockCommit \<Rightarrow> ProofBook \<times> L1CertNode \<Rightarrow> ProofBook \<times> L1CertNode" where
  "certify_effect cfg now c = (\<lambda>(book, n).
     (snd (replay_request cfg c book), snd (SubmitCertifiedBlock now (fst (replay_request cfg c book)) n)))"

lemma deal_small:
  assumes "0 < k" "k < 2 ^ 64" "length txs < 2 ^ 32" "l \<in> set (fst (deal rr txs (replicate k [])))"
  shows "length l < 2 ^ 32"
proof -
  have "mset (concat (fst (deal rr txs (replicate k [])))) = mset txs"
    using mset_deal [of "replicate k []" rr txs] assms(1,2) by simp
  then have "length (concat (fst (deal rr txs (replicate k [])))) = length txs" by (metis size_mset)
  moreover have "length l \<le> length (concat (fst (deal rr txs (replicate k []))))"
    using member_le_sum_list [of "length l" "map length (fst (deal rr txs (replicate k [])))"] assms(4)
    by (simp add: length_concat)
  ultimately show ?thesis using assms(3) by linarith
qed

lemma seal_block_chain:
  assumes lanes: "0 < cfg_Lanes cfg" "cfg_Lanes cfg \<le> 2 ^ 16" and buf: "length (sq_buffer s) < 2 ^ 32"
    and env: "phase \<noteq> []" "t \<noteq> 0" "int64_range t" and ep: "proofEndpoint \<noteq> []"
    and st: "all_stamped states" "map_of states (sq_currentBlock s) = None"
    and fault: "BadProofAt (cfg_Fault cfg) = of_nat badProofAt" "badProofAt < 2 ^ 32"
  shows "\<exists>L rr. mset (concat L) = mset (sq_buffer s)
    \<and> seal_block (cfg_Lanes cfg) phase url
        (chain_post (cfg_Lanes cfg) badProofAt proofEndpoint l1Endpoint ms now now') t s (states, book, n)
      = Some ([], s\<lparr> sq_rr := rr, sq_currentBlock := sq_currentBlock s + 1, sq_buffer := [] \<rparr>,
          (states, certify_effect cfg now'
             (lanes_commit \<lparr> bj_Phase = phase, bj_BlockIndex = sq_currentBlock s, bj_Txs = [], bj_CreatedAt = t * 1000000 \<rparr> L)
             (book, n)))"
proof -
  let ?n = "nat (cfg_Lanes cfg)"
  let ?job = "\<lparr> bj_Phase = phase, bj_BlockIndex = sq_currentBlock s, bj_Txs = [], bj_CreatedAt = t * 1000000 \<rparr>"
  obtain L rr where L: "deal (sq_rr s) (sq_buffer s) (replicate ?n []) = (L, rr)" by (cases "deal (sq_rr s) (sq_buffer s) (replicate ?n [])")
  have n: "0 < ?n" "?n \<le> 2 ^ 16" "?n < 2 ^ 64" using lanes by (simp_all add: nat_le_iff nat_less_iff)
  have len: "length L = ?n" using length_deal [of "sq_rr s" "sq_buffer s" "replicate ?n []"] L by simp
  have mset: "mset (concat L) = mset (sq_buffer s)"
    using mset_deal [of "replicate ?n []" "sq_rr s" "sq_buffer s"] n L by simp
  have small: "length l < 2 ^ 32" if "l \<in> set L" for l
    using deal_small [OF n(1,3) buf] that L by (metis fst_conv)
  have collect: "collect_batches cfg (map (lane_batch ?job L) [0..<?n]) (states_view states, NewRegistry)
      = Some ([lanes_commit ?job L], states_view states, IncDrop (of_nat (invalid_count (concat L))) NewRegistry)"
  proof -
    have "AList.delete (sq_currentBlock s) (states_view states) = states_view states"
      using st(2) by (simp add: delete_id map_of_eq_None_iff)
    then show ?thesis
      using collect_lanes [where lanes = L and cfg = cfg and job = ?job and k = 0 and states = "states_view states"
          and m = NewRegistry] len lanes n(2) small st(2) n(1) by simp
  qed
  let ?Post = "serve (proof_replayer badProofAt l1Endpoint (serve (l1_cert_node now now')))"
  have fwd: "postJSON ?Post proofEndpoint
      (json_BlockCommitEnvelope (commit_to_envelope c (bc_CreatedAt c div 1000000))) w = (None, certify_effect cfg now' c w)"
    if "c \<in> set [lanes_commit ?job L]" for c w
    using replayer_service [where c = c and ms = t and cfg = cfg and badProofAt = badProofAt and url = proofEndpoint
        and l1Endpoint = l1Endpoint and now = now and now' = now' and book = "fst w" and n = "snd w"] that env fault
    by (simp add: certify_effect_def split_beta)
  obtain states' where states': "states_view states' = states_view states"
    "post_lanes (serve (l2_aggregator (cfg_Lanes cfg) ms proofEndpoint ?Post)) url phase (sq_currentBlock s) t
       (map (\<lambda>k. (k, L ! k)) [0..<?n]) (states, (book, n))
     = Some ([], (states', fold (certify_effect cfg now') [lanes_commit ?job L] (book, n)))"
    using post_lanes_collect [where job = ?job and t = t and lanes = L and ks = "[0..<?n]" and proofEndpoint = proofEndpoint
        and states = states and cfg = cfg and m = NewRegistry and Post = ?Post and g = "certify_effect cfg now'"
        and now = ms and url = url and w = "(book, n)", OF _ _ _ _ _ ep st(1) collect fwd] env small len
    by auto
  have "states' = states" using states'(1) by (rule states_view_inj)
  moreover have "enumerate 0 L = map (\<lambda>k. (k, L ! k)) [0..<?n]"
    by (rule nth_equalityI) (simp_all add: nth_enumerate_eq len)
  ultimately show ?thesis
    using states'(2) mset L by (intro exI [of _ L] exI [of _ rr]) (simp add: seal_block_def chain_post_def)
qed

text \<open>C9. End to end over HTTP: a tick of the sequencer posts its lanes without an error, leaves nothing of the block in the
  aggregator, and the node accepts the block, unless it is the one chosen for the injected bad proof, and moves
  every balance by what the buffered transfers with an amount move, whatever the number of lanes.\<close>

theorem tick_certifies_block:
  assumes "0 < cfg_Lanes cfg" "cfg_Lanes cfg \<le> 2 ^ 16" "length (sq_buffer s) < 2 ^ 32"
    and "phase \<noteq> []" "t \<noteq> 0" "int64_range t" "proofEndpoint \<noteq> []"
    and "all_stamped states" "map_of states (sq_currentBlock s) = None"
    and "BadProofAt (cfg_Fault cfg) = of_nat badProofAt" "badProofAt < 2 ^ 32"
    and "book_view book (sq_currentBlock s) = GenerateProofBytes (l1_proofSeed n) (sq_currentBlock s)"
    and "map_of (l1_blocks n) (sq_currentBlock s) = None"
  shows "\<exists>s' book' n'. seal_block (cfg_Lanes cfg) phase url
        (chain_post (cfg_Lanes cfg) badProofAt proofEndpoint l1Endpoint ms now now') t s (states, book, n)
      = Some ([], s', (states, book', n'))
    \<and> sq_currentBlock s' = sq_currentBlock s + 1 \<and> sq_buffer s' = [] \<and> book_view book' = book_view book
    \<and> (map_of (l1_blocks n') (sq_currentBlock s) \<noteq> None) = (\<not> bad_block cfg (sq_currentBlock s))
    \<and> (\<forall>i. Balance i n' = Balance i n
        + (if bad_block cfg (sq_currentBlock s) then 0 else net_flow (filter isPayloadValid (sq_buffer s)) i))"
proof -
  obtain L rr where L: "mset (concat L) = mset (sq_buffer s)"
    and seal: "seal_block (cfg_Lanes cfg) phase url
        (chain_post (cfg_Lanes cfg) badProofAt proofEndpoint l1Endpoint ms now now') t s (states, book, n)
      = Some ([], s\<lparr> sq_rr := rr, sq_currentBlock := sq_currentBlock s + 1, sq_buffer := [] \<rparr>,
          (states, certify_effect cfg now'
             (lanes_commit \<lparr> bj_Phase = phase, bj_BlockIndex = sq_currentBlock s, bj_Txs = [], bj_CreatedAt = t * 1000000 \<rparr> L)
             (book, n)))"
    using seal_block_chain [OF assms(1-11)] by blast
  let ?c = "lanes_commit \<lparr> bj_Phase = phase, bj_BlockIndex = sq_currentBlock s, bj_Txs = [], bj_CreatedAt = t * 1000000 \<rparr> L"
  let ?req = "fst (replay_request cfg ?c book)"
  have a: "applies ?req n \<longleftrightarrow> \<not> bad_block cfg (sq_currentBlock s)"
    using replay_accepts_commit [of book ?c "l1_proofSeed n" cfg] assms(12,13) by (simp add: applies_def)
  have accepted: "(map_of (l1_blocks (snd (SubmitCertifiedBlock now' ?req n))) (sq_currentBlock s) \<noteq> None)
      = (\<not> bad_block cfg (sq_currentBlock s))"
    using a Submit_applies(1) [of ?req n now'] Submit_unchanged(1) [of ?req n now'] assms(13) by (cases "applies ?req n") auto
  have "net_flow (filter isPayloadValid (concat L)) i = net_flow (filter isPayloadValid (sq_buffer s)) i" for i
    by (rule net_flow_mset) (simp add: L)
  then have balance: "Balance i (snd (SubmitCertifiedBlock now' ?req n)) = Balance i n
      + (if bad_block cfg (sq_currentBlock s) then 0 else net_flow (filter isPayloadValid (sq_buffer s)) i)" for i
    using certify_commit(2) [where book = book and c = ?c and n = n and now = now' and cfg = cfg and i = i] assms(12,13) by simp
  show ?thesis
    using seal accepted balance by (auto simp: certify_effect_def)
qed

theorem tick_certifies_block_witness:
  "\<exists>s' book' n'. seal_block 4 ''certification'' [] (chain_post 4 0 ''http://replayer'' [] 0 0 5) 1
       ((new_sequencer 7)\<lparr> sq_buffer := GenerateSyntheticTxs 7 3 \<rparr>) ([], NewProofBook ''s'', NewL1CertNode ''s'' NewRegistry)
     = Some ([], s', ([], book', n')) \<and> map_of (l1_blocks n') 7 \<noteq> None"
proof -
  let ?s = "(new_sequencer 7)\<lparr> sq_buffer := GenerateSyntheticTxs 7 3 \<rparr>"
  have cfg: "cfg_Lanes (smoke_config 200 5000) = 4" "BadProofAt (cfg_Fault (smoke_config 200 5000)) = of_nat 0"
    "\<not> bad_block (smoke_config 200 5000) 7"
    by (simp_all add: smoke_config_def bad_block_def)
  show ?thesis
    using tick_certifies_block [where cfg = "smoke_config 200 5000" and s = ?s and phase = "''certification''" and t = 1
        and proofEndpoint = "''http://replayer''" and states = "[]" and badProofAt = 0
        and book = "NewProofBook ''s''" and n = "NewL1CertNode ''s'' NewRegistry" and url = "[]" and l1Endpoint = "[]"
        and ms = 0 and now = 0 and now' = 5] cfg
    by (auto simp: new_sequencer_def all_stamped_def int64_range_def NewL1CertNode_def)
qed

end
