(* ===== verification/Proofctl_Text.thy ===== *)
theory Proofctl_Text imports Go_Json begin

text \<open>
  The texts \<^verbatim>\<open>cmd/kaia-proofctl/main.go\<close> reads and prints: comma-separated lists, big integers, addresses,
  environment variables, amounts and throughputs.  Addresses and keys belong to go-ethereum, whose functions
  are parameters.  Texts are ASCII, so white space is the ASCII white space.
\<close>

section \<open>strings and math/big\<close>

definition text_space :: "char \<Rightarrow> bool" where
  "text_space c \<longleftrightarrow> c \<in> {CHR '' '', CHR 0x09, CHR 0x0A, CHR 0x0B, CHR 0x0C, CHR 0x0D}"

definition TrimSpace :: "string \<Rightarrow> string" where
  "TrimSpace s = rev (dropWhile text_space (rev (dropWhile text_space s)))"

definition HasPrefix :: "string \<Rightarrow> string \<Rightarrow> bool" where
  "HasPrefix s p \<longleftrightarrow> take (length p) s = p"

definition TrimPrefix :: "string \<Rightarrow> string \<Rightarrow> string" where
  "TrimPrefix s p = (if HasPrefix s p then drop (length p) s else s)"

text \<open>\<^verbatim>\<open>strings.Split(s, ",")\<close>: one part more than there are separators.\<close>

fun Split :: "char \<Rightarrow> string \<Rightarrow> string list" where
  "Split sep [] = [[]]"
| "Split sep (c # s) =
     (if c = sep then [] # Split sep s else (case Split sep s of [] \<Rightarrow> [[c]] | p # ps \<Rightarrow> (c # p) # ps))"

definition digit_of :: "nat \<Rightarrow> char \<Rightarrow> nat option" where
  "digit_of base c = (let n = (of_char c :: nat);
     d = (if 48 \<le> n \<and> n \<le> 57 then n - 48 else if 97 \<le> n \<and> n \<le> 122 then n - 87
          else if 65 \<le> n \<and> n \<le> 90 then n - 55 else 36)
     in if d < base then Some d else None)"

fun read_base :: "nat \<Rightarrow> string \<Rightarrow> nat \<Rightarrow> nat option" where
  "read_base base [] acc = Some acc"
| "read_base base (c # s) acc = (case digit_of base c of None \<Rightarrow> None | Some d \<Rightarrow> read_base base s (base * acc + d))"

text \<open>\<^verbatim>\<open>big.Int.SetString\<close> for the bases 10 and 16: a sign, then digits and nothing else.\<close>

definition SetString :: "nat \<Rightarrow> string \<Rightarrow> int option" where
  "SetString base s =
     (let neg = (s \<noteq> [] \<and> hd s = CHR ''-'');
          ds = (if s \<noteq> [] \<and> (hd s = CHR ''-'' \<or> hd s = CHR ''+'') then tl s else s)
      in if ds = [] then None
         else map_option (\<lambda>n. if neg then - int n else int n) (read_base base ds 0))"

section \<open>Big integers\<close>

datatype text_error = InvalidBigInteger string | InvalidAddress string | MissingPrivateKey | InvalidPrivateKey string

text \<open>An empty text is no integer, without an error.\<close>

definition parseBigInt :: "string \<Rightarrow> text_error + int option" where
  "parseBigInt text =
     (let text = TrimSpace text
      in if text = [] then Inr None
         else let (text, base) = (if HasPrefix text ''0x'' \<or> HasPrefix text ''0X'' then (drop 2 text, 16) else (text, 10))
              in case SetString base text of
                   None \<Rightarrow> Inl (InvalidBigInteger text)
                 | Some value \<Rightarrow> Inr (Some value))"

text \<open>\<^const>\<open>None\<close> is the panic.\<close>

definition mustBigInt :: "string \<Rightarrow> int option" where
  "mustBigInt text = SetString 10 (TrimSpace text)"

section \<open>Lists and addresses\<close>

definition parseCSV :: "string \<Rightarrow> string list" where
  "parseCSV text = filter (\<lambda>v. v \<noteq> []) (map TrimSpace (Split (CHR '','') text))"

fun parse_addresses :: "(string \<Rightarrow> bool) \<Rightarrow> (string \<Rightarrow> 'addr) \<Rightarrow> string list \<Rightarrow> text_error + 'addr list" where
  "parse_addresses IsHexAddress HexToAddress [] = Inr []"
| "parse_addresses IsHexAddress HexToAddress (part # parts) =
     (if \<not> IsHexAddress part then Inl (InvalidAddress part)
      else bind_res (parse_addresses IsHexAddress HexToAddress parts) (\<lambda>as. Inr (HexToAddress part # as)))"

definition parseAddressList :: "(string \<Rightarrow> bool) \<Rightarrow> (string \<Rightarrow> 'addr) \<Rightarrow> string \<Rightarrow> text_error + 'addr list" where
  "parseAddressList IsHexAddress HexToAddress text = parse_addresses IsHexAddress HexToAddress (parseCSV text)"

text \<open>\<open>HexToAddr\<close> is \<^verbatim>\<open>crypto.HexToECDSA\<close> followed by \<^verbatim>\<open>PubkeyToAddress\<close>.\<close>

definition deriveSenderAddress :: "(string \<Rightarrow> string + 'addr) \<Rightarrow> string \<Rightarrow> text_error + 'addr" where
  "deriveSenderAddress HexToAddr privateKeyHex =
     (if privateKeyHex = [] then Inl MissingPrivateKey
      else (case HexToAddr (TrimPrefix privateKeyHex ''0x'') of
              Inl e \<Rightarrow> Inl (InvalidPrivateKey e)
            | Inr a \<Rightarrow> Inr a))"

definition resolveAccountAddress ::
    "(string \<Rightarrow> bool) \<Rightarrow> (string \<Rightarrow> 'addr) \<Rightarrow> (string \<Rightarrow> string + 'addr) \<Rightarrow> string \<Rightarrow> string \<Rightarrow> text_error + 'addr" where
  "resolveAccountAddress IsHexAddress HexToAddress HexToAddr addressText privateKeyHex =
     (let trimmed = TrimSpace addressText
      in if trimmed \<noteq> []
         then if \<not> IsHexAddress trimmed then Inl (InvalidAddress trimmed) else Inr (HexToAddress trimmed)
         else deriveSenderAddress HexToAddr privateKeyHex)"

section \<open>Environment\<close>

text \<open>\<open>Getenv\<close> is the process environment; an unset variable is empty.\<close>

definition envOr :: "(string \<Rightarrow> string) \<Rightarrow> string \<Rightarrow> string \<Rightarrow> string" where
  "envOr Getenv key fallback = (let value = TrimSpace (Getenv key) in if value \<noteq> [] then value else fallback)"

text \<open>\<^verbatim>\<open>Int64\<close> of an integer outside the type is its low 64 bits.\<close>

definition envOrInt :: "(string \<Rightarrow> string) \<Rightarrow> string \<Rightarrow> int \<Rightarrow> int" where
  "envOrInt Getenv key fallback =
     (let value = TrimSpace (Getenv key)
      in if value = [] then fallback
         else case SetString 10 value of None \<Rightarrow> fallback | Some parsed \<Rightarrow> wrap64 parsed)"

section \<open>Amounts, throughputs and latencies\<close>

definition weiToEtherString :: "int option \<Rightarrow> string" where
  "weiToEtherString wei = (case wei of
     None \<Rightarrow> ''0'' | Some w \<Rightarrow> FloatString 18 (of_int w / 1000000000000000000))"

definition calculateTPS :: "u64 \<Rightarrow> int \<Rightarrow> string" where
  "calculateTPS verifiedTxTotal elapsedMS =
     (if elapsedMS \<le> 0 then ''0''
      else FloatString 6 (of_int (uint verifiedTxTotal * 1000) / of_int elapsedMS))"

text \<open>The argument is a duration in nanoseconds.\<close>

definition clampLatencyMS :: "int \<Rightarrow> int" where
  "clampLatencyMS d = (let ms = go_quot d 1000000 in if ms < 0 then 0 else ms)"

section \<open>Integers are read back\<close>

lemma dropWhile_all_append: "list_all P xs \<Longrightarrow> dropWhile P (xs @ ys) = dropWhile P ys"
  by (simp add: list_all_iff dropWhile_append2)

lemma TrimSpace_around:
  assumes "list_all text_space a" "list_all text_space b" "s \<noteq> []" "\<not> text_space (hd s)" "\<not> text_space (last s)"
  shows "TrimSpace (a @ s @ b) = s"
proof -
  have 1: "dropWhile text_space (a @ s @ b) = s @ b"
    using assms(1,3,4) by (cases s) (simp_all add: dropWhile_all_append)
  have "list_all text_space (rev b)" using assms(2) by simp
  moreover have "dropWhile text_space (rev s) = rev s"
    using assms(3,5) by (cases s rule: rev_cases) simp_all
  ultimately have "dropWhile text_space (rev b @ rev s) = rev s" by (simp add: dropWhile_all_append)
  then show ?thesis by (simp add: TrimSpace_def 1)
qed

lemma digit_not_space: "digit c \<Longrightarrow> \<not> text_space c"
  by (auto simp: digit_def text_space_def)

lemma digit_of_digit: "digit c \<Longrightarrow> 10 \<le> base \<Longrightarrow> digit_of base c = Some (digit_value c)"
  by (auto simp: digit_of_def digit_def digit_value_def Let_def)

lemma read_base_digits:
  "list_all digit s \<Longrightarrow> read_base 10 s acc = Some (fold (\<lambda>c n. 10 * n + digit_value c) s acc)"
  by (induction s arbitrary: acc) (simp_all add: digit_of_digit)

lemma read_base_dec: "list_all digit s \<Longrightarrow> read_base 10 s 0 = Some (read_dec s)"
  by (simp add: read_base_digits read_dec_def)

lemma hd_digit: "s \<noteq> [] \<Longrightarrow> list_all digit s \<Longrightarrow> digit (hd s)"
  by (cases s) simp_all

lemma last_digit: "s \<noteq> [] \<Longrightarrow> list_all digit s \<Longrightarrow> digit (last s)"
  by (simp add: list_all_iff)

lemma digit_sign: "digit c \<Longrightarrow> c \<noteq> CHR ''-'' \<and> c \<noteq> CHR ''+''"
  by (auto simp: digit_def)

lemma SetString_digits:
  assumes "s \<noteq> []" "list_all digit s"
  shows "SetString 10 s = Some (int (read_dec s))" "SetString 10 (CHR ''-'' # s) = Some (- int (read_dec s))"
  using digit_sign [OF hd_digit [OF assms]] assms by (simp_all add: SetString_def read_base_dec Let_def)

lemma SetString_dec_int: "SetString 10 (dec_int i) = Some i"
  by (simp add: dec_int_def SetString_digits)

lemma dec_int_ends: "dec_int i \<noteq> []" "\<not> text_space (hd (dec_int i))" "\<not> text_space (last (dec_int i))"
proof -
  have "\<not> text_space (CHR ''-'')" by (simp add: text_space_def)
  moreover have "\<not> text_space (hd (dec_nat n))" "\<not> text_space (last (dec_nat n))" for n
    using hd_digit [OF dec_nat_not_Nil digits_dec_nat] last_digit [OF dec_nat_not_Nil digits_dec_nat] digit_not_space
    by blast+
  ultimately show "dec_int i \<noteq> []" "\<not> text_space (hd (dec_int i))" "\<not> text_space (last (dec_int i))"
    by (simp_all add: dec_int_def)
qed

text \<open>The number big-endian bytes stand for.\<close>

definition be_value :: "byte list \<Rightarrow> nat" where
  "be_value bs = fold (\<lambda>b n. 256 * n + unat b) bs 0"

lemma digit_of_hex: "unat n < 16 \<Longrightarrow> digit_of 16 (hex_digit n) = Some (unat n)"
proof -
  have "list_all (\<lambda>m. digit_of 16 (hex_digit (of_nat m)) = Some m) [0..<16]"
    by (simp add: upt_rec hex_digit_def digit_of_def)
  then show "unat n < 16 \<Longrightarrow> digit_of 16 (hex_digit n) = Some (unat n)" by (force simp: list_all_iff)
qed

lemma nibbles_value: "16 * unat (drop_bit 4 b) + unat (b AND 15) = unat b" for b :: byte
proof -
  have "b AND 15 = take_bit 4 b" by (simp add: take_bit_eq_mask mask_eq_exp_minus_1)
  then have "unat (b AND 15) = unat b mod 16" by (simp add: take_bit_eq_mod unat_mod)
  then show ?thesis by (simp add: drop_bit_eq_div unat_div)
qed

lemma read_base_hex: "read_base 16 (EncodeToString bs) acc = Some (fold (\<lambda>b n. 256 * n + unat b) bs acc)"
proof (induction bs arbitrary: acc)
  case (Cons b bs)
  have e: "256 * acc + 16 * unat (drop_bit 4 b) + unat (b AND 15) = 256 * acc + unat b"
    using nibbles_value [of b] by linarith
  show ?case using Cons by (simp add: digit_of_hex unat_nibbles e)
qed simp

lemma hex_text_ends:
  assumes "bs \<noteq> []" shows "\<not> text_space (last (EncodeToString bs))"
    "hd (EncodeToString bs) \<noteq> CHR ''-'' \<and> hd (EncodeToString bs) \<noteq> CHR ''+''" "EncodeToString bs \<noteq> []"
proof -
  have plain: "list_all (\<lambda>m. \<not> text_space (hex_digit (of_nat m)) \<and> hex_digit (of_nat m) \<noteq> CHR ''-''
      \<and> hex_digit (of_nat m) \<noteq> CHR ''+'') [0..<16]"
    by (simp add: upt_rec hex_digit_def text_space_def)
  have h: "\<not> text_space (hex_digit n) \<and> hex_digit n \<noteq> CHR ''-'' \<and> hex_digit n \<noteq> CHR ''+''" if "unat n < 16" for n
    using plain that by (force simp: list_all_iff)
  have "list_all (\<lambda>c. \<not> text_space c \<and> c \<noteq> CHR ''-'' \<and> c \<noteq> CHR ''+'') (EncodeToString bs)"
    by (induction bs) (simp_all add: h unat_nibbles)
  moreover show "EncodeToString bs \<noteq> []" using assms by (cases bs) simp_all
  ultimately show "\<not> text_space (last (EncodeToString bs))"
    "hd (EncodeToString bs) \<noteq> CHR ''-'' \<and> hd (EncodeToString bs) \<noteq> CHR ''+''"
    by (simp_all add: list_all_iff)
qed

lemma parse_dec:
  assumes "list_all text_space a" "list_all text_space b"
  shows "parseBigInt (a @ dec_int i @ b) = Inr (Some i)" "mustBigInt (a @ dec_int i @ b) = Some i"
proof -
  have t: "TrimSpace (a @ dec_int i @ b) = dec_int i"
    using assms dec_int_ends by (intro TrimSpace_around) auto
  have dx: "\<not> digit (CHR ''x'')" "\<not> digit (CHR ''X'')" by (simp_all add: digit_def)
  have no_prefix: "\<not> HasPrefix (dec_int i) ''0x'' \<and> \<not> HasPrefix (dec_int i) ''0X''"
  proof (cases "i < 0")
    case False
    obtain c ds where c: "dec_nat (nat i) = c # ds" by (metis dec_nat_not_Nil neq_Nil_conv)
    have "list_all digit (c # ds)" using digits_dec_nat [of "nat i"] by (simp only: c)
    then show ?thesis using False dx c by (cases ds) (auto simp: HasPrefix_def dec_int_def)
  qed (simp add: HasPrefix_def dec_int_def)
  show "parseBigInt (a @ dec_int i @ b) = Inr (Some i)"
    using no_prefix dec_int_ends(1) by (simp add: parseBigInt_def t SetString_dec_int Let_def)
  show "mustBigInt (a @ dec_int i @ b) = Some i" by (simp add: mustBigInt_def t SetString_dec_int)
qed

lemma parse_hex:
  assumes "list_all text_space a" "list_all text_space b" "bs \<noteq> []"
  shows "parseBigInt (a @ ''0x'' @ EncodeToString bs @ b) = Inr (Some (int (be_value bs)))"
proof -
  let ?s = "''0x'' @ EncodeToString bs"
  have t: "TrimSpace (a @ ?s @ b) = ?s"
    using assms(1,2) hex_text_ends [OF assms(3)] by (intro TrimSpace_around) (simp_all add: text_space_def)
  have "SetString 16 (EncodeToString bs) = Some (int (be_value bs))"
    using hex_text_ends [OF assms(3)] read_base_hex [of bs 0] by (simp add: SetString_def be_value_def Let_def)
  then show ?thesis using t by (simp add: parseBigInt_def HasPrefix_def Let_def)
qed

text \<open>Decimal texts of any integer, and hexadecimal ones of any bytes, are read back as the integer they were printed
  from, with white space around them ignored; the bundle's strict reader does the same for decimals.\<close>

theorem big_integers_read_back:
  assumes "list_all text_space a" "list_all text_space b"
  shows "parseBigInt (a @ dec_int i @ b) = Inr (Some i)
    \<and> mustBigInt (a @ dec_int i @ b) = Some i
    \<and> (bs \<noteq> [] \<longrightarrow> parseBigInt (a @ ''0x'' @ EncodeToString bs @ b) = Inr (Some (int (be_value bs))))"
  using parse_dec [OF assms] parse_hex [OF assms] by blast

theorem big_integers_read_back_witness:
  "parseBigInt ('' '' @ dec_int (-25) @ ''  '') = Inr (Some (-25)) \<and> mustBigInt ('' '' @ dec_int (-25) @ ''  '') = Some (-25)"
  using big_integers_read_back [of "'' ''" "''  ''" "-25"] by (simp add: text_space_def)

section \<open>Lists are taken apart\<close>

definition clean_item :: "string \<Rightarrow> bool" where
  "clean_item v \<longleftrightarrow> v \<noteq> [] \<and> \<not> text_space (hd v) \<and> \<not> text_space (last v) \<and> CHR '','' \<notin> set v"

fun join_items :: "string list \<Rightarrow> string" where
  "join_items [] = []"
| "join_items [v] = v"
| "join_items (v # vs) = v @ CHR '','' # join_items vs"

lemma Split_not_Nil [simp]: "Split sep s \<noteq> []"
  by (induction s) (auto split: list.split)

lemma Split_item: "sep \<notin> set v \<Longrightarrow> Split sep (v @ sep # s) = v # Split sep s"
  by (induction v) auto

lemma Split_last: "sep \<notin> set v \<Longrightarrow> Split sep v = [v]"
  by (induction v) auto

lemma Split_parts: "v \<in> set (Split sep s) \<Longrightarrow> sep \<notin> set v"
  by (induction s arbitrary: v) (auto split: if_splits list.splits)

lemma TrimSpace_ends:
  assumes "TrimSpace s \<noteq> []" shows "\<not> text_space (hd (TrimSpace s)) \<and> \<not> text_space (last (TrimSpace s))"
proof -
  let ?d = "dropWhile text_space s" and ?e = "dropWhile text_space (rev (dropWhile text_space s))"
  have e: "?e \<noteq> []" using assms by (simp only: TrimSpace_def rev_is_Nil_conv) simp
  have d: "?d \<noteq> []"
  proof
    assume "?d = []"
    then show False using e by (simp only: rev.simps dropWhile.simps) simp
  qed
  have "\<not> text_space (hd ?e)" using e by (rule hd_dropWhile)
  then have l: "\<not> text_space (last (TrimSpace s))" using e by (simp add: TrimSpace_def last_rev)
  have "hd ?d = last (rev ?d)" using d by (simp add: last_rev)
  also have "\<dots> = last ?e" using e by (metis last_appendR takeWhile_dropWhile_id)
  also have "\<dots> = hd (TrimSpace s)" using e by (simp add: TrimSpace_def hd_rev)
  finally have "\<not> text_space (hd (TrimSpace s))" using hd_dropWhile [OF d] by simp
  then show ?thesis using l by simp
qed

lemma set_TrimSpace: "set (TrimSpace s) \<subseteq> set s"
proof
  fix c assume "c \<in> set (TrimSpace s)"
  then have "c \<in> set (dropWhile text_space (rev (dropWhile text_space s)))" unfolding TrimSpace_def set_rev .
  then have "c \<in> set (dropWhile text_space s)" by (metis set_dropWhileD set_rev)
  then show "c \<in> set s" by (rule set_dropWhileD)
qed

lemma parseCSV_items: "v \<in> set (parseCSV text) \<Longrightarrow> clean_item v"
proof -
  assume "v \<in> set (parseCSV text)"
  then obtain p where p: "p \<in> set (Split (CHR '','') text)" and v: "v = TrimSpace p" "v \<noteq> []"
    unfolding parseCSV_def set_filter set_map by blast
  then show "clean_item v"
    using Split_parts [OF p] TrimSpace_ends [of p] set_TrimSpace [of p] unfolding clean_item_def by blast
qed

text \<open>Items with anything of white space around them.\<close>

definition padded :: "string \<Rightarrow> string \<Rightarrow> bool" where
  "padded v p \<longleftrightarrow> (\<exists>a b. p = a @ v @ b \<and> list_all text_space a \<and> list_all text_space b)"

lemma comma_not_space: "\<not> text_space (CHR '','')"
  by (simp add: text_space_def)

lemma spaces_no_comma: "list_all text_space a \<Longrightarrow> CHR '','' \<notin> set a"
  using comma_not_space by (force simp only: list_all_iff)

lemma padded_trim:
  assumes v: "clean_item v" and "padded v p" shows "TrimSpace p = v \<and> CHR '','' \<notin> set p"
proof -
  obtain a b where p: "p = a @ v @ b" "list_all text_space a" "list_all text_space b"
    using assms(2) unfolding padded_def by blast
  have "CHR '','' \<notin> set p"
    using v spaces_no_comma [OF p(2)] spaces_no_comma [OF p(3)] unfolding p(1) clean_item_def by simp
  moreover have "TrimSpace p = v"
    unfolding p(1) by (rule TrimSpace_around [OF p(2,3)]) (use v in \<open>unfold clean_item_def, blast+\<close>)
  ultimately show ?thesis by blast
qed

lemma Split_join: "ps \<noteq> [] \<Longrightarrow> list_all (\<lambda>p. CHR '','' \<notin> set p) ps \<Longrightarrow> Split (CHR '','') (join_items ps) = ps"
  by (induction ps rule: join_items.induct) (simp_all add: Split_item Split_last)

text \<open>The comma-separated lists of the command line: whatever the text, the items are non-empty, trimmed and without a
  comma, and a list of such items, written with any white space around them, is read back.\<close>

theorem parseCSV_reads:
  "(\<forall>v \<in> set (parseCSV text). clean_item v)
   \<and> (\<forall>vs ps. vs \<noteq> [] \<and> list_all clean_item vs \<and> list_all2 padded vs ps \<longrightarrow> parseCSV (join_items ps) = vs)"
proof (intro conjI allI impI ballI)
  fix vs ps assume a: "vs \<noteq> [] \<and> list_all clean_item vs \<and> list_all2 padded vs ps"
  then have l: "length ps = length vs" by (metis list_all2_lengthD)
  have i: "TrimSpace (ps ! i) = vs ! i \<and> CHR '','' \<notin> set (ps ! i)" if "i < length vs" for i
    by (rule padded_trim) (use a that list_all2_nthD in \<open>simp_all only: list_all_length, blast\<close>)
  have p: "map TrimSpace ps = vs" "list_all (\<lambda>p. CHR '','' \<notin> set p) ps" "ps \<noteq> []"
    using l i a by (auto simp only: list_all_length length_map length_0_conv nth_map list.size intro!: nth_equalityI)
  have "filter (\<lambda>v. v \<noteq> []) vs = vs" using a unfolding filter_id_conv list_all_iff clean_item_def by blast
  then show "parseCSV (join_items ps) = vs" by (simp only: parseCSV_def Split_join [OF p(3,2)] p(1))
qed (rule parseCSV_items)

theorem parseCSV_reads_witness:
  "parseCSV ('' a,b '') = [''a'', ''b'']"
proof -
  have "clean_item ''a''" "clean_item ''b''" by (simp_all add: clean_item_def text_space_def)
  moreover have "padded ''a'' '' a''" "padded ''b'' ''b ''"
    unfolding padded_def by (rule exI [of _ "'' ''"], rule exI [of _ "[]"], simp add: text_space_def)
      (rule exI [of _ "[]"], rule exI [of _ "'' ''"], simp add: text_space_def)
  ultimately show ?thesis
    using parseCSV_reads [THEN conjunct2, THEN spec [of _ "[''a'', ''b'']"], THEN spec [of _ "['' a'', ''b '']"]] by simp
qed

section \<open>Amounts\<close>

lemma list_all_dec_pad [simp]: "list_all digit (dec_pad k n)"
proof (induction k arbitrary: n)
  case (Suc k)
  have "digit (dec_digit (n mod 10))" by (rule digit_dec_digit) simp
  then show ?case using Suc by simp
qed simp

lemma length_dec_pad [simp]: "length (dec_pad k n) = k"
  by (induction k arbitrary: n) simp_all

lemma read_dec_append_pad: "read_dec (s @ dec_pad k n) = read_dec s * 10 ^ k + n mod 10 ^ k"
proof (induction k arbitrary: n)
  case (Suc k)
  have "read_dec (s @ dec_pad (Suc k) n) = 10 * (read_dec s * 10 ^ k + (n div 10) mod 10 ^ k) + n mod 10"
    using Suc [of "n div 10"] read_dec_snoc [of "s @ dec_pad k (n div 10)"] by (simp add: digit_value_dec_digit)
  then show ?case by (simp add: mod_mult2_eq algebra_simps)
qed simp

lemma fixed_point_digits:
  assumes "0 \<le> n" "0 < k"
  shows "fixed_point k n = dec_nat (nat n div 10 ^ k) @ CHR ''.'' # dec_pad k (nat n mod 10 ^ k)"
  using assms by (simp add: fixed_point_def)

text \<open>An amount in wei is printed exactly: eighteen decimals, and the digits without the point are the amount.\<close>

theorem wei_printed_exactly:
  "\<exists>a b. weiToEtherString (Some w) = a @ CHR ''.'' # b \<and> length b = 18 \<and> SetString 10 (a @ b) = Some w"
proof -
  let ?n = "nat \<bar>w\<bar>" and ?s = "if w < 0 then ''-'' else []"
  let ?a = "dec_nat (?n div 10 ^ 18)" and ?b = "dec_pad 18 (?n mod 10 ^ 18)"
  have f: "\<lfloor>\<bar>of_int w / 1000000000000000000 :: rat\<bar> * 10 ^ 18 + 1 / 2\<rfloor> = \<bar>w\<bar>"
  proof -
    have "\<bar>of_int w / 1000000000000000000 :: rat\<bar> * 10 ^ 18 = of_int \<bar>w\<bar>" by (simp add: abs_divide)
    then show ?thesis by (simp only:) linarith
  qed
  have t: "weiToEtherString (Some w) = (?s @ ?a) @ CHR ''.'' # ?b"
    using fixed_point_digits [of "\<bar>w\<bar>" 18] f by (simp add: weiToEtherString_def FloatString_def divide_less_0_iff)
  have r: "read_dec (?a @ ?b) = ?n"
    by (simp only: read_dec_append_pad read_dec_nat mod_mod_trivial div_mult_mod_eq)
  have d: "?a @ ?b \<noteq> []" "list_all digit (?a @ ?b)" by (simp_all add: dec_nat_not_Nil)
  have "SetString 10 ((?s @ ?a) @ ?b) = Some w"
    using SetString_digits [OF d] unfolding r by (cases "w < 0") simp_all
  then show ?thesis using t length_dec_pad by blast
qed

text \<open>Transactions per second are printed with six decimals, off by at most half of the last one.\<close>

definition tps_of :: "u64 \<Rightarrow> int \<Rightarrow> rat" where
  "tps_of verifiedTxTotal elapsedMS = of_int (uint verifiedTxTotal * 1000) / of_int elapsedMS"

theorem tps_printed_rounded:
  "calculateTPS txs ms = (if ms \<le> 0 then ''0'' else fixed_point 6 \<lfloor>tps_of txs ms * 10 ^ 6 + 1 / 2\<rfloor>)
   \<and> \<bar>of_int \<lfloor>tps_of txs ms * 10 ^ 6 + 1 / 2\<rfloor> - tps_of txs ms * 10 ^ 6\<bar> \<le> 1 / 2"
proof (rule conjI)
  have "0 \<le> tps_of txs ms" if "0 < ms"
    unfolding tps_of_def by (intro divide_nonneg_nonneg of_int_nonneg) (use that in simp_all)
  then have "\<not> tps_of txs ms < 0" if "\<not> ms \<le> 0" using that by (meson not_le)
  then show "calculateTPS txs ms = (if ms \<le> 0 then ''0'' else fixed_point 6 \<lfloor>tps_of txs ms * 10 ^ 6 + 1 / 2\<rfloor>)"
    unfolding calculateTPS_def FloatString_def tps_of_def [symmetric] by (cases "ms \<le> 0") simp_all
qed linarith

end
