(* ===== verification/Go_Flag.thy ===== *)
theory Go_Flag imports Proofctl_Text "HOL-Library.AList" begin

text \<open>
  What the programs use of the packages \<^verbatim>\<open>flag\<close> and \<^verbatim>\<open>strconv\<close>: integers and booleans as
  \<^verbatim>\<open>strconv\<close> reads them with base 0, sets of flags with their defaults, and the parsing of an argument list.
  Settings that are written out are read back, and a setting given twice counts as it was given last.
\<close>

section \<open>strconv\<close>

datatype num_error = ErrSyntax | ErrRange

text \<open>
  The digits of an unsigned number.  Underscores are skipped here and judged afterwards; a number
  that is too large is reported even before a wrong character further on.
\<close>

fun read_uint :: "nat \<Rightarrow> string \<Rightarrow> nat \<Rightarrow> num_error + nat" where
  "read_uint base [] n = Inr n"
| "read_uint base (c # s) n =
     (if c = CHR ''_'' then read_uint base s n
      else case digit_of base c of
             None \<Rightarrow> Inl ErrSyntax
           | Some d \<Rightarrow> if 2 ^ 64 \<le> n * base + d then Inl ErrRange else read_uint base s (n * base + d))"

datatype saw = Saw_start | Saw_digit | Saw_underscore | Saw_other

fun underscores_separate :: "bool \<Rightarrow> saw \<Rightarrow> string \<Rightarrow> bool" where
  "underscores_separate hex saw [] = (saw \<noteq> Saw_underscore)"
| "underscores_separate hex saw (c # s) =
     (if digit_of (if hex then 16 else 10) c \<noteq> None then underscores_separate hex Saw_digit s
      else if c = CHR ''_'' then saw = Saw_digit \<and> underscores_separate hex Saw_underscore s
      else saw \<noteq> Saw_underscore \<and> underscores_separate hex Saw_other s)"

definition base_letter :: "char \<Rightarrow> nat option" where
  "base_letter c =
     (if c \<in> {CHR ''b'', CHR ''B''} then Some 2 else if c \<in> {CHR ''o'', CHR ''O''} then Some 8
      else if c \<in> {CHR ''x'', CHR ''X''} then Some 16 else None)"

definition underscoreOK :: "string \<Rightarrow> bool" where
  "underscoreOK s =
     (let s = (if s \<noteq> [] \<and> hd s \<in> {CHR ''-'', CHR ''+''} then tl s else s)
      in if 2 \<le> length s \<and> s ! 0 = CHR ''0'' \<and> base_letter (s ! 1) \<noteq> None
         then underscores_separate (base_letter (s ! 1) = Some 16) Saw_digit (drop 2 s)
         else underscores_separate False Saw_start s)"

text \<open>\<^verbatim>\<open>strconv.ParseUint(s, 0, 64)\<close> and \<^verbatim>\<open>strconv.ParseInt(s, 0, 64)\<close>.\<close>

definition split_base :: "string \<Rightarrow> nat \<times> string" where
  "split_base s =
     (if hd s \<noteq> CHR ''0'' then (10, s)
      else if 3 \<le> length s \<and> base_letter (s ! 1) \<noteq> None then (the (base_letter (s ! 1)), drop 2 s)
      else (8, tl s))"

definition ParseUint :: "string \<Rightarrow> num_error + nat" where
  "ParseUint s =
     (if s = [] then Inl ErrSyntax
      else let (base, digits) = split_base s
           in bind_res (read_uint base digits 0) (\<lambda>n.
                if CHR ''_'' \<in> set digits \<and> \<not> underscoreOK s then Inl ErrSyntax else Inr n))"

definition ParseInt :: "string \<Rightarrow> num_error + int" where
  "ParseInt s =
     (if s = [] then Inl ErrSyntax
      else let neg = (hd s = CHR ''-''); digits = (if hd s \<in> {CHR ''-'', CHR ''+''} then tl s else s)
           in bind_res (ParseUint digits) (\<lambda>n.
                if \<not> neg \<and> 2 ^ 63 \<le> n \<or> neg \<and> 2 ^ 63 < n then Inl ErrRange
                else Inr (if neg then - int n else int n)))"

definition ParseBool :: "string \<Rightarrow> num_error + bool" where
  "ParseBool s =
     (if s \<in> {''1'', ''t'', ''T'', ''TRUE'', ''true'', ''True''} then Inr True
      else if s \<in> {''0'', ''f'', ''F'', ''FALSE'', ''false'', ''False''} then Inr False
      else Inl ErrSyntax)"

section \<open>Sets of flags\<close>

text \<open>The value of a flag also says its kind.\<close>

datatype flag_value = String_value string | Int_value int | Uint_value u64 | Bool_value bool

datatype flag_error =
    ErrHelp
  | BadFlagSyntax string
  | NotDefined string
  | NeedsArgument string
  | InvalidValue string string num_error
  | InvalidBoolean string string num_error

type_synonym flag_set = "(string \<times> flag_value) list"

text \<open>\<^verbatim>\<open>Set\<close> of the flag's value type.\<close>

fun set_flag :: "flag_value \<Rightarrow> string \<Rightarrow> num_error + flag_value" where
  "set_flag (String_value old) s = Inr (String_value s)"
| "set_flag (Int_value old) s = bind_res (ParseInt s) (\<lambda>i. Inr (Int_value i))"
| "set_flag (Uint_value old) s = bind_res (ParseUint s) (\<lambda>n. Inr (Uint_value (of_nat n)))"
| "set_flag (Bool_value old) s = bind_res (ParseBool s) (\<lambda>b. Inr (Bool_value b))"

fun bool_flag :: "flag_value \<Rightarrow> bool" where
  "bool_flag (Bool_value b) = True"
| "bool_flag _ = False"

text \<open>The part of an argument before its first \<^verbatim>\<open>=\<close>, and the part after it if there is one.\<close>

definition split_setting :: "string \<Rightarrow> string \<times> string option" where
  "split_setting s =
     (takeWhile (\<lambda>c. c \<noteq> CHR ''='') s,
      (case dropWhile (\<lambda>c. c \<noteq> CHR ''='') s of [] \<Rightarrow> None | c # v \<Rightarrow> Some v))"

text \<open>
  \<^verbatim>\<open>FlagSet.parseOne\<close>: no result when the arguments do not go on with a flag; the second component
  of a result is what is left of the arguments.
\<close>

definition is_flag :: "string \<Rightarrow> bool" where
  "is_flag s \<longleftrightarrow> 2 \<le> length s \<and> s ! 0 = CHR ''-'' \<and> s \<noteq> ''--''"

definition parse_flag :: "flag_set \<Rightarrow> string \<Rightarrow> string list \<Rightarrow> flag_error + (flag_set \<times> string list)" where
  "parse_flag fs s args =
     (let name = (if s ! 1 = CHR ''-'' then drop 2 s else drop 1 s)
      in if name = [] \<or> hd name \<in> {CHR ''-'', CHR ''=''} then Inl (BadFlagSyntax s)
         else let (name, val) = split_setting name
              in case map_of fs name of
                   None \<Rightarrow> Inl (if name \<in> {''help'', ''h''} then ErrHelp else NotDefined name)
                 | Some old \<Rightarrow>
                     if bool_flag old
                     then let v = (case val of None \<Rightarrow> ''true'' | Some v \<Rightarrow> v)
                          in case set_flag old v of
                               Inl e \<Rightarrow> Inl (InvalidBoolean v name e)
                             | Inr new \<Rightarrow> Inr (AList.update name new fs, args)
                     else (case (case val of Some v \<Rightarrow> Some (v, args) | None \<Rightarrow> (case args of [] \<Rightarrow> None | a # as \<Rightarrow> Some (a, as))) of
                             None \<Rightarrow> Inl (NeedsArgument name)
                           | Some (v, args) \<Rightarrow>
                               (case set_flag old v of
                                  Inl e \<Rightarrow> Inl (InvalidValue v name e)
                                | Inr new \<Rightarrow> Inr (AList.update name new fs, args))))"

lemma parse_flag_shorter: "parse_flag fs s args = Inr (fs', args') \<Longrightarrow> length args' \<le> length args"
  by (auto simp: parse_flag_def Let_def split: if_splits prod.splits option.splits sum.splits list.splits)

text \<open>\<^verbatim>\<open>FlagSet.Parse\<close>: the flags as they are set, and the arguments that are left.\<close>

function Parse :: "flag_set \<Rightarrow> string list \<Rightarrow> flag_error + (flag_set \<times> string list)" where
  "Parse fs [] = Inr (fs, [])"
| "Parse fs (s # args) =
     (if s = ''--'' then Inr (fs, args)
      else if \<not> is_flag s then Inr (fs, s # args)
      else case parse_flag fs s args of
             Inl e \<Rightarrow> Inl e
           | Inr (fs, args) \<Rightarrow> Parse fs args)"
  by pat_completeness auto
termination
  by (relation "measure (\<lambda>(fs, args). length args)") (auto dest: parse_flag_shorter)

text \<open>What a program reads from the pointer it got for a flag.\<close>

definition string_flag :: "flag_set \<Rightarrow> string \<Rightarrow> string" where
  "string_flag fs name = (case map_of fs name of Some (String_value s) \<Rightarrow> s | _ \<Rightarrow> [])"

definition int_flag :: "flag_set \<Rightarrow> string \<Rightarrow> int" where
  "int_flag fs name = (case map_of fs name of Some (Int_value i) \<Rightarrow> i | _ \<Rightarrow> 0)"

definition uint_flag :: "flag_set \<Rightarrow> string \<Rightarrow> u64" where
  "uint_flag fs name = (case map_of fs name of Some (Uint_value n) \<Rightarrow> n | _ \<Rightarrow> 0)"

definition bool_flag_value :: "flag_set \<Rightarrow> string \<Rightarrow> bool" where
  "bool_flag_value fs name = (case map_of fs name of Some (Bool_value b) \<Rightarrow> b | _ \<Rightarrow> False)"

section \<open>Numbers are read back\<close>

lemma digits_grow: "m \<le> fold (\<lambda>c n. 10 * n + digit_value c) s m"
proof (induction s arbitrary: m)
  case (Cons c s)
  show ?case using le_trans [OF _ Cons.IH [of "10 * m + digit_value c"], of m] by simp
qed simp

lemma read_uint_digits:
  "list_all digit s \<Longrightarrow> fold (\<lambda>c n. 10 * n + digit_value c) s n < 2 ^ 64
    \<Longrightarrow> read_uint 10 s n = Inr (fold (\<lambda>c n. 10 * n + digit_value c) s n)"
proof (induction s arbitrary: n)
  case (Cons c s)
  have "c \<noteq> CHR ''_''" "digit_of 10 c = Some (digit_value c)" using Cons.prems(1) by (auto simp: digit_of_digit digit_def)
  moreover have "10 * n + digit_value c < 2 ^ 64" using Cons.prems(2) digits_grow [of "10 * n + digit_value c" s] by simp
  ultimately show ?case using Cons by (simp add: mult.commute)
qed simp

lemma ParseUint_dec: "n < 2 ^ 64 \<Longrightarrow> ParseUint (dec_nat n) = Inr n"
proof (cases "n = 0")
  case True
  then show ?thesis by (simp add: dec_nat.simps dec_digit_def ParseUint_def split_base_def)
next
  case False
  assume n: "n < 2 ^ 64"
  have "read_uint 10 (dec_nat n) 0 = Inr n"
    using n read_uint_digits [OF digits_dec_nat, of n 0] by (simp add: read_dec_def [symmetric])
  moreover have "CHR ''_'' \<notin> set (dec_nat n)"
    using digits_dec_nat [of n] by (auto simp: list_all_iff digit_def)
  ultimately show ?thesis using False hd_dec_nat [of n] by (simp add: ParseUint_def split_base_def)
qed

lemma ParseInt_dec:
  assumes "int64_range i" shows "ParseInt (dec_int i) = Inr i"
proof (cases "i < 0")
  case True
  then have "nat (- i) < 2 ^ 64" "\<not> 2 ^ 63 < nat (- i)" using assms by (auto simp: int64_range_def)
  then show ?thesis using True by (simp add: ParseInt_def dec_int_def ParseUint_dec Let_def)
next
  case False
  then have "nat i < 2 ^ 63" using assms by (auto simp: int64_range_def nat_less_iff)
  moreover have "hd (dec_nat (nat i)) \<noteq> CHR ''-''" "hd (dec_nat (nat i)) \<noteq> CHR ''+''"
    using digit_sign [OF hd_digit [OF dec_nat_not_Nil digits_dec_nat]] by blast+
  ultimately show ?thesis using False by (simp add: ParseInt_def dec_int_def ParseUint_dec Let_def)
qed

text \<open>A number is never read as another one of its kind: what is accepted fits the type.\<close>

lemma read_uint_less: "read_uint base s n = Inr m \<Longrightarrow> n < 2 ^ 64 \<Longrightarrow> m < 2 ^ 64"
  by (induction base s n rule: read_uint.induct) (auto split: if_splits option.splits)

lemma ParseInt_range: "ParseInt s = Inr i \<Longrightarrow> int64_range i"
  by (auto simp: ParseInt_def Let_def bind_res_eq_Inr int64_range_def split: if_splits)

section \<open>Settings are read back\<close>

text \<open>A setting as it is written on a command line.\<close>

fun show_setting :: "string \<times> flag_value \<Rightarrow> string list" where
  "show_setting (name, String_value s) = [CHR ''-'' # name, s]"
| "show_setting (name, Int_value i) = [CHR ''-'' # name, dec_int i]"
| "show_setting (name, Uint_value n) = [CHR ''-'' # name, dec_nat (unat n)]"
| "show_setting (name, Bool_value b) = [CHR ''-'' # name @ ''='' @ FormatBool b]"

fun same_kind :: "flag_value \<Rightarrow> flag_value \<Rightarrow> bool" where
  "same_kind (String_value a) (String_value b) = True"
| "same_kind (Int_value a) (Int_value b) = int64_range b"
| "same_kind (Uint_value a) (Uint_value b) = True"
| "same_kind (Bool_value a) (Bool_value b) = True"
| "same_kind _ _ = False"

definition flag_name :: "string \<Rightarrow> bool" where
  "flag_name s \<longleftrightarrow> s \<noteq> [] \<and> hd s \<noteq> CHR ''-'' \<and> CHR ''='' \<notin> set s"

definition settable :: "flag_set \<Rightarrow> string \<times> flag_value \<Rightarrow> bool" where
  "settable fs st \<longleftrightarrow> flag_name (fst st) \<and> (\<exists>old. map_of fs (fst st) = Some old \<and> same_kind old (snd st))"

definition apply_settings :: "(string \<times> flag_value) list \<Rightarrow> flag_set \<Rightarrow> flag_set" where
  "apply_settings sts fs = fold (\<lambda>(name, v) fs. AList.update name v fs) sts fs"

lemma split_setting_plain: "flag_name s \<Longrightarrow> split_setting s = (s, None)"
proof -
  assume "flag_name s"
  then have all: "\<forall>c \<in> set s. c \<noteq> CHR ''=''" by (auto simp: flag_name_def)
  then have none: "dropWhile (\<lambda>c. c \<noteq> CHR ''='') s = []" by (simp add: dropWhile_eq_Nil_conv)
  show ?thesis unfolding split_setting_def none using all by (simp add: takeWhile_eq_all_conv)
qed

lemma split_setting_value: "flag_name s \<Longrightarrow> split_setting (s @ CHR ''='' # v) = (s, Some v)"
proof -
  assume "flag_name s"
  then have "x \<in> set s \<Longrightarrow> x \<noteq> CHR ''=''" for x by (auto simp: flag_name_def)
  then show ?thesis by (simp add: split_setting_def takeWhile_append2 dropWhile_append2)
qed

lemma ParseBool_FormatBool: "ParseBool (FormatBool b) = Inr b"
  by (simp add: ParseBool_def FormatBool_def)

lemma is_flag_named: "c \<noteq> CHR ''-'' \<Longrightarrow> is_flag (CHR ''-'' # c # x)"
  by (simp add: is_flag_def)

lemma Parse_flag:
  "c \<noteq> CHR ''-'' \<Longrightarrow> Parse fs ((CHR ''-'' # c # x) # args) =
     (case parse_flag fs (CHR ''-'' # c # x) args of Inl e \<Rightarrow> Inl e | Inr (fs, args) \<Rightarrow> Parse fs args)"
  by (simp add: is_flag_def)

lemma Parse_setting:
  assumes "settable fs (name, v)"
  shows "Parse fs (show_setting (name, v) @ rest) = Parse (AList.update name v fs) rest"
proof -
  obtain old where old: "map_of fs name = Some old" "same_kind old v" and n: "flag_name name"
    using assms by (auto simp: settable_def)
  obtain c x where nm: "name = c # x" "c \<noteq> CHR ''-''" "c \<noteq> CHR ''=''"
    using n by (cases name) (auto simp: flag_name_def)
  have unsigned: "unat u < 2 ^ 64" for u :: u64 using unsigned_less [of u, where 'a = nat] by simp
  note word = ParseUint_dec [OF unsigned]
  note split = split_setting_plain [OF n, unfolded nm(1)] split_setting_value [OF n, unfolded nm(1), simplified]
  show ?thesis
    using old unfolding nm(1)
    by (cases v; cases old)
      (simp_all add: is_flag_named parse_flag_def Let_def nm(2,3) split ParseInt_dec word ParseBool_FormatBool)
qed

lemma settable_update:
  assumes "settable fs (name, v)" "settable fs st" shows "settable (AList.update name v fs) st"
proof -
  have "same_kind old w \<Longrightarrow> same_kind old v \<Longrightarrow> same_kind v w" for old w
    by (cases old; cases v; cases w) simp_all
  then show ?thesis using assms by (cases "fst st = name") (auto simp: settable_def update_conv')
qed

lemma settings_parsed:
  "list_all (settable fs) sts \<Longrightarrow> Parse fs (concat (map show_setting sts) @ rest) = Parse (apply_settings sts fs) rest"
proof (induction sts arbitrary: fs)
  case Nil
  then show ?case by (simp add: apply_settings_def)
next
  case (Cons st sts)
  obtain n v where st: "st = (n, v)" by force
  have "list_all (settable (AList.update n v fs)) sts"
    using Cons.prems settable_update [of fs n v] by (auto simp: list_all_iff st)
  from Cons.IH [OF this] show ?case
    using Parse_setting [of fs n v] Cons.prems by (simp add: st apply_settings_def)
qed

text \<open>A flag has the value of its last setting, or else its default.\<close>

lemma settings_in_effect:
  "map_of (apply_settings sts fs) name = (case map_of (rev sts) name of Some v \<Rightarrow> Some v | None \<Rightarrow> map_of fs name)"
proof (induction sts arbitrary: fs)
  case Nil
  then show ?case by (simp add: apply_settings_def)
next
  case (Cons st sts)
  then show ?case
    by (cases st) (simp add: apply_settings_def map_add_def update_conv' split: option.splits)
qed

lemma Parse_stops: "Parse fs [] = Inr (fs, [])" "\<not> is_flag s \<Longrightarrow> s \<noteq> ''--'' \<Longrightarrow> Parse fs (s # args) = Inr (fs, s # args)"
  "Parse fs (''--'' # args) = Inr (fs, args)"
  by simp_all

text \<open>Parsing changes no kind and adds no flag.\<close>

lemma set_flag_kind: "set_flag old s = Inr new \<Longrightarrow> same_kind old new"
  by (cases old) (auto simp: bind_res_eq_Inr dest: ParseInt_range)

end
