(* ===== verification/Svc_Main.thy ===== *)
theory Svc_Main imports Cluster Go_Flag begin

text \<open>
  How the services start: their flags, the checks before anything is opened, the listener of the sequencer and the connection
  of the load generator, and the paths that are served.  The operating system is the parameter \<open>net\<close>.
\<close>

section \<open>Flags\<close>

text \<open>\<^verbatim>\<open>flag.Parse\<close> ends the process: with status 0 when help was asked for, with 2 on any error.\<close>

definition read_flags :: "flag_set \<Rightarrow> (flag_set \<Rightarrow> 'a) \<Rightarrow> string list \<Rightarrow> int + 'a" where
  "read_flags fs get args =
     (case Parse fs args of
        Inl e \<Rightarrow> Inl (if e = ErrHelp then 0 else 2)
      | Inr (fs, _) \<Rightarrow> Inr (get fs))"

record sequencer_opts =
  so_listenSpec :: string
  so_aggregatorEndpoint :: string
  so_lanes :: int
  so_blockTimeMs :: int
  so_phase :: string
  so_startBlock :: u64

record ingress_opts =
  io_endpoint :: string
  io_blocks :: int
  io_tps :: int
  io_blockTimeMs :: int
  io_startBlock :: u64

record aggregator_opts =
  ao_listen :: string
  ao_lanes :: int
  ao_proofEndpoint :: string

record replayer_opts =
  po_listen :: string
  po_proofSeed :: string
  po_proofDataset :: string
  po_l1Endpoint :: string
  po_badProofAt :: u64

record l1_opts =
  lo_listen :: string
  lo_proofSeed :: string

definition sequencer_flags :: flag_set where
  "sequencer_flags =
     [(''listen-stream'', String_value ''tcp://:7001''),
      (''aggregator-endpoint'', String_value ''http://127.0.0.1:9082/lane-batch''), (''lanes'', Int_value 4),
      (''block-time-ms'', Int_value 1000), (''phase'', String_value ''certification''), (''start-block'', Uint_value 0)]"

definition sequencer_options :: "string list \<Rightarrow> int + sequencer_opts" where
  "sequencer_options = read_flags sequencer_flags (\<lambda>fs. \<lparr> so_listenSpec = string_flag fs ''listen-stream'',
     so_aggregatorEndpoint = string_flag fs ''aggregator-endpoint'', so_lanes = int_flag fs ''lanes'',
     so_blockTimeMs = int_flag fs ''block-time-ms'', so_phase = string_flag fs ''phase'',
     so_startBlock = uint_flag fs ''start-block'' \<rparr>)"

definition ingress_flags :: flag_set where
  "ingress_flags =
     [(''endpoint'', String_value []), (''blocks'', Int_value 10), (''tps'', Int_value 20000), (''block-time-ms'', Int_value 1000),
      (''start-block'', Uint_value 0)]"

definition ingress_options :: "string list \<Rightarrow> int + ingress_opts" where
  "ingress_options = read_flags ingress_flags (\<lambda>fs. \<lparr> io_endpoint = string_flag fs ''endpoint'',
     io_blocks = int_flag fs ''blocks'', io_tps = int_flag fs ''tps'', io_blockTimeMs = int_flag fs ''block-time-ms'',
     io_startBlock = uint_flag fs ''start-block'' \<rparr>)"

definition aggregator_flags :: flag_set where
  "aggregator_flags = [(''listen'', String_value '':9082''), (''lanes'', Int_value 4), (''proof-endpoint'', String_value [])]"

definition aggregator_options :: "string list \<Rightarrow> int + aggregator_opts" where
  "aggregator_options = read_flags aggregator_flags (\<lambda>fs. \<lparr> ao_listen = string_flag fs ''listen'', ao_lanes = int_flag fs ''lanes'',
     ao_proofEndpoint = string_flag fs ''proof-endpoint'' \<rparr>)"

definition replayer_flags :: flag_set where
  "replayer_flags =
     [(''listen'', String_value '':9083''), (''proof-seed'', String_value ''hyperl2-cert-seed''), (''proof-dataset'', String_value []),
      (''l1-endpoint'', String_value ''http://127.0.0.1:9090/submit-certified-block''), (''bad-proof-at'', Uint_value 0)]"

definition replayer_options :: "string list \<Rightarrow> int + replayer_opts" where
  "replayer_options = read_flags replayer_flags (\<lambda>fs. \<lparr> po_listen = string_flag fs ''listen'',
     po_proofSeed = string_flag fs ''proof-seed'', po_proofDataset = string_flag fs ''proof-dataset'',
     po_l1Endpoint = string_flag fs ''l1-endpoint'', po_badProofAt = uint_flag fs ''bad-proof-at'' \<rparr>)"

definition l1_flags :: flag_set where
  "l1_flags = [(''listen'', String_value '':9090''), (''proof-seed'', String_value ''hyperl2-cert-seed'')]"

definition l1_options :: "string list \<Rightarrow> int + l1_opts" where
  "l1_options = read_flags l1_flags (\<lambda>fs. \<lparr> lo_listen = string_flag fs ''listen'', lo_proofSeed = string_flag fs ''proof-seed'' \<rparr>)"

section \<open>Listening and dialling\<close>

record 'w net =
  Net_Listen :: "string \<Rightarrow> string \<Rightarrow> 'w \<Rightarrow> string option \<times> 'w"
  Net_Dial :: "string \<Rightarrow> string \<Rightarrow> string option"
  Net_MkdirAll :: "string \<Rightarrow> 'w \<Rightarrow> string option \<times> 'w"
  Net_Remove :: "string \<Rightarrow> 'w \<Rightarrow> string option \<times> 'w"
  Net_Dir :: "string \<Rightarrow> string"
  Net_Quote :: "string \<Rightarrow> string"

definition listen :: "'w net \<Rightarrow> string \<Rightarrow> 'w \<Rightarrow> string option \<times> 'w" where
  "listen net spec w =
     (if prefix ''tcp://'' spec then Net_Listen net ''tcp'' (drop 6 spec) w
      else if prefix ''unix://'' spec then
        let path = drop 7 spec
        in (case Net_MkdirAll net (Net_Dir net path) w of
              (Some e, w) \<Rightarrow> (Some e, w)
            | (None, w) \<Rightarrow> let (_, w) = Net_Remove net path w in Net_Listen net ''unix'' path w)
      else (Some (''unsupported listen spec '' @ Net_Quote net spec), w))"

definition dial :: "'w net \<Rightarrow> string \<Rightarrow> string option" where
  "dial net endpoint =
     (if prefix ''tcp://'' endpoint then Net_Dial net ''tcp'' (drop 6 endpoint)
      else if prefix ''unix://'' endpoint then Net_Dial net ''unix'' (drop 7 endpoint)
      else Some (''unsupported endpoint format '' @ Net_Quote net endpoint))"

section \<open>The programs\<close>

text \<open>A process ends before its loop with a status or a panic, or it runs on.\<close>

datatype 'a launch = Exits int | Panics | Runs 'a

text \<open>\<^verbatim>\<open>time.NewTicker\<close> panics unless its interval is positive.\<close>

definition sequencer_main :: "'w net \<Rightarrow> string list \<Rightarrow> 'w \<Rightarrow> (sequencer_opts \<times> int \<times> seq_state) launch \<times> 'w" where
  "sequencer_main net args w =
     (case sequencer_options args of
        Inl status \<Rightarrow> (Exits status, w)
      | Inr opts \<Rightarrow>
          if so_lanes opts \<le> 0 \<or> so_blockTimeMs opts \<le> 0 then (Exits 1, w)
          else (case listen net (so_listenSpec opts) w of
                  (Some e, w) \<Rightarrow> (Exits 1, w)
                | (None, w) \<Rightarrow>
                    let interval = wrap64 (so_blockTimeMs opts * Millisecond)
                    in if interval \<le> 0 then (Panics, w)
                       else (Runs (opts, interval, new_sequencer (unat (so_startBlock opts))), w)))"

definition ingress_program ::
    "'w net \<Rightarrow> (byte list \<Rightarrow> byte list \<Rightarrow> string + byte list) \<Rightarrow> string list \<Rightarrow> (byte list) launch" where
  "ingress_program net Write args =
     (case ingress_options args of
        Inl status \<Rightarrow> Exits status
      | Inr opts \<Rightarrow>
          (case ingress_main (dial net) Write (io_endpoint opts) (io_blocks opts) (io_tps opts) (io_blockTimeMs opts) (unat (io_startBlock opts)) of
             Inl _ \<Rightarrow> Exits 1
           | Inr sent \<Rightarrow> Runs sent))"

definition aggregator_main :: "string list \<Rightarrow> (aggregator_opts \<times> lane_states) launch" where
  "aggregator_main args =
     (case aggregator_options args of
        Inl status \<Rightarrow> Exits status
      | Inr opts \<Rightarrow> if ao_lanes opts \<le> 0 then Exits 1 else Runs (opts, []))"

definition replayer_main ::
    "(string \<Rightarrow> string + string) \<Rightarrow> (string \<Rightarrow> string + proofLine) \<Rightarrow> string list \<Rightarrow> (replayer_opts \<times> ProofBook) launch" where
  "replayer_main Open Unmarshal args =
     (case replayer_options args of
        Inl status \<Rightarrow> Exits status
      | Inr opts \<Rightarrow>
          let book = NewProofBook (po_proofSeed opts)
          in if po_proofDataset opts \<noteq> []
             then (case LoadJSONL Open Unmarshal (po_proofDataset opts) book of
                     (Some e, _) \<Rightarrow> Exits 1
                   | (None, book) \<Rightarrow> Runs (opts, book))
             else Runs (opts, book))"

definition l1_main :: "string list \<Rightarrow> (l1_opts \<times> L1CertNode) launch" where
  "l1_main args =
     (case l1_options args of
        Inl status \<Rightarrow> Exits status
      | Inr opts \<Rightarrow> Runs (opts, NewL1CertNode (lo_proofSeed opts) NewRegistry))"

section \<open>The paths\<close>

text \<open>A request whose path is not registered is answered with 404.\<close>

definition mux :: "(string \<times> (http_request, 'w) service) list \<Rightarrow> string \<Rightarrow> (http_request, 'w) service" where
  "mux routes path r w =
     (case map_of routes path of
        Some handler \<Rightarrow> handler r w
      | None \<Rightarrow> (http_Error ''404 page not found'' 404, w))"

definition healthz :: "(http_request, 'w) service" where
  "healthz r w = (Reply \<lparr> hs_Status = 200, hs_Body = ''ok'' \<rparr>, w)"

definition aggregator_mux :: "aggregator_opts \<Rightarrow> int \<Rightarrow> 'w transport \<Rightarrow> string \<Rightarrow> (http_request, lane_states \<times> 'w) service" where
  "aggregator_mux opts now Post =
     mux [(''/lane-batch'', l2_aggregator (ao_lanes opts) now (ao_proofEndpoint opts) Post), (''/healthz'', healthz)]"

definition replayer_mux :: "replayer_opts \<Rightarrow> 'w transport \<Rightarrow> string \<Rightarrow> (http_request, ProofBook \<times> 'w) service" where
  "replayer_mux opts Post =
     mux [(''/block-commit'', proof_replayer (unat (po_badProofAt opts)) (po_l1Endpoint opts) Post), (''/healthz'', healthz)]"

definition l1_mux :: "time \<Rightarrow> time \<Rightarrow> string \<Rightarrow> (http_request, L1CertNode) service" where
  "l1_mux now now' =
     mux [(''/metrics'', \<lambda>r n. (Reply \<lparr> hs_Status = 200, hs_Body = PrometheusHandler (l1_metrics n) \<rparr>, n)),
          (''/submit-certified-block'', l1_cert_node now now'), (''/healthz'', healthz)]"

section \<open>Every configuration can be asked for\<close>

text \<open>The command lines that give every flag.\<close>

definition sequencer_settings :: "sequencer_opts \<Rightarrow> (string \<times> flag_value) list" where
  "sequencer_settings opts =
     [(''listen-stream'', String_value (so_listenSpec opts)), (''aggregator-endpoint'', String_value (so_aggregatorEndpoint opts)),
      (''lanes'', Int_value (so_lanes opts)), (''block-time-ms'', Int_value (so_blockTimeMs opts)),
      (''phase'', String_value (so_phase opts)), (''start-block'', Uint_value (so_startBlock opts))]"

definition ingress_settings :: "ingress_opts \<Rightarrow> (string \<times> flag_value) list" where
  "ingress_settings opts =
     [(''endpoint'', String_value (io_endpoint opts)), (''blocks'', Int_value (io_blocks opts)), (''tps'', Int_value (io_tps opts)),
      (''block-time-ms'', Int_value (io_blockTimeMs opts)), (''start-block'', Uint_value (io_startBlock opts))]"

definition aggregator_settings :: "aggregator_opts \<Rightarrow> (string \<times> flag_value) list" where
  "aggregator_settings opts =
     [(''listen'', String_value (ao_listen opts)), (''lanes'', Int_value (ao_lanes opts)),
      (''proof-endpoint'', String_value (ao_proofEndpoint opts))]"

definition replayer_settings :: "replayer_opts \<Rightarrow> (string \<times> flag_value) list" where
  "replayer_settings opts =
     [(''listen'', String_value (po_listen opts)), (''proof-seed'', String_value (po_proofSeed opts)),
      (''proof-dataset'', String_value (po_proofDataset opts)), (''l1-endpoint'', String_value (po_l1Endpoint opts)),
      (''bad-proof-at'', Uint_value (po_badProofAt opts))]"

definition l1_settings :: "l1_opts \<Rightarrow> (string \<times> flag_value) list" where
  "l1_settings opts = [(''listen'', String_value (lo_listen opts)), (''proof-seed'', String_value (lo_proofSeed opts))]"

abbreviation command_args :: "(string \<times> flag_value) list \<Rightarrow> string list" where
  "command_args sts \<equiv> concat (map show_setting sts)"

lemma read_flags_settings:
  "list_all (settable fs) sts \<Longrightarrow> read_flags fs get (command_args sts) = Inr (get (apply_settings sts fs))"
  using settings_parsed [of fs sts "[]"] by (simp add: read_flags_def)

lemmas service_flags = sequencer_flags_def ingress_flags_def aggregator_flags_def replayer_flags_def l1_flags_def

lemmas service_settings = sequencer_settings_def ingress_settings_def aggregator_settings_def replayer_settings_def l1_settings_def

lemmas service_values = string_flag_def int_flag_def uint_flag_def settings_in_effect

lemma service_names:
  "flag_name ''listen-stream''" "flag_name ''aggregator-endpoint''" "flag_name ''lanes''" "flag_name ''block-time-ms''"
  "flag_name ''phase''" "flag_name ''start-block''" "flag_name ''endpoint''" "flag_name ''blocks''" "flag_name ''tps''"
  "flag_name ''listen''" "flag_name ''proof-endpoint''" "flag_name ''proof-seed''" "flag_name ''proof-dataset''"
  "flag_name ''l1-endpoint''" "flag_name ''bad-proof-at''"
  by (simp_all add: flag_name_def)

text \<open>Every setting of every service, within the width of its integers, has a command line that starts the service with
  exactly this setting.\<close>

theorem service_options_roundtrip:
  "(int64_range (so_lanes s) \<and> int64_range (so_blockTimeMs s) \<longrightarrow> sequencer_options (command_args (sequencer_settings s)) = Inr s)
   \<and> (int64_range (io_blocks i) \<and> int64_range (io_tps i) \<and> int64_range (io_blockTimeMs i)
        \<longrightarrow> ingress_options (command_args (ingress_settings i)) = Inr i)
   \<and> (int64_range (ao_lanes a) \<longrightarrow> aggregator_options (command_args (aggregator_settings a)) = Inr a)
   \<and> replayer_options (command_args (replayer_settings p)) = Inr p
   \<and> l1_options (command_args (l1_settings l)) = Inr l"
proof (intro conjI impI)
  assume "int64_range (so_lanes s) \<and> int64_range (so_blockTimeMs s)"
  then have "list_all (settable sequencer_flags) (sequencer_settings s)"
    by (simp add: settable_def service_flags service_settings service_names)
  then show "sequencer_options (command_args (sequencer_settings s)) = Inr s"
    by (simp add: sequencer_options_def read_flags_settings) (simp add: service_values service_settings)
next
  assume "int64_range (io_blocks i) \<and> int64_range (io_tps i) \<and> int64_range (io_blockTimeMs i)"
  then have "list_all (settable ingress_flags) (ingress_settings i)"
    by (simp add: settable_def service_flags service_settings service_names)
  then show "ingress_options (command_args (ingress_settings i)) = Inr i"
    by (simp add: ingress_options_def read_flags_settings) (simp add: service_values service_settings)
next
  assume "int64_range (ao_lanes a)"
  then have "list_all (settable aggregator_flags) (aggregator_settings a)"
    by (simp add: settable_def service_flags service_settings service_names)
  then show "aggregator_options (command_args (aggregator_settings a)) = Inr a"
    by (simp add: aggregator_options_def read_flags_settings) (simp add: service_values service_settings)
next
  have "list_all (settable replayer_flags) (replayer_settings p)"
    by (simp add: settable_def service_flags service_settings service_names)
  then show "replayer_options (command_args (replayer_settings p)) = Inr p"
    by (simp add: replayer_options_def read_flags_settings) (simp add: service_values service_settings)
next
  have "list_all (settable l1_flags) (l1_settings l)"
    by (simp add: settable_def service_flags service_settings service_names)
  then show "l1_options (command_args (l1_settings l)) = Inr l"
    by (simp add: l1_options_def read_flags_settings) (simp add: service_values service_settings)
qed

theorem service_options_roundtrip_witness:
  "aggregator_options [''-listen'', '':1'', ''-lanes'', ''8'', ''-proof-endpoint'', []]
     = Inr \<lparr> ao_listen = '':1'', ao_lanes = 8, ao_proofEndpoint = [] \<rparr>"
  using service_options_roundtrip [of _ _ "\<lparr> ao_listen = '':1'', ao_lanes = 8, ao_proofEndpoint = [] \<rparr>"]
  by (simp add: aggregator_settings_def int64_range_def dec_int_def dec_nat.simps dec_digit_def)

section \<open>What a service that runs can rely on\<close>

lemma started_sequencer:
  assumes "sequencer_main net args w = (Runs (opts, interval, s), w')"
  shows "0 < so_lanes opts" "0 < interval" "interval = wrap64 (so_blockTimeMs opts * Millisecond)"
    "s = new_sequencer (unat (so_startBlock opts))" "listen net (so_listenSpec opts) w = (None, w')"
  using assms by (auto simp: sequencer_main_def Let_def split: sum.splits if_splits prod.splits option.splits)

lemma started_services:
  "aggregator_main args = Runs (a, states) \<Longrightarrow> 0 < ao_lanes a \<and> states = []"
  "l1_main args = Runs (l, n) \<Longrightarrow> n = NewL1CertNode (lo_proofSeed l) NewRegistry"
  "replayer_main Open Unmarshal args = Runs (p, book) \<Longrightarrow> po_proofDataset p = [] \<Longrightarrow> book = NewProofBook (po_proofSeed p)"
  by (auto simp: aggregator_main_def l1_main_def replayer_main_def Let_def split: sum.splits if_splits prod.splits option.splits)

text \<open>The service behind the default endpoint of the sequencer, and of the replayer, knows the path.\<close>

lemma default_paths:
  "aggregator_mux a now Post ''/lane-batch'' = l2_aggregator (ao_lanes a) now (ao_proofEndpoint a) Post"
  "replayer_mux p Post' ''/block-commit'' = proof_replayer (unat (po_badProofAt p)) (po_l1Endpoint p) Post'"
  "l1_mux t t' ''/submit-certified-block'' = l1_cert_node t t'"
  by (simp_all add: aggregator_mux_def replayer_mux_def l1_mux_def mux_def fun_eq_iff)

section \<open>Two starts that go wrong\<close>

text \<open>
  The check of the block time does not see that its nanoseconds overflow: the sequencer opens its listener and then
  panics in the ticker.
\<close>

lemma long_block_time_panics:
  assumes "listen net (so_listenSpec opts) w = (None, w')" "so_blockTimeMs opts = 9223372036855"
    "0 < so_lanes opts" "int64_range (so_lanes opts)"
  shows "sequencer_main net (command_args (sequencer_settings opts)) w = (Panics, w')"
proof -
  have "list_all (settable sequencer_flags) (sequencer_settings opts)"
    using assms by (simp add: settable_def service_flags service_settings service_names int64_range_def)
  then have "sequencer_options (command_args (sequencer_settings opts)) = Inr opts"
    by (simp add: sequencer_options_def read_flags_settings) (simp add: service_values service_settings)
  then show ?thesis using assms by (simp add: sequencer_main_def Let_def Millisecond_def wrap64_def)
qed

text \<open>
  An aggregator that is started without \<^verbatim>\<open>--proof-endpoint\<close>, which is the default, completes blocks and forwards nothing:
  whatever is asked of it, the services behind it stay as they are.
\<close>

lemma default_aggregator_forwards_nothing:
  assumes "ao_proofEndpoint a = []"
  shows "\<exists>out states'. aggregator_mux a now Post path r (states, w) = (out, (states', w))"
  using assms
  by (auto simp: aggregator_mux_def mux_def healthz_def l2_aggregator_def json_handler_def lane_batch_post_def Let_def
      split: option.splits sum.splits prod.splits)

end
