(* ===== verification/Runner.thy ===== *)
theory Runner imports Stages Ring begin

text \<open>
  \<^verbatim>\<open>internal/pipeline/runner.go\<close> as a state machine: the ingress loop and the three goroutines
  (sequencer, aggregator, proof replayer) connected by rings, each advancing by one queue operation or
  one flag read at a time, in any order, with cancellation of the context at any moment.  A call on
  a ring and a submission to the L1 node count as one step each; sleeping and pausing change no state
  and are left out.
\<close>

section \<open>State\<close>

datatype ingress_pc = Ing_top | Ing_retry | Ing_end

datatype sequencer_pc = Seq_top | Seq_check | Seq_emit "LaneBatch list" | Seq_end

datatype aggregator_pc = Agg_top | Agg_check | Agg_emit BlockCommit | Agg_end

datatype replayer_pc = Rep_top | Rep_check | Rep_end

text \<open>
  \<open>ru_todo\<close> holds the jobs the ingress loop has still to enqueue, each with its transfer count.  The
  registry of the run is the one inside the L1 node.
\<close>

record RunState =
  ru_ingressQ :: "BlockJob Ring"
  ru_laneQ :: "LaneBatch Ring"
  ru_commitQ :: "BlockCommit Ring"
  ru_ingressDone :: bool
  ru_sequencerDone :: bool
  ru_aggregatorDone :: bool
  ru_cancelled :: bool
  ru_ing :: ingress_pc
  ru_todo :: "(BlockJob \<times> int) list"
  ru_seq :: sequencer_pc
  ru_agg :: aggregator_pc
  ru_states :: aggregates
  ru_rep :: replayer_pc
  ru_book :: ProofBook
  ru_l1 :: L1CertNode

section \<open>Set-up\<close>

definition zero_job :: BlockJob where
  "zero_job = \<lparr> bj_Phase = [], bj_BlockIndex = 0, bj_Txs = [], bj_CreatedAt = 0 \<rparr>"

definition zero_batch :: LaneBatch where
  "zero_batch = \<lparr> lb_Phase = [], lb_BlockIndex = 0, lb_LaneID = 0, lb_Payload = [], lb_CreatedAt = 0 \<rparr>"

definition zero_commit :: BlockCommit where
  "zero_commit = \<lparr> bc_Phase = [], bc_BlockIndex = 0, bc_CommitmentHash = replicate 32 0, bc_TxCount = 0,
                   bc_Txs = [], bc_CreatedAt = 0 \<rparr>"

datatype runner_error = QueueError ring_error | LoadProofDataset proof_error

text \<open>The constructor; \<open>Stat\<close>, \<open>Open\<close> and \<open>Unmarshal\<close> are the file system and the JSON decoder.\<close>

definition NewRunner ::
    "(string \<Rightarrow> bool) \<Rightarrow> (string \<Rightarrow> string + string) \<Rightarrow> (string \<Rightarrow> string + proofLine)
     \<Rightarrow> Config \<Rightarrow> runner_error + RunState" where
  "NewRunner Stat Open Unmarshal cfg =
     (case NewRing zero_job (cfg_QueueCapacity cfg) of
        Inl e \<Rightarrow> Inl (QueueError e)
      | Inr ingressQ \<Rightarrow>
     (case NewRing zero_batch (cfg_QueueCapacity cfg) of
        Inl e \<Rightarrow> Inl (QueueError e)
      | Inr laneQ \<Rightarrow>
     (case NewRing zero_commit (cfg_QueueCapacity cfg) of
        Inl e \<Rightarrow> Inl (QueueError e)
      | Inr commitQ \<Rightarrow>
          let m = NewRegistry; p = NewProofBook (cfg_ProofSeed cfg);
              (err, p) = (if cfg_ProofDatasetPath cfg \<noteq> [] \<and> Stat (cfg_ProofDatasetPath cfg)
                          then LoadJSONL Open Unmarshal (cfg_ProofDatasetPath cfg) p else (None, p))
          in case err of
               Some e \<Rightarrow> Inl (LoadProofDataset e)
             | None \<Rightarrow> Inr \<lparr> ru_ingressQ = ingressQ, ru_laneQ = laneQ, ru_commitQ = commitQ,
                 ru_ingressDone = False, ru_sequencerDone = False, ru_aggregatorDone = False,
                 ru_cancelled = False, ru_ing = Ing_top, ru_todo = [], ru_seq = Seq_top, ru_agg = Agg_top,
                 ru_states = [], ru_rep = Rep_top, ru_book = p,
                 ru_l1 = NewL1CertNode (cfg_ProofSeed cfg) m \<rparr>)))"

text \<open>
  The jobs \<^verbatim>\<open>runIngressPhase\<close> makes for one phase and the next free block number; \<open>clock\<close> stamps
  them.  \<^const>\<open>None\<close> is the division by zero in \<^const>\<open>BlocksForPhase\<close>.
\<close>

definition phase_jobs ::
    "Config \<Rightarrow> (u32 \<Rightarrow> time) \<Rightarrow> string \<Rightarrow> u32 \<Rightarrow> Phase \<Rightarrow> ((BlockJob \<times> int) list \<times> u32) option" where
  "phase_jobs cfg clock phaseName startBlock phase =
     (case BlocksForPhase cfg phase of
        None \<Rightarrow> None
      | Some blocks \<Rightarrow>
          if blocks = 0 \<or> ph_TPS phase = 0 then Some ([], startBlock)
          else Some (map (\<lambda>i. let blockIndex = startBlock + of_nat i;
                                  txCount = TxPerBlock cfg (ph_TPS phase)
                              in (\<lparr> bj_Phase = phaseName, bj_BlockIndex = blockIndex,
                                    bj_Txs = GenerateSyntheticTxs blockIndex txCount,
                                    bj_CreatedAt = clock blockIndex \<rparr>, txCount)) [0..<nat blocks],
                     startBlock + of_int blocks))"

definition run_jobs :: "Config \<Rightarrow> (u32 \<Rightarrow> time) \<Rightarrow> (BlockJob \<times> int) list option" where
  "run_jobs cfg clock =
     (case phase_jobs cfg clock ''warmup'' 0 (cfg_Warmup cfg) of
        None \<Rightarrow> None
      | Some (warm, nextBlock) \<Rightarrow>
          (case phase_jobs cfg clock ''certification'' nextBlock (cfg_Certification cfg) of
             None \<Rightarrow> None
           | Some (cert, _) \<Rightarrow> Some (warm @ cert)))"

section \<open>Shared operations\<close>

definition with_metrics :: "(Registry \<Rightarrow> Registry) \<Rightarrow> RunState \<Rightarrow> RunState" where
  "with_metrics f s = s\<lparr> ru_l1 := (ru_l1 s)\<lparr> l1_metrics := f (l1_metrics (ru_l1 s)) \<rparr> \<rparr>"

definition updateQueueDepth :: "RunState \<Rightarrow> RunState" where
  "updateQueueDepth s =
     with_metrics (SetQueueDepth (Len (ru_ingressQ s) + Len (ru_laneQ s) + Len (ru_commitQ s))) s"

section \<open>Steps\<close>

text \<open>
  One step of a thread; \<^const>\<open>None\<close> when it has ended, or panics.  A failed enqueue reads the context,
  counts a drop and is tried again.
\<close>

definition ingress_enqueue :: "RunState \<Rightarrow> RunState option" where
  "ingress_enqueue s =
     (case ru_todo s of
        [] \<Rightarrow> None
      | (job, txCount) # rest \<Rightarrow>
          (case Enqueue job (ru_ingressQ s) of
             None \<Rightarrow> None
           | Some (ok, q) \<Rightarrow>
               let s = s\<lparr> ru_ingressQ := q \<rparr> in
               if ok then Some (updateQueueDepth (with_metrics (AddIngressTx (of_int txCount))
                            (s\<lparr> ru_todo := rest, ru_ing := Ing_top \<rparr>)))
               else if ru_cancelled s then Some (s\<lparr> ru_todo := [], ru_ing := Ing_top \<rparr>)
               else Some (with_metrics (IncDrop 1) (s\<lparr> ru_ing := Ing_retry \<rparr>))))"

definition ingress_step :: "RunState \<Rightarrow> RunState option" where
  "ingress_step s =
     (case ru_ing s of
        Ing_end \<Rightarrow> None
      | Ing_retry \<Rightarrow> ingress_enqueue s
      | Ing_top \<Rightarrow>
          if ru_todo s = [] then Some (s\<lparr> ru_ingressDone := True, ru_ing := Ing_end \<rparr>)
          else if ru_cancelled s then Some (s\<lparr> ru_todo := [] \<rparr>)
          else ingress_enqueue s)"

definition sequencer_step :: "Config \<Rightarrow> RunState \<Rightarrow> RunState option" where
  "sequencer_step cfg s =
     (case ru_seq s of
        Seq_end \<Rightarrow> None
      | Seq_top \<Rightarrow>
          if ru_cancelled s then Some (s\<lparr> ru_sequencerDone := True, ru_seq := Seq_end \<rparr>)
          else (case Dequeue zero_job (ru_ingressQ s) of
                  None \<Rightarrow> None
                | Some ((job, ok), q) \<Rightarrow>
                    Some (s\<lparr> ru_ingressQ := q,
                             ru_seq := (if ok then Seq_emit (lane_batches cfg job) else Seq_check) \<rparr>))
      | Seq_check \<Rightarrow>
          if ru_ingressDone s then Some (s\<lparr> ru_sequencerDone := True, ru_seq := Seq_end \<rparr>)
          else Some (s\<lparr> ru_seq := Seq_top \<rparr>)
      | Seq_emit [] \<Rightarrow> Some (updateQueueDepth (s\<lparr> ru_seq := Seq_top \<rparr>))
      | Seq_emit (batch # rest) \<Rightarrow>
          (case Enqueue batch (ru_laneQ s) of
             None \<Rightarrow> None
           | Some (ok, q) \<Rightarrow>
               let s = s\<lparr> ru_laneQ := q \<rparr> in
               if ok then Some (s\<lparr> ru_seq := Seq_emit rest \<rparr>)
               else if ru_cancelled s then Some (s\<lparr> ru_sequencerDone := True, ru_seq := Seq_end \<rparr>)
               else Some (with_metrics (IncDrop 1) s)))"

definition aggregator_step :: "Config \<Rightarrow> RunState \<Rightarrow> RunState option" where
  "aggregator_step cfg s =
     (case ru_agg s of
        Agg_end \<Rightarrow> None
      | Agg_top \<Rightarrow>
          if ru_cancelled s then Some (s\<lparr> ru_aggregatorDone := True, ru_agg := Agg_end \<rparr>)
          else (case Dequeue zero_batch (ru_laneQ s) of
                  None \<Rightarrow> None
                | Some ((batch, ok), q) \<Rightarrow>
                    let s = s\<lparr> ru_laneQ := q \<rparr> in
                    if \<not> ok then Some (s\<lparr> ru_agg := Agg_check \<rparr>)
                    else (case aggregate_batch cfg batch (ru_states s, l1_metrics (ru_l1 s)) of
                            None \<Rightarrow> None
                          | Some (commit, states, m) \<Rightarrow>
                              let s = with_metrics (\<lambda>_. m) (s\<lparr> ru_states := states \<rparr>) in
                              (case commit of
                                 None \<Rightarrow> Some (updateQueueDepth s)
                               | Some c \<Rightarrow> Some (s\<lparr> ru_agg := Agg_emit c \<rparr>))))
      | Agg_check \<Rightarrow>
          if ru_sequencerDone s \<and> ru_states s = []
          then Some (s\<lparr> ru_aggregatorDone := True, ru_agg := Agg_end \<rparr>)
          else Some (s\<lparr> ru_agg := Agg_top \<rparr>)
      | Agg_emit commit \<Rightarrow>
          (case Enqueue commit (ru_commitQ s) of
             None \<Rightarrow> None
           | Some (ok, q) \<Rightarrow>
               let s = s\<lparr> ru_commitQ := q \<rparr> in
               if ok then Some (updateQueueDepth
                            (s\<lparr> ru_states := AList.delete (bc_BlockIndex commit) (ru_states s), ru_agg := Agg_top \<rparr>))
               else if ru_cancelled s then Some (s\<lparr> ru_aggregatorDone := True, ru_agg := Agg_end \<rparr>)
               else Some (with_metrics (IncDrop 1) s)))"

definition replayer_step :: "Config \<Rightarrow> time \<Rightarrow> RunState \<Rightarrow> RunState option" where
  "replayer_step cfg now s =
     (case ru_rep s of
        Rep_end \<Rightarrow> None
      | Rep_top \<Rightarrow>
          if ru_cancelled s then Some (s\<lparr> ru_rep := Rep_end \<rparr>)
          else (case Dequeue zero_commit (ru_commitQ s) of
                  None \<Rightarrow> None
                | Some ((commit, ok), q) \<Rightarrow>
                    let s = s\<lparr> ru_commitQ := q \<rparr> in
                    if \<not> ok then Some (s\<lparr> ru_rep := Rep_check \<rparr>)
                    else let (req, book) = replay_request cfg commit (ru_book s)
                         in Some (updateQueueDepth
                              (s\<lparr> ru_book := book, ru_l1 := snd (SubmitCertifiedBlock now req (ru_l1 s)) \<rparr>)))
      | Rep_check \<Rightarrow>
          if ru_aggregatorDone s then Some (s\<lparr> ru_rep := Rep_end \<rparr>)
          else Some (s\<lparr> ru_rep := Rep_top \<rparr>))"

datatype action = A_ingress | A_sequencer | A_aggregator | A_replayer time | A_cancel

fun run_step :: "Config \<Rightarrow> action \<Rightarrow> RunState \<Rightarrow> RunState option" where
  "run_step cfg A_ingress s = ingress_step s"
| "run_step cfg A_sequencer s = sequencer_step cfg s"
| "run_step cfg A_aggregator s = aggregator_step cfg s"
| "run_step cfg (A_replayer now) s = replayer_step cfg now s"
| "run_step cfg A_cancel s = Some (s\<lparr> ru_cancelled := True \<rparr>)"

fun run_schedule :: "Config \<Rightarrow> action list \<Rightarrow> RunState \<Rightarrow> RunState option" where
  "run_schedule cfg [] s = Some s"
| "run_schedule cfg (a # as) s = (case run_step cfg a s of None \<Rightarrow> None | Some s' \<Rightarrow> run_schedule cfg as s')"

text \<open>The states any interleaving can reach.\<close>

inductive reach :: "Config \<Rightarrow> RunState \<Rightarrow> RunState \<Rightarrow> bool" for cfg s0 where
  start: "reach cfg s0 s0"
| step: "reach cfg s0 s \<Longrightarrow> run_step cfg a s = Some s' \<Longrightarrow> reach cfg s0 s'"

text \<open>\<^verbatim>\<open>wg.Wait\<close> returns when the ingress loop and the three goroutines have ended.\<close>

definition run_ended :: "RunState \<Rightarrow> bool" where
  "run_ended s \<longleftrightarrow> ru_ing s = Ing_end \<and> ru_seq s = Seq_end \<and> ru_agg s = Agg_end \<and> ru_rep s = Rep_end"

end
