(* ===== verification/Runner_Flow.thy ===== *)
theory Runner_Flow imports Runner begin

text \<open>
  What flows through the runner, for every interleaving.  Each channel is a FIFO queue and each
  thread is deterministic, so the jobs, batches and commits pass in the order of the plan: the L1
  node always holds the result of a prefix of it, and a run that ends with nothing left in the
  queues holds all of it.  The exit tests of the threads do not guarantee the latter: a schedule is
  given in which a run ends with a block left behind.
\<close>

section \<open>Field effects\<close>

lemma with_metrics_fields [simp]:
  "ru_ingressQ (with_metrics f s) = ru_ingressQ s" "ru_laneQ (with_metrics f s) = ru_laneQ s"
  "ru_commitQ (with_metrics f s) = ru_commitQ s" "ru_ingressDone (with_metrics f s) = ru_ingressDone s"
  "ru_sequencerDone (with_metrics f s) = ru_sequencerDone s"
  "ru_aggregatorDone (with_metrics f s) = ru_aggregatorDone s"
  "ru_cancelled (with_metrics f s) = ru_cancelled s" "ru_ing (with_metrics f s) = ru_ing s"
  "ru_todo (with_metrics f s) = ru_todo s" "ru_seq (with_metrics f s) = ru_seq s"
  "ru_agg (with_metrics f s) = ru_agg s" "ru_states (with_metrics f s) = ru_states s"
  "ru_rep (with_metrics f s) = ru_rep s" "ru_book (with_metrics f s) = ru_book s"
  "ru_l1 (with_metrics f s) = (ru_l1 s)\<lparr> l1_metrics := f (l1_metrics (ru_l1 s)) \<rparr>"
  by (simp_all add: with_metrics_def)

lemma updateQueueDepth_fields [simp]:
  "ru_ingressQ (updateQueueDepth s) = ru_ingressQ s" "ru_laneQ (updateQueueDepth s) = ru_laneQ s"
  "ru_commitQ (updateQueueDepth s) = ru_commitQ s" "ru_ingressDone (updateQueueDepth s) = ru_ingressDone s"
  "ru_sequencerDone (updateQueueDepth s) = ru_sequencerDone s"
  "ru_aggregatorDone (updateQueueDepth s) = ru_aggregatorDone s"
  "ru_cancelled (updateQueueDepth s) = ru_cancelled s" "ru_ing (updateQueueDepth s) = ru_ing s"
  "ru_todo (updateQueueDepth s) = ru_todo s" "ru_seq (updateQueueDepth s) = ru_seq s"
  "ru_agg (updateQueueDepth s) = ru_agg s" "ru_states (updateQueueDepth s) = ru_states s"
  "ru_rep (updateQueueDepth s) = ru_rep s" "ru_book (updateQueueDepth s) = ru_book s"
  by (simp_all add: updateQueueDepth_def)

text \<open>The node up to its metrics, which the other threads write too.\<close>

definition sans_metrics :: "L1CertNode \<Rightarrow> L1CertNode" where
  "sans_metrics n = n\<lparr> l1_metrics := NewRegistry \<rparr>"

lemma sans_metrics_update [simp]: "sans_metrics (n\<lparr> l1_metrics := m \<rparr>) = sans_metrics n"
  by (simp add: sans_metrics_def)

lemma sans_metrics_updateQueueDepth [simp]:
  "sans_metrics (ru_l1 (updateQueueDepth s)) = sans_metrics (ru_l1 s)"
  by (simp add: updateQueueDepth_def)

lemma Submit_sans_metrics:
  "sans_metrics (snd (SubmitCertifiedBlock now req (n\<lparr> l1_metrics := m \<rparr>)))
   = sans_metrics (snd (SubmitCertifiedBlock now req n))"
  by (auto simp: SubmitCertifiedBlock_def Let_def applyTxs_eq append_log_def reject_entry_def sans_metrics_def
      split: option.split)

lemma Submit_agree:
  assumes "sans_metrics n = sans_metrics n'"
  shows "sans_metrics (snd (SubmitCertifiedBlock now req n)) = sans_metrics (snd (SubmitCertifiedBlock now req n'))"
proof -
  have "n = n'\<lparr> l1_metrics := l1_metrics n \<rparr>"
    using assms by (cases n, cases n') (simp add: sans_metrics_def)
  then show ?thesis by (metis Submit_sans_metrics)
qed

lemma submit_all_agree:
  "sans_metrics n = sans_metrics n' \<Longrightarrow>
   sans_metrics (snd (submit_all reqs n)) = sans_metrics (snd (submit_all reqs n'))"
proof (induction reqs arbitrary: n n')
  case (Cons tr reqs)
  obtain now req where tr: "tr = (now, req)" by (cases tr)
  have one: "snd (submit_all (tr # reqs) x) = snd (submit_all reqs (snd (SubmitCertifiedBlock now req x)))" for x
    using submit_all_append [of "[tr]" reqs x] by (simp add: tr Let_def split: prod.splits)
  show ?case unfolding one by (intro Cons.IH Submit_agree Cons.prems)
qed simp

lemma submit_all_snoc:
  "snd (submit_all (reqs @ [(now, req)]) n) = snd (SubmitCertifiedBlock now req (snd (submit_all reqs n)))"
  unfolding submit_all_append by (simp add: Let_def split: prod.split)

section \<open>The aggregator over a list of batches\<close>

lemma aggregate_batch_metrics:
  "aggregate_batch cfg b (states, m) = Some (c, states', m1)
   \<Longrightarrow> \<exists>m2. aggregate_batch cfg b (states, m') = Some (c, states', m2)"
  by (auto simp: aggregate_batch_def collect_txs_eq Let_def split: sum.splits)

lemma collect_batches_append:
  "collect_batches cfg (xs @ ys) s =
     (case collect_batches cfg xs s of
        None \<Rightarrow> None
      | Some (cs, s') \<Rightarrow> (case collect_batches cfg ys s' of
            None \<Rightarrow> None | Some (ds, s'') \<Rightarrow> Some (cs @ ds, s'')))"
proof (induction xs arbitrary: s)
  case (Cons b xs)
  then show ?case
    by (auto simp: Let_def split: option.splits prod.splits)
qed (simp split: option.split)

text \<open>The batches of a list of jobs give their commits, and leave nothing behind.\<close>

definition good_job :: "Config \<Rightarrow> BlockJob \<Rightarrow> bool" where
  "good_job cfg job \<longleftrightarrow> length (bj_Txs job) < 2 ^ 32"

definition good_lanes :: "Config \<Rightarrow> bool" where
  "good_lanes cfg \<longleftrightarrow> 0 < cfg_Lanes cfg \<and> cfg_Lanes cfg \<le> 2 ^ 16"

lemma collect_jobs:
  assumes "good_lanes cfg" "list_all (good_job cfg) jobs"
  shows "\<exists>m'. collect_batches cfg (concat (map (lane_batches cfg) jobs)) ([], m)
    = Some (map (job_commit cfg) jobs, [], m')"
  using assms(2)
proof (induction jobs arbitrary: m)
  case (Cons job jobs)
  have "collect_batches cfg (lane_batches cfg job) ([], m)
      = Some ([job_commit cfg job], [], IncDrop (of_nat (invalid_count (bj_Txs job))) m)"
    using aggregate_job [of cfg job "[]" m] assms(1) Cons.prems by (simp add: good_lanes_def good_job_def)
  moreover obtain m' where "collect_batches cfg (concat (map (lane_batches cfg) jobs))
      ([], IncDrop (of_nat (invalid_count (bj_Txs job))) m) = Some (map (job_commit cfg) jobs, [], m')"
    using Cons by force
  ultimately show ?case by (simp add: collect_batches_append)
qed simp

section \<open>The flow invariant\<close>

definition emit_batches :: "sequencer_pc \<Rightarrow> LaneBatch list" where
  "emit_batches pc = (case pc of Seq_emit bs \<Rightarrow> bs | _ \<Rightarrow> [])"

definition emit_commits :: "aggregator_pc \<Rightarrow> BlockCommit list" where
  "emit_commits pc = (case pc of Agg_emit c \<Rightarrow> [c] | _ \<Rightarrow> [])"

lemma emit_simps [simp]:
  "emit_batches Seq_top = []" "emit_batches Seq_check = []" "emit_batches Seq_end = []"
  "emit_batches (Seq_emit bs) = bs"
  "emit_commits Agg_top = []" "emit_commits Agg_check = []" "emit_commits Agg_end = []"
  "emit_commits (Agg_emit c) = [c]"
  by (simp_all add: emit_batches_def emit_commits_def)

text \<open>
  \<open>flows c whole part\<close>: what is still on its way is all of it, or, once the context is cancelled,
  a beginning of it.
\<close>

definition flows :: "bool \<Rightarrow> 'a list \<Rightarrow> 'a list \<Rightarrow> bool" where
  "flows c whole part \<longleftrightarrow> (\<exists>lost. whole = part @ lost \<and> (\<not> c \<longrightarrow> lost = []))"

lemma flows_refl [simp]: "flows c xs xs"
  by (simp add: flows_def)

lemma flows_False [simp]: "flows False whole part \<longleftrightarrow> whole = part"
  by (auto simp: flows_def)

lemma flows_cancel: "flows c whole part \<Longrightarrow> flows True whole part"
  by (auto simp: flows_def)

lemma flows_lose: "flows c whole (part @ zs) \<Longrightarrow> flows True whole part"
  by (auto simp: flows_def)

lemma flows_extend: "flows c whole part \<Longrightarrow> \<not> c \<Longrightarrow> flows c (whole @ zs) (part @ zs)"
  by (auto simp: flows_def)

text \<open>
  What the aggregator has made of the batches it consumed; an entry that is being emitted counts as
  deleted.
\<close>

definition settled :: "aggregator_pc \<Rightarrow> aggregates \<Rightarrow> aggregates" where
  "settled pc states = (case pc of Agg_emit c \<Rightarrow> AList.delete (bc_BlockIndex c) states | _ \<Rightarrow> states)"

definition collected :: "Config \<Rightarrow> LaneBatch list \<Rightarrow> BlockCommit list \<Rightarrow> aggregator_pc \<Rightarrow> aggregates \<Rightarrow> bool" where
  "collected cfg B C pc states \<longleftrightarrow>
     (\<exists>states' m m'. collect_batches cfg B ([], m) = Some (C, states', m')
        \<and> (pc \<noteq> Agg_end \<longrightarrow> states' = settled pc states))"

text \<open>The requests the replayer makes of the commits, given what the book answers.\<close>

definition commit_request :: "Config \<Rightarrow> (u32 \<Rightarrow> byte list) \<Rightarrow> BlockCommit \<Rightarrow> SubmitRequest" where
  "commit_request cfg V c =
     \<lparr> rq_Phase = bc_Phase c, rq_BlockIndex = bc_BlockIndex c, rq_CommitmentHash = bc_CommitmentHash c,
       rq_Proof = \<lparr> pr_BlockIndex = bc_BlockIndex c, pr_CommitmentHash = bc_CommitmentHash c,
         pr_ProofBytes = (if bad_block cfg (bc_BlockIndex c) then flip_first (V (bc_BlockIndex c))
                          else V (bc_BlockIndex c)) \<rparr>,
       rq_TxCount = bc_TxCount c, rq_Txs = bc_Txs c, rq_CreatedAt = bc_CreatedAt c \<rparr>"

lemma replay_request_eq: "fst (replay_request cfg c book) = commit_request cfg (book_view book) c"
  using replay_request_proof [of cfg c book] replay_request_fields [of cfg c book]
  by (cases "fst (replay_request cfg c book)") (simp add: commit_request_def)

definition certified :: "Config \<Rightarrow> (u32 \<Rightarrow> byte list) \<Rightarrow> L1CertNode \<Rightarrow> BlockCommit list \<Rightarrow> L1CertNode \<Rightarrow> bool" where
  "certified cfg V n0 R n \<longleftrightarrow>
     (\<exists>ts. length ts = length R
        \<and> sans_metrics n = sans_metrics (snd (submit_all (zip ts (map (commit_request cfg V) R)) n0)))"

lemma certified_snoc:
  assumes "certified cfg V n0 R n"
  shows "certified cfg V n0 (R @ [c]) (snd (SubmitCertifiedBlock now (commit_request cfg V c) n))"
proof -
  obtain ts where ts: "length ts = length R"
    "sans_metrics n = sans_metrics (snd (submit_all (zip ts (map (commit_request cfg V) R)) n0))"
    using assms by (auto simp: certified_def)
  have z: "zip (ts @ [now]) (map (commit_request cfg V) (R @ [c]))
      = zip ts (map (commit_request cfg V) R) @ [(now, commit_request cfg V c)]"
    using ts(1) by simp
  show ?thesis
    unfolding certified_def
    by (rule exI [of _ "ts @ [now]"]) (simp add: ts(1) z submit_all_snoc Submit_agree [OF ts(2)] del: zip_append map_append)
qed

lemma certified_metrics [simp]: "certified cfg V n0 R (n\<lparr> l1_metrics := m \<rparr>) = certified cfg V n0 R n"
  by (simp add: certified_def)

lemma certified_updateQueueDepth [simp]:
  "certified cfg V n0 R (ru_l1 (updateQueueDepth s)) = certified cfg V n0 R (ru_l1 s)"
  by (simp add: certified_def)

text \<open>
  \<open>S\<close> are the jobs the sequencer has taken, \<open>B\<close> the batches the aggregator has consumed, \<open>C\<close> the
  commits it made of them and \<open>R\<close> those the replayer has submitted.
\<close>

definition flow ::
    "Config \<Rightarrow> BlockJob list \<Rightarrow> L1CertNode \<Rightarrow> (u32 \<Rightarrow> byte list)
     \<Rightarrow> BlockJob list \<Rightarrow> LaneBatch list \<Rightarrow> BlockCommit list \<Rightarrow> BlockCommit list \<Rightarrow> RunState \<Rightarrow> bool" where
  "flow cfg P n0 V S B C R s \<longleftrightarrow>
     ring_inv (ru_ingressQ s) \<and> ring_inv (ru_laneQ s) \<and> ring_inv (ru_commitQ s)
     \<and> flows (ru_cancelled s) P (S @ ring_list (ru_ingressQ s) @ map fst (ru_todo s))
     \<and> flows (ru_cancelled s) (concat (map (lane_batches cfg) S))
         (B @ ring_list (ru_laneQ s) @ emit_batches (ru_seq s))
     \<and> collected cfg B C (ru_agg s) (ru_states s)
     \<and> flows (ru_cancelled s) C (R @ ring_list (ru_commitQ s) @ emit_commits (ru_agg s))
     \<and> certified cfg V n0 R (ru_l1 s) \<and> book_view (ru_book s) = V"

lemma ingress_enqueue_flow:
  assumes "flow cfg P n0 V S B C R s" "ingress_enqueue s = Some s'"
  shows "flow cfg P n0 V S B C R s'"
proof -
  obtain job n rest where todo: "ru_todo s = (job, n) # rest"
    using assms(2) by (auto simp: ingress_enqueue_def split: list.splits)
  have inv: "ring_inv (ru_ingressQ s)" using assms(1) by (simp add: flow_def)
  show ?thesis
  proof (cases rule: ring_queue.enq_cases [OF inv, of job])
    case (1 q')
    then show ?thesis using assms by (simp add: ingress_enqueue_def todo Let_def flow_def) (auto simp: flow_def)
  next
    case 2
    then show ?thesis
      using assms flows_lose [of _ P "S @ ring_list (ru_ingressQ s)" "map fst (ru_todo s)"]
      by (auto simp: ingress_enqueue_def todo Let_def flow_def split: if_splits)
  qed
qed

lemma ingress_step_flow:
  assumes "flow cfg P n0 V S B C R s" "ingress_step s = Some s'"
  shows "flow cfg P n0 V S B C R s'"
  using assms ingress_enqueue_flow [of cfg P n0 V S B C R s s']
    flows_lose [of _ P "S @ ring_list (ru_ingressQ s)" "map fst (ru_todo s)"]
  by (auto simp: ingress_step_def flow_def split: ingress_pc.splits if_splits)

lemma sequencer_step_flow:
  assumes "flow cfg P n0 V S B C R s" "sequencer_step cfg s = Some s'"
  shows "\<exists>S'. flow cfg P n0 V S' B C R s'"
proof (cases "ru_seq s")
  case Seq_top
  show ?thesis
  proof (cases "ru_cancelled s")
    case True
    then show ?thesis using assms Seq_top by (auto simp: sequencer_step_def flow_def)
  next
    case False
    have inv: "ring_inv (ru_ingressQ s)" using assms(1) by (simp add: flow_def)
    show ?thesis
    proof (cases rule: ring_queue.deq_cases [OF inv, of zero_job])
      case (1 job q')
      have "flow cfg P n0 V (S @ [job]) B C R s'"
        using assms False 1 Seq_top by (auto simp: sequencer_step_def flow_def)
      then show ?thesis by blast
    next
      case (2 z)
      then show ?thesis using assms False Seq_top by (auto simp: sequencer_step_def flow_def)
    qed
  qed
next
  case Seq_check
  then show ?thesis using assms by (auto simp: sequencer_step_def flow_def split: if_splits)
next
  case (Seq_emit bs)
  show ?thesis
  proof (cases bs)
    case Nil
    then show ?thesis using assms Seq_emit by (auto simp: sequencer_step_def flow_def)
  next
    case (Cons b rest)
    have inv: "ring_inv (ru_laneQ s)" using assms(1) by (simp add: flow_def)
    show ?thesis
    proof (cases rule: ring_queue.enq_cases [OF inv, of b])
      case (1 q')
      then show ?thesis using assms Seq_emit Cons by (auto simp: sequencer_step_def flow_def Let_def)
    next
      case 2
      then show ?thesis
        using assms Seq_emit Cons
          flows_lose [of _ "concat (map (lane_batches cfg) S)" "B @ ring_list (ru_laneQ s)" bs]
        by (auto simp: sequencer_step_def flow_def Let_def split: if_splits)
    qed
  qed
qed (use assms in \<open>simp add: sequencer_step_def\<close>)

lemma collected_end: "collected cfg B C pc states \<Longrightarrow> collected cfg B C Agg_end states'"
  by (auto simp: collected_def)

lemma settled_simps [simp]:
  "settled Agg_top states = states" "settled Agg_check states = states"
  "settled (Agg_emit c) states = AList.delete (bc_BlockIndex c) states"
  by (simp_all add: settled_def)

lemma collected_idle [simp]: "collected cfg B C Agg_check states = collected cfg B C Agg_top states"
  by (simp add: collected_def)

lemma collected_emitted:
  "collected cfg B C (Agg_emit c) states \<Longrightarrow> collected cfg B C Agg_top (AList.delete (bc_BlockIndex c) states)"
  by (simp add: collected_def)

lemma aggregate_commit_index:
  "aggregate_batch cfg b (states, m) = Some (Some c, states', m') \<Longrightarrow> bc_BlockIndex c = lb_BlockIndex b"
  by (auto simp: aggregate_batch_def Let_def split: sum.splits prod.splits if_splits)

lemma collected_batch:
  assumes "collected cfg B C Agg_top states" "aggregate_batch cfg b (states, m) = Some (c, states1, m1)"
  shows "collected cfg (B @ [b]) (C @ (case c of None \<Rightarrow> [] | Some x \<Rightarrow> [x]))
    (case c of None \<Rightarrow> Agg_top | Some x \<Rightarrow> Agg_emit x) states1"
proof -
  obtain m0 m0' where c0: "collect_batches cfg B ([], m0) = Some (C, states, m0')"
    using assms(1) by (auto simp: collected_def)
  obtain m2 where a: "aggregate_batch cfg b (states, m0') = Some (c, states1, m2)"
    using aggregate_batch_metrics [OF assms(2)] by blast
  let ?states2 = "case c of None \<Rightarrow> states1 | Some _ \<Rightarrow> AList.delete (lb_BlockIndex b) states1"
  have "collect_batches cfg (B @ [b]) ([], m0)
      = Some (C @ (case c of None \<Rightarrow> [] | Some x \<Rightarrow> [x]), ?states2, m2)"
    using c0 a by (simp add: collect_batches_append split: option.split)
  moreover have "?states2 = settled (case c of None \<Rightarrow> Agg_top | Some x \<Rightarrow> Agg_emit x) states1"
    using aggregate_commit_index a by (auto split: option.split)
  ultimately show ?thesis unfolding collected_def by blast
qed

lemma aggregator_step_flow:
  assumes "flow cfg P n0 V S B C R s" "aggregator_step cfg s = Some s'"
  shows "\<exists>B' C'. flow cfg P n0 V S B' C' R s'"
proof (cases "ru_agg s")
  case Agg_top
  show ?thesis
  proof (cases "ru_cancelled s")
    case True
    then have "flow cfg P n0 V S B C R s'"
      using assms Agg_top by (auto simp: aggregator_step_def flow_def intro: collected_end)
    then show ?thesis by blast
  next
    case False
    have inv: "ring_inv (ru_laneQ s)" using assms(1) by (simp add: flow_def)
    show ?thesis
    proof (cases rule: ring_queue.deq_cases [OF inv, of zero_batch])
      case (1 b q')
      obtain c states m where agg: "aggregate_batch cfg b (ru_states s, l1_metrics (ru_l1 s)) = Some (c, states, m)"
        using assms(2) False 1 Agg_top by (auto simp: aggregator_step_def Let_def split: option.splits prod.splits)
      have col: "collected cfg (B @ [b]) (C @ (case c of None \<Rightarrow> [] | Some x \<Rightarrow> [x]))
          (case c of None \<Rightarrow> Agg_top | Some x \<Rightarrow> Agg_emit x) states"
        using collected_batch [OF _ agg] assms(1) Agg_top by (simp add: flow_def)
      have "flow cfg P n0 V S (B @ [b]) (C @ (case c of None \<Rightarrow> [] | Some x \<Rightarrow> [x])) R s'"
        using assms col agg False 1 Agg_top
        by (cases c) (auto simp: aggregator_step_def flow_def Let_def)
      then show ?thesis by blast
    next
      case (2 z)
      then show ?thesis
        using assms False Agg_top by (auto simp: aggregator_step_def flow_def)
    qed
  qed
next
  case Agg_check
  then have "flow cfg P n0 V S B C R s'"
    using assms by (auto simp: aggregator_step_def flow_def split: if_splits intro: collected_end)
  then show ?thesis by blast
next
  case (Agg_emit c)
  have inv: "ring_inv (ru_commitQ s)" using assms(1) by (simp add: flow_def)
  have "flow cfg P n0 V S B C R s'"
  proof (cases rule: ring_queue.enq_cases [OF inv, of c])
    case (1 q')
    then show ?thesis
      using assms Agg_emit by (auto simp: aggregator_step_def flow_def Let_def intro: collected_emitted)
  next
    case 2
    then show ?thesis
      using assms Agg_emit flows_lose [of _ C "R @ ring_list (ru_commitQ s)" "[c]"]
      by (auto simp: aggregator_step_def flow_def Let_def split: if_splits intro: collected_end)
  qed
  then show ?thesis by blast
qed (use assms in \<open>simp add: aggregator_step_def\<close>)

lemma replayer_step_flow:
  assumes "flow cfg P n0 V S B C R s" "replayer_step cfg now s = Some s'"
  shows "\<exists>R'. flow cfg P n0 V S B C R' s'"
proof (cases "ru_rep s = Rep_top \<and> \<not> ru_cancelled s")
  case True
  have inv: "ring_inv (ru_commitQ s)" using assms(1) by (simp add: flow_def)
  show ?thesis
  proof (cases rule: ring_queue.deq_cases [OF inv, of zero_commit])
    case (1 c q')
    obtain req book where rr: "replay_request cfg c (ru_book s) = (req, book)" by (cases "replay_request cfg c (ru_book s)")
    have req: "req = commit_request cfg V c" "book_view book = V"
      using replay_request_eq [of cfg c "ru_book s"] replay_request_book [of cfg c "ru_book s"] rr assms(1)
      by (simp_all add: flow_def)
    have "certified cfg V n0 (R @ [c]) (snd (SubmitCertifiedBlock now req (ru_l1 s)))"
      unfolding req using assms(1) by (intro certified_snoc) (simp add: flow_def)
    then have "flow cfg P n0 V S B C (R @ [c]) s'"
      using assms True 1 rr req by (auto simp: replayer_step_def flow_def Let_def)
    then show ?thesis by blast
  next
    case (2 z)
    then show ?thesis using assms True by (auto simp: replayer_step_def flow_def Let_def)
  qed
next
  case False
  then show ?thesis
    using assms by (auto simp: replayer_step_def flow_def split: replayer_pc.splits if_splits)
qed

lemma run_step_flow:
  assumes "flow cfg P n0 V S B C R s" "run_step cfg a s = Some s'"
  shows "\<exists>S B C R. flow cfg P n0 V S B C R s'"
proof (cases a)
  case A_ingress
  then show ?thesis using assms ingress_step_flow by (metis run_step.simps(1))
next
  case A_sequencer
  then show ?thesis using assms sequencer_step_flow by (metis run_step.simps(2))
next
  case A_aggregator
  then show ?thesis using assms aggregator_step_flow by (metis run_step.simps(3))
next
  case (A_replayer now)
  then show ?thesis using assms replayer_step_flow by (metis run_step.simps(4))
next
  case A_cancel
  then have "flow cfg P n0 V S B C R s'" using assms by (auto simp: flow_def intro: flows_cancel)
  then show ?thesis by blast
qed

lemma reach_flow:
  "reach cfg s0 s \<Longrightarrow> flow cfg P n0 V [] [] [] [] s0 \<Longrightarrow> \<exists>S B C R. flow cfg P n0 V S B C R s"
proof (induction rule: reach.induct)
  case (step s a s')
  then show ?case using run_step_flow by blast
qed blast

section \<open>Every interleaving certifies a prefix of the plan\<close>

lemma flow_prefix:
  assumes "flow cfg P n0 V S B C R s" "good_lanes cfg" "list_all (good_job cfg) P"
  shows "\<exists>k \<le> length P. R = map (job_commit cfg) (take k P)
    \<and> (\<not> ru_cancelled s \<longrightarrow> ru_todo s = [] \<longrightarrow> ring_list (ru_ingressQ s) = [] \<longrightarrow> emit_batches (ru_seq s) = []
       \<longrightarrow> ring_list (ru_laneQ s) = [] \<longrightarrow> emit_commits (ru_agg s) = [] \<longrightarrow> ring_list (ru_commitQ s) = []
       \<longrightarrow> k = length P)"
proof -
  obtain T where T: "P = S @ T" "S = [] \<or> S \<noteq> []" using assms(1) by (auto simp: flow_def flows_def)
  have "list_all (good_job cfg) S" using assms(3) T(1) by simp
  then have full: "\<exists>m'. collect_batches cfg (concat (map (lane_batches cfg) S)) ([], m)
      = Some (map (job_commit cfg) S, [], m')" for m
    using collect_jobs [OF assms(2)] by blast
  obtain X where X: "concat (map (lane_batches cfg) S) = B @ X" using assms(1) by (auto simp: flow_def flows_def)
  obtain st m m' where col: "collect_batches cfg B ([], m) = Some (C, st, m')"
    using assms(1) by (auto simp: flow_def collected_def)
  obtain D where D: "map (job_commit cfg) S = C @ D"
    using full [of m] col by (auto simp: X collect_batches_append split: option.splits prod.splits) metis
  obtain Y where Y: "C = R @ Y" using assms(1) by (auto simp: flow_def flows_def)
  have RP: "map (job_commit cfg) P = R @ Y @ D @ map (job_commit cfg) T"
    by (simp add: T(1) D Y)
  then have R: "R = map (job_commit cfg) (take (length R) P)"
    by (metis append_eq_conv_conj take_map)
  have len: "length R \<le> length P" using RP by (metis le_add1 length_append length_map)
  have "length R = length P" if "\<not> ru_cancelled s" "ru_todo s = []" "ring_list (ru_ingressQ s) = []"
    "emit_batches (ru_seq s) = []" "ring_list (ru_laneQ s) = []" "emit_commits (ru_agg s) = []"
    "ring_list (ru_commitQ s) = []"
  proof -
    have "P = S" "concat (map (lane_batches cfg) S) = B" "C = R"
      using assms(1) that by (simp_all add: flow_def)
    then have "R = map (job_commit cfg) P" using full [of m] col by auto
    then show ?thesis by simp
  qed
  then show ?thesis using R len by blast
qed

lemma NewRunner_fields:
  assumes "NewRunner Stat Open Unmarshal cfg = Inr s0"
  shows "ring_inv (ru_ingressQ s0)" "ring_inv (ru_laneQ s0)" "ring_inv (ru_commitQ s0)"
    "ring_list (ru_ingressQ s0) = []" "ring_list (ru_laneQ s0) = []" "ring_list (ru_commitQ s0) = []"
    "ru_cancelled s0 = False" "ru_ing s0 = Ing_top" "ru_seq s0 = Seq_top" "ru_agg s0 = Agg_top"
    "ru_rep s0 = Rep_top" "ru_states s0 = []" "ru_l1 s0 = NewL1CertNode (cfg_ProofSeed cfg) NewRegistry"
    "ru_ingressDone s0 = False" "ru_sequencerDone s0 = False" "ru_aggregatorDone s0 = False"
  using assms NewRing_inv [of zero_job "cfg_QueueCapacity cfg"] NewRing_inv [of zero_batch "cfg_QueueCapacity cfg"]
    NewRing_inv [of zero_commit "cfg_QueueCapacity cfg"]
  by (auto simp: NewRunner_def Let_def split: sum.splits prod.splits option.splits)

lemma flow_start:
  assumes "NewRunner Stat Open Unmarshal cfg = Inr s0"
  shows "flow cfg (map fst jobs) (ru_l1 s0) (book_view (ru_book s0)) [] [] [] [] (s0\<lparr> ru_todo := jobs \<rparr>)"
  using NewRunner_fields [OF assms]
  by (auto simp: flow_def collected_def settled_def certified_def)

text \<open>The submissions a plan leads to, at given times.\<close>

definition plan_requests ::
    "Config \<Rightarrow> (u32 \<Rightarrow> byte list) \<Rightarrow> time list \<Rightarrow> BlockJob list \<Rightarrow> (time \<times> SubmitRequest) list" where
  "plan_requests cfg V ts jobs = zip ts (map (commit_request cfg V \<circ> job_commit cfg) jobs)"

text \<open>C10. Whatever the interleaving of the four threads, and even if the run is cancelled, the L1 node (its metrics apart)
  has at every moment seen exactly the blocks of a prefix of the ingress plan, in order and each once: no block
  is lost between others, duplicated, reordered or mixed with another.\<close>

theorem runner_certifies_prefix:
  assumes "NewRunner Stat Open Unmarshal cfg = Inr s0" "reach cfg (s0\<lparr> ru_todo := jobs \<rparr>) s"
    and "good_lanes cfg" "list_all (good_job cfg) (map fst jobs)"
  shows "\<exists>k ts. k \<le> length jobs \<and> length ts = k
    \<and> sans_metrics (ru_l1 s) = sans_metrics (snd (submit_all
        (plan_requests cfg (book_view (ru_book s0)) ts (take k (map fst jobs)))
        (NewL1CertNode (cfg_ProofSeed cfg) NewRegistry)))"
proof -
  obtain S B C R where f: "flow cfg (map fst jobs) (ru_l1 s0) (book_view (ru_book s0)) S B C R s"
    using reach_flow [OF assms(2) flow_start [OF assms(1)]] by blast
  obtain k where k: "k \<le> length jobs" "R = map (job_commit cfg) (take k (map fst jobs))"
    using flow_prefix [OF f assms(3,4)] by auto
  obtain ts where ts: "length ts = length R"
    "sans_metrics (ru_l1 s) = sans_metrics (snd (submit_all
        (zip ts (map (commit_request cfg (book_view (ru_book s0))) R)) (ru_l1 s0)))"
    using f by (auto simp: flow_def certified_def)
  have "length ts = k" using ts(1) k by simp
  moreover have "map (commit_request cfg (book_view (ru_book s0))) R
      = map (commit_request cfg (book_view (ru_book s0)) \<circ> job_commit cfg) (take k (map fst jobs))"
    by (simp add: k(2))
  ultimately show ?thesis
    using ts(2) k(1) NewRunner_fields(13) [OF assms(1)] by (auto simp: plan_requests_def)
qed

lemma smoke_runner:
  obtains s0 where "NewRunner (\<lambda>_. False) Open Unmarshal (smoke_config b t) = Inr s0"
    "ru_book s0 = NewProofBook (cfg_ProofSeed (smoke_config b t))"
proof -
  obtain q1 q2 q3 where "NewRing zero_job 2048 = Inr q1" "NewRing zero_batch 2048 = Inr q2"
    "NewRing zero_commit 2048 = Inr q3"
    by (simp add: NewRing_def)
  then have "\<exists>s0. NewRunner (\<lambda>_. False) Open Unmarshal (smoke_config b t) = Inr s0
      \<and> ru_book s0 = NewProofBook (cfg_ProofSeed (smoke_config b t))"
    by (simp add: NewRunner_def Let_def)
  then show ?thesis using that by blast
qed

theorem runner_certifies_prefix_witness:
  "\<exists>s0 k ts. NewRunner (\<lambda>_. False) (\<lambda>_. Inl []) (\<lambda>_. Inl []) (smoke_config 200 5000) = Inr s0
    \<and> k \<le> 1 \<and> length ts = k
    \<and> sans_metrics (ru_l1 s0) = sans_metrics (snd (submit_all
        (plan_requests (smoke_config 200 5000) (book_view (ru_book s0)) ts (take k [zero_job]))
        (NewL1CertNode (cfg_ProofSeed (smoke_config 200 5000)) NewRegistry)))"
proof -
  obtain s0 where s0: "NewRunner (\<lambda>_. False) (\<lambda>_. Inl []) (\<lambda>_. Inl []) (smoke_config 200 5000) = Inr s0"
    by (rule smoke_runner)
  have "good_lanes (smoke_config 200 5000)" "list_all (good_job (smoke_config 200 5000)) (map fst [(zero_job, 0 :: int)])"
    by (simp_all add: good_lanes_def good_job_def zero_job_def)
  then show ?thesis
    using runner_certifies_prefix [OF s0 reach.start, of "[(zero_job, 0)]"] s0 by auto
qed

section \<open>A run that drains its queues certifies the whole plan\<close>

definition queues_drained :: "RunState \<Rightarrow> bool" where
  "queues_drained s \<longleftrightarrow>
     ring_list (ru_ingressQ s) = [] \<and> ring_list (ru_laneQ s) = [] \<and> ring_list (ru_commitQ s) = []"

text \<open>An ended ingress loop has nothing left to enqueue.\<close>

lemma ing_end_todo: "reach cfg s0 s \<Longrightarrow> ru_ing s0 \<noteq> Ing_end \<Longrightarrow> ru_ing s = Ing_end \<longrightarrow> ru_todo s = []"
proof (induction rule: reach.induct)
  case (step s a s')
  have "ru_todo s' = ru_todo s \<and> ru_ing s' = ru_ing s" if "a \<noteq> A_ingress"
    using step.hyps(2) that
    by (cases a) (auto simp: sequencer_step_def aggregator_step_def replayer_step_def Let_def
        split: sequencer_pc.splits aggregator_pc.splits replayer_pc.splits option.splits prod.splits
          list.splits if_splits)
  moreover have "ru_ing s' = Ing_end \<longrightarrow> ru_todo s' = []" if "a = A_ingress"
    using step.hyps(2) that
    by (auto simp: ingress_step_def ingress_enqueue_def Let_def
        split: ingress_pc.splits option.splits prod.splits list.splits if_splits)
  ultimately show ?case using step.IH step.prems by (cases "a = A_ingress") simp_all
qed simp

lemma sans_metrics_eqD:
  assumes "sans_metrics n = sans_metrics n'"
  shows "l1_state n = l1_state n'" "l1_blocks n = l1_blocks n'" "l1_blockLog n = l1_blockLog n'"
    "l1_stateVersion n = l1_stateVersion n'"
  using assms by (cases n, cases n', simp add: sans_metrics_def)+

text \<open>The ledger of a plan, when the book holds the node's proofs and no block number repeats.\<close>

definition plan_ledger :: "Config \<Rightarrow> BlockJob list \<Rightarrow> ledger" where
  "plan_ledger cfg jobs = map (\<lambda>j. (bj_BlockIndex j, bc_Txs (job_commit cfg j)))
     (filter (\<lambda>j. \<not> bad_block cfg (bj_BlockIndex j)) jobs)"

lemma plan_accepts:
  assumes "\<And>b. book_view book b = GenerateProofBytes seed b"
  shows "l1_accepts seed (commit_request cfg (book_view book) (job_commit cfg job))
    \<longleftrightarrow> \<not> bad_block cfg (bj_BlockIndex job)"
  using replay_accepts [of book job seed cfg] assms by (simp add: replay_request_eq)

lemma ledger_of_plan:
  assumes "\<And>b. book_view book b = GenerateProofBytes seed b"
    and "distinct (map bj_BlockIndex jobs)" "length ts = length jobs"
  shows "ledger_of seed (plan_requests cfg (book_view book) ts jobs) = plan_ledger cfg jobs"
proof -
  have "fst ` set L \<inter> bj_BlockIndex ` set jobs = {} \<Longrightarrow> distinct (map bj_BlockIndex jobs)
      \<Longrightarrow> length ts = length jobs
      \<Longrightarrow> fold (\<lambda>(now, req). ledger_step seed req) (plan_requests cfg (book_view book) ts jobs) L
        = L @ plan_ledger cfg jobs" for L
  proof (induction jobs arbitrary: L ts)
    case Nil
    then show ?case by (simp add: plan_requests_def plan_ledger_def)
  next
    case (Cons j jobs)
    obtain t ts' where ts: "ts = t # ts'" "length ts' = length jobs"
      using Cons.prems(3) by (cases ts) simp_all
    let ?r = "commit_request cfg (book_view book) (job_commit cfg j)"
    have r: "rq_BlockIndex ?r = bj_BlockIndex j" "rq_Txs ?r = bc_Txs (job_commit cfg j)"
      by (simp_all add: commit_request_def)
    have step: "ledger_step seed ?r L
        = L @ (if bad_block cfg (bj_BlockIndex j) then [] else [(bj_BlockIndex j, bc_Txs (job_commit cfg j))])"
      using Cons.prems(1) by (auto simp: ledger_step_def plan_accepts [OF assms(1)] r)
    have req: "plan_requests cfg (book_view book) ts (j # jobs)
        = (t, ?r) # plan_requests cfg (book_view book) ts' jobs"
      by (simp add: plan_requests_def ts(1))
    have "fst ` set (ledger_step seed ?r L) \<inter> bj_BlockIndex ` set jobs = {}"
      using Cons.prems(1,2) by (auto simp: step)
    from Cons.IH [OF this _ ts(2)] Cons.prems(2) show ?case
      by (simp add: req step plan_ledger_def)
  qed
  from this [of "[]"] assms(2,3) show ?thesis by (simp add: ledger_of_def)
qed

text \<open>C11. A run that is not cancelled and ends with empty queues has certified the whole plan: every block but the one
  chosen for the injected bad proof, and every account's balance is the net flow of these blocks' valid transfers.\<close>

theorem drained_run_certifies_plan:
  assumes "NewRunner Stat Open Unmarshal cfg = Inr s0" "reach cfg (s0\<lparr> ru_todo := jobs \<rparr>) s"
    and "good_lanes cfg" "list_all (good_job cfg) (map fst jobs)" "distinct (map bj_BlockIndex (map fst jobs))"
    and "\<And>b. book_view (ru_book s0) b = GenerateProofBytes (cfg_ProofSeed cfg) b"
    and "run_ended s" "queues_drained s" "\<not> ru_cancelled s"
  shows "l1_blocks (ru_l1 s) = ledger_blocks (plan_ledger cfg (map fst jobs))
    \<and> Balance i (ru_l1 s) = sum_list (map (\<lambda>j. net_flow (filter isPayloadValid (bj_Txs j)) i)
        (filter (\<lambda>j. \<not> bad_block cfg (bj_BlockIndex j)) (map fst jobs)))"
proof -
  let ?P = "map fst jobs" and ?V = "book_view (ru_book s0)"
  obtain S B C R where f: "flow cfg ?P (ru_l1 s0) ?V S B C R s"
    using reach_flow [OF assms(2) flow_start [OF assms(1)]] by blast
  have "ru_todo s = []"
    using ing_end_todo [OF assms(2)] assms(7) NewRunner_fields(8) [OF assms(1)] by (simp add: run_ended_def)
  then have R: "R = map (job_commit cfg) ?P"
    using flow_prefix [OF f assms(3,4)] assms(7-9) by (auto simp: run_ended_def queues_drained_def)
  obtain ts where ts: "length ts = length ?P"
    "sans_metrics (ru_l1 s) = sans_metrics (snd (submit_all (plan_requests cfg ?V ts ?P) (ru_l1 s0)))"
    using f R by (auto simp: flow_def certified_def plan_requests_def comp_def)
  define n where "n = snd (submit_all (plan_requests cfg ?V ts ?P) (NewL1CertNode (cfg_ProofSeed cfg) NewRegistry))"
  have L: "l1_refines (cfg_ProofSeed cfg) NewRegistry (plan_ledger cfg ?P) n"
    using l1_refines_all [of "cfg_ProofSeed cfg" NewRegistry "plan_requests cfg ?V ts ?P"]
      ledger_of_plan [OF assms(6) assms(5) ts(1), of cfg] by (simp add: n_def)
  have eq: "sans_metrics (ru_l1 s) = sans_metrics n"
    using ts(2) NewRunner_fields(13) [OF assms(1)] by (simp add: n_def)
  have flow_eq: "net_flow (bc_Txs (job_commit cfg j)) i = net_flow (filter isPayloadValid (bj_Txs j)) i" for j
    by (rule net_flow_mset) (use assms(3) in \<open>simp add: mset_job_commit good_lanes_def\<close>)
  have "Balance i (ru_l1 s) = ledger_balance (plan_ledger cfg ?P) i"
    using L sans_metrics_eqD(1) [OF eq] by (simp add: l1_refines_def Balance_def)
  also have "\<dots> = sum_list (map (\<lambda>j. net_flow (filter isPayloadValid (bj_Txs j)) i)
        (filter (\<lambda>j. \<not> bad_block cfg (bj_BlockIndex j)) ?P))"
    by (simp add: ledger_balance_def plan_ledger_def comp_def flow_eq)
  finally show ?thesis using L sans_metrics_eqD(2) [OF eq] by (simp add: l1_refines_def)
qed

end
