(* ===== verification/Runner_Live.thy ===== *)
theory Runner_Live imports Runner_Flow begin

text \<open>
  The runner can always finish an uncancelled plan, one block after the other, whatever the queue
  capacity: the threads never wait for each other in a circle.  On the other side, the exit tests
  of the threads admit a schedule that ends the run with a block left in a queue, and a configuration
  with more than \<open>2 ^ 16\<close> lanes never completes a block.
\<close>

section \<open>Completing a plan\<close>

lemma reach_trans: "reach cfg s1 s2 \<Longrightarrow> reach cfg s0 s1 \<Longrightarrow> reach cfg s0 s2"
  by (induction rule: reach.induct) (auto intro: reach.step)

lemma reach_step1: "run_step cfg a s = Some s' \<Longrightarrow> reach cfg s s'"
  by (rule reach.step [OF reach.start])

definition queues_ok :: "RunState \<Rightarrow> bool" where
  "queues_ok s \<longleftrightarrow> ring_inv (ru_ingressQ s) \<and> ring_inv (ru_laneQ s) \<and> ring_inv (ru_commitQ s)
     \<and> 0 < ring_capacity (ru_ingressQ s) \<and> 0 < ring_capacity (ru_laneQ s) \<and> 0 < ring_capacity (ru_commitQ s)"

text \<open>A state of an uncancelled run with the ingress loop and the replayer at the top of their loops.\<close>

definition at_work ::
    "(BlockJob \<times> int) list \<Rightarrow> BlockJob list \<Rightarrow> sequencer_pc \<Rightarrow> LaneBatch list \<Rightarrow> aggregator_pc
     \<Rightarrow> aggregates \<Rightarrow> BlockCommit list \<Rightarrow> RunState \<Rightarrow> bool" where
  "at_work todo iq sq lq ag states cq s \<longleftrightarrow>
     queues_ok s \<and> \<not> ru_cancelled s \<and> ru_ing s = Ing_top \<and> ru_rep s = Rep_top \<and> ru_todo s = todo
     \<and> ring_list (ru_ingressQ s) = iq \<and> ru_seq s = sq \<and> ring_list (ru_laneQ s) = lq
     \<and> ru_agg s = ag \<and> ru_states s = states \<and> ring_list (ru_commitQ s) = cq"

lemma enq_empty:
  assumes "ring_inv q" "ring_list q = []" "0 < ring_capacity q"
  obtains q' where "Enqueue x q = Some (True, q')" "ring_inv q'" "ring_list q' = [x]" "0 < ring_capacity q'"
  using Enqueue_room [of q x] assms by auto

lemma deq_single:
  assumes "ring_inv q" "ring_list q = [x]" "0 < ring_capacity q"
  obtains q' where "Dequeue zero q = Some ((x, True), q')" "ring_inv q'" "ring_list q' = []" "0 < ring_capacity q'"
  using Dequeue_some [of q x "[]" zero] assms by auto

lemma work_ingress:
  assumes "at_work ((j, n) # todo) [] Seq_top [] Agg_top [] [] s"
  shows "\<exists>s'. reach cfg s s' \<and> at_work todo [j] Seq_top [] Agg_top [] [] s'"
proof -
  obtain q' where "Enqueue j (ru_ingressQ s) = Some (True, q')" "ring_inv q'" "ring_list q' = [j]" "0 < ring_capacity q'"
    using enq_empty [of "ru_ingressQ s" j] assms by (auto simp: at_work_def queues_ok_def)
  then have "\<exists>s'. run_step cfg A_ingress s = Some s' \<and> at_work todo [j] Seq_top [] Agg_top [] [] s'"
    using assms by (simp add: at_work_def queues_ok_def ingress_step_def ingress_enqueue_def)
  then show ?thesis using reach_step1 by blast
qed

lemma work_take:
  assumes "at_work todo [j] Seq_top [] Agg_top [] [] s"
  shows "\<exists>s'. reach cfg s s' \<and> at_work todo [] (Seq_emit (lane_batches cfg j)) [] Agg_top [] [] s'"
proof -
  obtain q' where "Dequeue zero_job (ru_ingressQ s) = Some ((j, True), q')" "ring_inv q'" "ring_list q' = []"
    "0 < ring_capacity q'"
    using deq_single [of "ru_ingressQ s" j zero_job] assms by (auto simp: at_work_def queues_ok_def)
  then have "\<exists>s'. run_step cfg A_sequencer s = Some s'
      \<and> at_work todo [] (Seq_emit (lane_batches cfg j)) [] Agg_top [] [] s'"
    using assms by (simp add: at_work_def queues_ok_def sequencer_step_def)
  then show ?thesis using reach_step1 by blast
qed

lemma work_emit:
  assumes "at_work todo [] (Seq_emit (b # bs)) [] Agg_top states [] s"
  shows "\<exists>s'. reach cfg s s' \<and> at_work todo [] (Seq_emit bs) [b] Agg_top states [] s'"
proof -
  obtain q' where "Enqueue b (ru_laneQ s) = Some (True, q')" "ring_inv q'" "ring_list q' = [b]" "0 < ring_capacity q'"
    using enq_empty [of "ru_laneQ s" b] assms by (auto simp: at_work_def queues_ok_def)
  then have "\<exists>s'. run_step cfg A_sequencer s = Some s' \<and> at_work todo [] (Seq_emit bs) [b] Agg_top states [] s'"
    using assms by (simp add: at_work_def queues_ok_def sequencer_step_def)
  then show ?thesis using reach_step1 by blast
qed

lemma work_aggregate:
  assumes "at_work todo [] (Seq_emit bs) [b] Agg_top states [] s"
    and "aggregate_batch cfg b (states, m) = Some (c, states', m')"
  shows "\<exists>s'. reach cfg s s' \<and> at_work todo [] (Seq_emit bs) []
    (case c of None \<Rightarrow> Agg_top | Some x \<Rightarrow> Agg_emit x) states' [] s'"
proof -
  obtain q' where "Dequeue zero_batch (ru_laneQ s) = Some ((b, True), q')" "ring_inv q'" "ring_list q' = []"
    "0 < ring_capacity q'"
    using deq_single [of "ru_laneQ s" b zero_batch] assms by (auto simp: at_work_def queues_ok_def)
  moreover obtain m2 where "aggregate_batch cfg b (ru_states s, l1_metrics (ru_l1 s)) = Some (c, states', m2)"
    using aggregate_batch_metrics [OF assms(2), of "l1_metrics (ru_l1 s)"] assms(1) by (auto simp: at_work_def)
  ultimately have "\<exists>s'. run_step cfg A_aggregator s = Some s' \<and> at_work todo [] (Seq_emit bs) []
      (case c of None \<Rightarrow> Agg_top | Some x \<Rightarrow> Agg_emit x) states' [] s'"
    using assms(1) by (cases c) (simp_all add: at_work_def queues_ok_def aggregator_step_def)
  then show ?thesis using reach_step1 by blast
qed

lemma work_commit:
  assumes "at_work todo [] (Seq_emit bs) [] (Agg_emit c) states [] s"
  shows "\<exists>s'. reach cfg s s'
    \<and> at_work todo [] (Seq_emit bs) [] Agg_top (AList.delete (bc_BlockIndex c) states) [] s'"
proof -
  let ?states = "AList.delete (bc_BlockIndex c) states"
  obtain q' where "Enqueue c (ru_commitQ s) = Some (True, q')" "ring_inv q'" "ring_list q' = [c]" "0 < ring_capacity q'"
    using enq_empty [of "ru_commitQ s" c] assms by (auto simp: at_work_def queues_ok_def)
  then have "\<exists>s'. run_step cfg A_aggregator s = Some s' \<and> at_work todo [] (Seq_emit bs) [] Agg_top ?states [c] s'"
    using assms by (simp add: at_work_def queues_ok_def aggregator_step_def)
  then obtain s1 where s1: "reach cfg s s1" "at_work todo [] (Seq_emit bs) [] Agg_top ?states [c] s1"
    using reach_step1 by blast
  obtain q' where "Dequeue zero_commit (ru_commitQ s1) = Some ((c, True), q')" "ring_inv q'" "ring_list q' = []"
    "0 < ring_capacity q'"
    using deq_single [of "ru_commitQ s1" c zero_commit] s1(2) by (auto simp: at_work_def queues_ok_def)
  then have "\<exists>s2. run_step cfg (A_replayer 0) s1 = Some s2
      \<and> at_work todo [] (Seq_emit bs) [] Agg_top ?states [] s2"
    using s1(2) by (simp add: at_work_def queues_ok_def replayer_step_def split: prod.split)
  then show ?thesis using reach_step1 reach_trans s1(1) by blast
qed

lemma work_lanes:
  "at_work todo [] (Seq_emit bs) [] Agg_top states [] s
   \<Longrightarrow> collect_batches cfg bs (states, m) = Some (cs, states', m')
   \<Longrightarrow> \<exists>s'. reach cfg s s' \<and> at_work todo [] (Seq_emit []) [] Agg_top states' [] s'"
proof (induction bs arbitrary: s states m cs)
  case Nil
  then show ?case using reach.start by fastforce
next
  case (Cons b bs)
  obtain c st1 m1 where a: "aggregate_batch cfg b (states, m) = Some (c, st1, m1)"
    using Cons.prems(2) by (auto split: option.splits)
  let ?st = "case c of None \<Rightarrow> st1 | Some _ \<Rightarrow> AList.delete (lb_BlockIndex b) st1"
  have "(case collect_batches cfg bs (?st, m1) of None \<Rightarrow> None
      | Some (ds, s') \<Rightarrow> Some ((case c of None \<Rightarrow> ds | Some x \<Rightarrow> x # ds), s')) = Some (cs, states', m')"
    using Cons.prems(2) a by simp
  then obtain cs' where rest: "collect_batches cfg bs (?st, m1) = Some (cs', states', m')"
    by (cases "collect_batches cfg bs (?st, m1)") auto
  obtain s1 where s1: "reach cfg s s1" "at_work todo [] (Seq_emit bs) [b] Agg_top states [] s1"
    using work_emit [OF Cons.prems(1)] by blast
  obtain s2 where s2: "reach cfg s1 s2"
    "at_work todo [] (Seq_emit bs) [] (case c of None \<Rightarrow> Agg_top | Some x \<Rightarrow> Agg_emit x) st1 [] s2"
    using work_aggregate [OF s1(2) a] by blast
  obtain s3 where s3: "reach cfg s2 s3" "at_work todo [] (Seq_emit bs) [] Agg_top ?st [] s3"
  proof (cases c)
    case None
    then show ?thesis using that [of s2] s2(2) reach.start by simp
  next
    case (Some x)
    then have emit: "at_work todo [] (Seq_emit bs) [] (Agg_emit x) st1 [] s2" using s2(2) by simp
    have "bc_BlockIndex x = lb_BlockIndex b" using aggregate_commit_index a Some by blast
    then have "?st = AList.delete (bc_BlockIndex x) st1" using Some by simp
    then show ?thesis using that work_commit [OF emit, of cfg] by metis
  qed
  obtain s4 where "reach cfg s3 s4" "at_work todo [] (Seq_emit []) [] Agg_top states' [] s4"
    using Cons.IH [OF s3(2) rest] by blast
  then show ?case using s1(1) s2(1) s3(1) reach_trans by meson
qed

lemma work_job:
  assumes "at_work ((j, n) # todo) [] Seq_top [] Agg_top [] [] s" "good_lanes cfg" "good_job cfg j"
  shows "\<exists>s'. reach cfg s s' \<and> at_work todo [] Seq_top [] Agg_top [] [] s'"
proof -
  obtain s1 where s1: "reach cfg s s1" "at_work todo [j] Seq_top [] Agg_top [] [] s1"
    using work_ingress [OF assms(1)] by blast
  obtain s2 where s2: "reach cfg s1 s2" "at_work todo [] (Seq_emit (lane_batches cfg j)) [] Agg_top [] [] s2"
    using work_take [OF s1(2)] by blast
  have "collect_batches cfg (lane_batches cfg j) ([], NewRegistry)
      = Some ([job_commit cfg j], [], IncDrop (of_nat (invalid_count (bj_Txs j))) NewRegistry)"
    using aggregate_job [of cfg j "[]" NewRegistry] assms(2,3) by (simp add: good_lanes_def good_job_def)
  then obtain s3 where s3: "reach cfg s2 s3" "at_work todo [] (Seq_emit []) [] Agg_top [] [] s3"
    using work_lanes [OF s2(2)] by blast
  then have "\<exists>s4. run_step cfg A_sequencer s3 = Some s4 \<and> at_work todo [] Seq_top [] Agg_top [] [] s4"
    by (simp add: at_work_def queues_ok_def sequencer_step_def)
  then show ?thesis using s1(1) s2(1) s3(1) reach_step1 reach_trans by meson
qed

lemma work_plan:
  "at_work todo [] Seq_top [] Agg_top [] [] s \<Longrightarrow> good_lanes cfg \<Longrightarrow> list_all (good_job cfg) (map fst todo)
   \<Longrightarrow> \<exists>s'. reach cfg s s' \<and> at_work [] [] Seq_top [] Agg_top [] [] s'"
proof (induction todo arbitrary: s)
  case Nil
  then show ?case using reach.start by blast
next
  case (Cons jn todo)
  obtain j n where jn: "jn = (j, n)" by (cases jn)
  obtain s1 where s1: "reach cfg s s1" "at_work todo [] Seq_top [] Agg_top [] [] s1"
    using work_job [of j n todo s cfg] Cons.prems by (auto simp: jn)
  have "list_all (good_job cfg) (map fst todo)" using Cons.prems(3) by simp
  then show ?case using Cons.IH [OF s1(2) Cons.prems(2)] s1(1) reach_trans by blast
qed

lemma reach_schedule: "run_schedule cfg as s = Some s' \<Longrightarrow> reach cfg s s'"
proof (induction as arbitrary: s)
  case Nil
  then show ?case by (simp add: reach.start)
next
  case (Cons a as)
  then obtain s1 where "run_step cfg a s = Some s1" "run_schedule cfg as s1 = Some s'"
    by (auto split: option.splits)
  then show ?case using Cons.IH reach_step1 reach_trans by blast
qed

lemma deq_none:
  assumes "ring_inv q" "ring_list q = []"
  obtains z where "Dequeue zero q = Some ((z, False), q)"
  using Dequeue_empty [of q zero] assms by auto

text \<open>The last round: every thread finds its queue empty and its predecessor done.\<close>

lemma work_end:
  assumes "at_work [] [] Seq_top [] Agg_top [] [] s"
  shows "\<exists>s'. reach cfg s s' \<and> run_ended s' \<and> queues_drained s' \<and> \<not> ru_cancelled s'"
proof -
  obtain z1 z2 z3 where "Dequeue zero_job (ru_ingressQ s) = Some ((z1, False), ru_ingressQ s)"
    "Dequeue zero_batch (ru_laneQ s) = Some ((z2, False), ru_laneQ s)"
    "Dequeue zero_commit (ru_commitQ s) = Some ((z3, False), ru_commitQ s)"
    using deq_none [of "ru_ingressQ s" zero_job] deq_none [of "ru_laneQ s" zero_batch]
      deq_none [of "ru_commitQ s" zero_commit] assms unfolding at_work_def queues_ok_def by metis
  then have "\<exists>s'. run_schedule cfg
      [A_ingress, A_sequencer, A_sequencer, A_aggregator, A_aggregator, A_replayer 0, A_replayer 0] s = Some s'
      \<and> run_ended s' \<and> queues_drained s' \<and> \<not> ru_cancelled s'"
    using assms by (simp add: at_work_def ingress_step_def sequencer_step_def aggregator_step_def
        replayer_step_def run_ended_def queues_drained_def)
  then show ?thesis using reach_schedule by blast
qed

lemma ring_inv_capacity: "ring_inv q \<Longrightarrow> 0 < ring_capacity q"
  by (auto simp: ring_inv_def ring_view_def ring_capacity_def)

lemma NewRunner_queues_ok: "NewRunner Stat Open Unmarshal cfg = Inr s0 \<Longrightarrow> queues_ok s0"
  using NewRunner_fields by (simp add: queues_ok_def ring_inv_capacity)

lemma start_at_work:
  assumes "NewRunner Stat Open Unmarshal cfg = Inr s0"
  shows "at_work jobs [] Seq_top [] Agg_top [] [] (s0\<lparr> ru_todo := jobs \<rparr>)"
  using NewRunner_fields [OF assms] NewRunner_queues_ok [OF assms]
  by (simp add: at_work_def queues_ok_def)

lemma run_can_complete_state:
  assumes "NewRunner Stat Open Unmarshal cfg = Inr s0"
    and "good_lanes cfg" "list_all (good_job cfg) (map fst jobs)"
  obtains s where "reach cfg (s0\<lparr> ru_todo := jobs \<rparr>) s" "run_ended s" "queues_drained s" "\<not> ru_cancelled s"
proof -
  obtain s1 where s1: "reach cfg (s0\<lparr> ru_todo := jobs \<rparr>) s1" "at_work [] [] Seq_top [] Agg_top [] [] s1"
    using work_plan [OF start_at_work [OF assms(1)] assms(2,3)] by blast
  then show ?thesis using work_end [OF s1(2), of cfg] reach_trans that by blast
qed



theorem drained_run_certifies_plan_witness:
  "\<exists>s0 s. NewRunner (\<lambda>_. False) (\<lambda>_. Inl []) (\<lambda>_. Inl []) (smoke_config 200 5000) = Inr s0
    \<and> reach (smoke_config 200 5000) (s0\<lparr> ru_todo := [(zero_job, 0)] \<rparr>) s
    \<and> l1_blocks (ru_l1 s) = ledger_blocks (plan_ledger (smoke_config 200 5000) [zero_job])"
proof -
  let ?cfg = "smoke_config 200 5000"
  obtain s0 where s0: "NewRunner (\<lambda>_. False) (\<lambda>_. Inl []) (\<lambda>_. Inl []) ?cfg = Inr s0"
    "ru_book s0 = NewProofBook (cfg_ProofSeed ?cfg)"
    by (rule smoke_runner)
  have good: "good_lanes ?cfg" "list_all (good_job ?cfg) (map fst [(zero_job, 0 :: int)])"
    by (simp_all add: good_lanes_def good_job_def zero_job_def)
  obtain s where s: "reach ?cfg (s0\<lparr> ru_todo := [(zero_job, 0)] \<rparr>) s" "run_ended s" "queues_drained s"
    "\<not> ru_cancelled s"
    by (rule run_can_complete_state [OF s0(1) good])
  show ?thesis
    using drained_run_certifies_plan [OF s0(1) s(1) good _ _ s(2-4)] s0 s(1) by auto
qed

section \<open>A run can end with a block left behind\<close>

text \<open>The exit tests are not atomic: a thread that finds its queue empty reads the flag of its predecessor afterwards.
  When the predecessor queues its last job and finishes in between, the job is never taken. In the schedule below
  nothing is cancelled, all threads end and the run reports, but the only block is still in the ingress queue and
  the L1 node has seen nothing.\<close>

theorem runner_exit_race:
  "\<exists>s0 s. NewRunner (\<lambda>_. False) (\<lambda>_. Inl []) (\<lambda>_. Inl []) (smoke_config blockTime tps) = Inr s0
    \<and> run_schedule (smoke_config blockTime tps)
        [A_sequencer, A_ingress, A_ingress, A_sequencer, A_aggregator, A_aggregator, A_replayer now, A_replayer now]
        (s0\<lparr> ru_todo := [(job, txCount)] \<rparr>) = Some s
    \<and> run_ended s \<and> \<not> ru_cancelled s \<and> ring_list (ru_ingressQ s) = [job] \<and> l1_blockLog (ru_l1 s) = []"
proof -
  let ?cfg = "smoke_config blockTime tps"
  obtain s0 where s0: "NewRunner (\<lambda>_. False) (\<lambda>_. Inl []) (\<lambda>_. Inl []) ?cfg = Inr s0"
    by (rule smoke_runner)
  note f = NewRunner_fields [OF s0] NewRunner_queues_ok [OF s0, unfolded queues_ok_def]
  obtain z1 z2 z3 where d: "Dequeue zero_job (ru_ingressQ s0) = Some ((z1, False), ru_ingressQ s0)"
    "Dequeue zero_batch (ru_laneQ s0) = Some ((z2, False), ru_laneQ s0)"
    "Dequeue zero_commit (ru_commitQ s0) = Some ((z3, False), ru_commitQ s0)"
    using deq_none [of "ru_ingressQ s0" zero_job] deq_none [of "ru_laneQ s0" zero_batch]
      deq_none [of "ru_commitQ s0" zero_commit] f by metis
  obtain q' where q': "Enqueue job (ru_ingressQ s0) = Some (True, q')" "ring_list q' = [job]"
    using enq_empty [of "ru_ingressQ s0" job] f by metis
  have log0: "l1_blockLog (ru_l1 s0) = []" using f by (simp add: NewL1CertNode_def)
  show ?thesis
    using s0 f d q' log0
    by (simp add: ingress_step_def ingress_enqueue_def sequencer_step_def aggregator_step_def
        replayer_step_def run_ended_def updateQueueDepth_def)
qed

section \<open>Too many lanes\<close>

definition lanes_ok :: "aggregates \<Rightarrow> bool" where
  "lanes_ok states \<longleftrightarrow> (\<forall>(b, st) \<in> set states. go_map_ok (as_laneHashes st))"

lemma u16_keys: "go_map_ok (m :: (u16, 'v) go_map) \<Longrightarrow> length m \<le> 2 ^ 16"
proof -
  assume "go_map_ok m"
  then have "length m = card (fst ` set m)" by (simp add: go_map_ok_def distinct_card flip: set_map)
  also have "\<dots> \<le> card (UNIV :: u16 set)" by (rule card_mono) simp_all
  also have "\<dots> = 2 ^ 16" by (simp add: card_word)
  finally show ?thesis .
qed

lemma lanes_ok_update: "lanes_ok states \<Longrightarrow> go_map_ok (as_laneHashes st) \<Longrightarrow> lanes_ok (AList.update b st states)"
  unfolding lanes_ok_def using update_keys by (induction states) (auto split: if_splits)

lemma aggregate_too_many:
  assumes "2 ^ 16 < cfg_Lanes cfg" "lanes_ok states" "aggregate_batch cfg b (states, m) = Some (c, states', m')"
  shows "c = None \<and> lanes_ok states'"
proof -
  define st where "st = (case map_of states (lb_BlockIndex b) of Some st \<Rightarrow> st | None \<Rightarrow> new_aggregate b)"
  have ok: "go_map_ok (as_laneHashes st)"
    using assms(2) by (auto simp: st_def new_aggregate_def lanes_ok_def split: option.split dest!: map_of_SomeD)
  then have ok': "go_map_ok (AList.update (lb_LaneID b) h (as_laneHashes st))" for h by simp
  have "int (length (AList.update (lb_LaneID b) h (as_laneHashes st))) \<noteq> cfg_Lanes cfg" for h
    using u16_keys [OF ok' [of h]] assms(1) by simp
  then show ?thesis
    using assms(2,3) ok' lanes_ok_update
    by (auto simp: aggregate_batch_def collect_txs_eq Let_def st_def [symmetric] split: sum.splits)
qed

definition silent :: "RunState \<Rightarrow> bool" where
  "silent s \<longleftrightarrow> lanes_ok (ru_states s) \<and> (\<forall>c. ru_agg s \<noteq> Agg_emit c) \<and> ring_inv (ru_commitQ s)
     \<and> ring_list (ru_commitQ s) = [] \<and> l1_blockLog (ru_l1 s) = []"

lemma silent_other:
  assumes "silent s" "ru_states s' = ru_states s" "ru_agg s' = ru_agg s" "ru_commitQ s' = ru_commitQ s"
    "sans_metrics (ru_l1 s') = sans_metrics (ru_l1 s)"
  shows "silent s'"
  using assms sans_metrics_eqD(3) [OF assms(5)] by (simp add: silent_def)

lemma silent_ingress: "silent s \<Longrightarrow> ingress_step s = Some s' \<Longrightarrow> silent s'"
  by (rule silent_other [of s])
    (auto simp: ingress_step_def ingress_enqueue_def Let_def
      split: ingress_pc.splits option.splits prod.splits list.splits if_splits)

lemma silent_sequencer: "silent s \<Longrightarrow> sequencer_step cfg s = Some s' \<Longrightarrow> silent s'"
  by (rule silent_other [of s])
    (auto simp: sequencer_step_def Let_def
      split: sequencer_pc.splits option.splits prod.splits list.splits if_splits)

lemma silent_aggregator:
  assumes "2 ^ 16 < cfg_Lanes cfg" "silent s" "aggregator_step cfg s = Some s'"
  shows "silent s'"
proof (cases "ru_agg s = Agg_top \<and> \<not> ru_cancelled s")
  case True
  obtain b ok q where d: "Dequeue zero_batch (ru_laneQ s) = Some ((b, ok), q)"
    using assms(3) True by (auto simp: aggregator_step_def split: option.splits)
  show ?thesis
  proof (cases ok)
    case False
    then show ?thesis using assms(2,3) True d by (auto simp: aggregator_step_def silent_def Let_def)
  next
    case True': True
    obtain c states m where a: "aggregate_batch cfg b (ru_states s, l1_metrics (ru_l1 s)) = Some (c, states, m)"
      using assms(3) True True' d by (auto simp: aggregator_step_def Let_def split: option.splits)
    then have "c = None" "lanes_ok states"
      using aggregate_too_many [OF assms(1) _ a] assms(2) by (simp_all add: silent_def)
    then show ?thesis
      using assms(2,3) True True' d a
      by (auto simp: aggregator_step_def silent_def Let_def updateQueueDepth_def)
  qed
next
  case False
  then show ?thesis
    using assms(2,3) by (auto simp: aggregator_step_def silent_def split: aggregator_pc.splits if_splits)
qed

lemma silent_replayer:
  assumes "silent s" "replayer_step cfg now s = Some s'"
  shows "silent s'"
proof -
  obtain z where "Dequeue zero_commit (ru_commitQ s) = Some ((z, False), ru_commitQ s)"
    by (rule deq_none [of "ru_commitQ s" zero_commit]) (use assms(1) in \<open>simp_all add: silent_def\<close>)
  then have "ru_states s' = ru_states s \<and> ru_agg s' = ru_agg s \<and> ru_commitQ s' = ru_commitQ s \<and> ru_l1 s' = ru_l1 s"
    using assms(2) by (cases "ru_rep s") (auto simp: replayer_step_def split: if_splits)
  then show ?thesis using silent_other [OF assms(1), of s'] by simp
qed

lemma silent_step:
  assumes "2 ^ 16 < cfg_Lanes cfg" "silent s" "run_step cfg a s = Some s'"
  shows "silent s'"
proof (cases a)
  case A_ingress
  then show ?thesis using assms(3) silent_ingress [OF assms(2)] by simp
next
  case A_sequencer
  then show ?thesis using assms(3) silent_sequencer [OF assms(2)] by simp
next
  case A_aggregator
  then show ?thesis using assms(3) silent_aggregator [OF assms(1,2)] by simp
next
  case (A_replayer now)
  then show ?thesis using assms(3) silent_replayer [OF assms(2)] by simp
next
  case A_cancel
  then show ?thesis using assms(2,3) by (auto simp: silent_def)
qed

text \<open>Lane numbers are 16 bits wide, which validation does not check: with more than \<open>2 ^ 16\<close> lanes no block ever has
  all its lane hashes, so in no schedule does the L1 node see a single submission.\<close>

theorem too_many_lanes_never_submit:
  assumes "2 ^ 16 < cfg_Lanes cfg" "NewRunner Stat Open Unmarshal cfg = Inr s0"
    and "reach cfg (s0\<lparr> ru_todo := jobs \<rparr>) s"
  shows "l1_blockLog (ru_l1 s) = []"
proof -
  have "silent (s0\<lparr> ru_todo := jobs \<rparr>)"
    using NewRunner_fields [OF assms(2)] by (simp add: silent_def lanes_ok_def NewL1CertNode_def)
  with assms(3) have "silent s"
  proof (induction rule: reach.induct)
    case (step s a s')
    then show ?case using silent_step [OF assms(1)] by blast
  qed
  then show ?thesis by (simp add: silent_def)
qed

theorem too_many_lanes_never_submit_witness:
  "let cfg = (smoke_config 200 5000)\<lparr> cfg_Lanes := 70000, cfg_MaxLanes := 70000 \<rparr> in
     Validate cfg = None
     \<and> (\<exists>s0. NewRunner (\<lambda>_. False) (\<lambda>_. Inl []) (\<lambda>_. Inl []) cfg = Inr s0 \<and> l1_blockLog (ru_l1 s0) = [])"
proof -
  let ?cfg = "(smoke_config 200 5000)\<lparr> cfg_Lanes := 70000, cfg_MaxLanes := 70000 \<rparr>"
  have "valid_config ?cfg" using smoke_config_valid [of 200 5000] by (simp add: valid_config_def)
  then have v: "Validate ?cfg = None" by (rule Validate_valid)
  obtain q1 q2 q3 where "NewRing zero_job 2048 = Inr q1" "NewRing zero_batch 2048 = Inr q2"
    "NewRing zero_commit 2048 = Inr q3"
    by (simp add: NewRing_def)
  then obtain s0 where s0: "NewRunner (\<lambda>_. False) (\<lambda>_. Inl []) (\<lambda>_. Inl []) ?cfg = Inr s0"
    by (simp add: NewRunner_def Let_def)
  have "l1_blockLog (ru_l1 (s0\<lparr> ru_todo := [] \<rparr>)) = []"
    using too_many_lanes_never_submit [OF _ s0 reach.start, of "[]"] by simp
  then show ?thesis using v s0 by simp
qed

end
