(* ===== verification/Report.thy ===== *)
theory Report imports L1_Node Config begin

text \<open>
  The verdict of a run, \<^verbatim>\<open>buildReport\<close> in \<^verbatim>\<open>internal/pipeline/runner.go\<close>, and the CSV and Markdown
  renderings of \<^verbatim>\<open>internal/pipeline/report.go\<close>.  Host, clock, file hashes and the file system are
  parameters; the JSON rendering and the writing of the files are in \<^verbatim>\<open>Report_Files\<close>.
\<close>

section \<open>The report\<close>

record Report =
  rp_ConfigName :: string
  rp_StartedAt :: string
  rp_FinishedAt :: string
  rp_Host :: string
  rp_GoVersion :: string
  rp_ConfigSHA256 :: string
  rp_BinarySHA256 :: string
  rp_BlockTimeMillis :: int
  rp_GasLimit :: u64
  rp_Lanes :: int
  rp_ExpectedCertificationTx :: u64
  rp_CertificationSeconds :: int
  rp_CertificationTPSGoal :: int
  rp_CertificationVerifiedTx :: u64
  rp_CertificationAvgTPS :: rat
  rp_CertifiedBlocks :: int
  rp_ProofFailures :: int
  rp_DropCount :: u64
  rp_AverageFinalizeMs :: rat
  rp_Pass :: bool
  rp_Assumptions :: "string list"
  rp_Blocks :: "BlockLog list"

text \<open>What \<^verbatim>\<open>buildReport\<close> reads of its surroundings: the two time stamps, the host, the Go version, the
  configuration path and the running binary; \<open>ReadFile\<close> fails or returns the bytes.\<close>

record Environment =
  en_StartedAt :: string
  en_FinishedAt :: string
  en_Host :: string
  en_GoVersion :: string
  en_ConfigPath :: string
  en_Executable :: "string option"
  en_ReadFile :: "string \<Rightarrow> string + byte list"

definition fileSHA256Hex :: "(string \<Rightarrow> string + byte list) \<Rightarrow> string \<Rightarrow> string + string" where
  "fileSHA256Hex ReadFile path =
     (case ReadFile path of Inl e \<Rightarrow> Inl e | Inr data \<Rightarrow> Inr (EncodeToString (Sum256 data)))"

definition hash_or_empty :: "string + string \<Rightarrow> string" where
  "hash_or_empty r = (case r of Inl _ \<Rightarrow> [] | Inr h \<Rightarrow> h)"

text \<open>The loop over the log: transfers, blocks and proof failures of the certification phase.\<close>

fun report_loop :: "BlockLog list \<Rightarrow> u64 \<times> int \<times> int \<Rightarrow> u64 \<times> int \<times> int" where
  "report_loop [] acc = acc"
| "report_loop (entry # logs) (verifiedTx, proofFailures, verifiedBlocks) =
     (if bl_Phase entry \<noteq> ''certification'' then report_loop logs (verifiedTx, proofFailures, verifiedBlocks)
      else if bl_Finalized entry \<and> bl_ProofVerified entry \<and> \<not> bl_Duplicate entry
        then report_loop logs (verifiedTx + ucast (bl_TxCount entry), proofFailures, verifiedBlocks + 1)
      else if \<not> bl_ProofVerified entry
        then report_loop logs (verifiedTx, proofFailures + 1, verifiedBlocks)
      else report_loop logs (verifiedTx, proofFailures, verifiedBlocks))"

definition report_assumptions :: "string list" where
  "report_assumptions =
     [''Certification mode skips signature/nonce/balance prechecks and full trie semantics.'',
      ''L1 receives full tx payload per proof and applies one batched state update per accepted proof.'',
      ''Proof verification uses deterministic pre-generated certification proofs.'',
      ''Result is for private-network certification and not public-network decentralization/security.'']"

text \<open>\<^const>\<open>None\<close> is the division by zero in \<^const>\<open>BlocksForPhase\<close>.\<close>

definition buildReport :: "Environment \<Rightarrow> Config \<Rightarrow> L1CertNode \<Rightarrow> Report option" where
  "buildReport env cfg n =
     (let logs = BlockLogs n; cert = cfg_Certification cfg;
          (certVerifiedTx, certProofFailures, certVerifiedBlocks) = report_loop logs (0, 0, 0);
          certDuration = ph_DurationSeconds cert;
          avgVerifiedTPS = (if certDuration > 0
             then f64_div (f64_of_int (uint certVerifiedTx)) (f64_of_int certDuration) else 0)
      in case BlocksForPhase cfg cert of
           None \<Rightarrow> None
         | Some blocks \<Rightarrow>
             let expectedCertTx = of_int (blocks * TxPerBlock cfg (ph_TPS cert)) :: u64;
                 cfgHash = (if en_ConfigPath env \<noteq> []
                            then hash_or_empty (fileSHA256Hex (en_ReadFile env) (en_ConfigPath env)) else []);
                 binaryHash = (case en_Executable env of
                            None \<Rightarrow> [] | Some exe \<Rightarrow> hash_or_empty (fileSHA256Hex (en_ReadFile env) exe));
                 pass = (avgVerifiedTPS \<ge> f64_of_int (ph_TPS cert) \<and> certVerifiedTx \<ge> expectedCertTx
                         \<and> DropCount (l1_metrics n) = 0 \<and> certProofFailures = 0)
             in Some \<lparr> rp_ConfigName = cfg_Name cfg, rp_StartedAt = en_StartedAt env,
                  rp_FinishedAt = en_FinishedAt env, rp_Host = en_Host env, rp_GoVersion = en_GoVersion env,
                  rp_ConfigSHA256 = cfgHash, rp_BinarySHA256 = binaryHash,
                  rp_BlockTimeMillis = cfg_BlockTimeMillis cfg, rp_GasLimit = cfg_GasLimit cfg,
                  rp_Lanes = cfg_Lanes cfg, rp_ExpectedCertificationTx = expectedCertTx,
                  rp_CertificationSeconds = ph_DurationSeconds cert, rp_CertificationTPSGoal = ph_TPS cert,
                  rp_CertificationVerifiedTx = certVerifiedTx, rp_CertificationAvgTPS = avgVerifiedTPS,
                  rp_CertifiedBlocks = certVerifiedBlocks, rp_ProofFailures = certProofFailures,
                  rp_DropCount = DropCount (l1_metrics n),
                  rp_AverageFinalizeMs = AverageFinalizeLatencyMs (l1_metrics n), rp_Pass = pass,
                  rp_Assumptions = report_assumptions, rp_Blocks = logs \<rparr>)"

section \<open>What the numbers mean\<close>

definition cert_entries :: "BlockLog list \<Rightarrow> BlockLog list" where
  "cert_entries logs = filter (\<lambda>e. bl_Phase e = ''certification'') logs"

lemma report_loop_eq:
  "report_loop logs (tx, fails, blocks) =
     (tx + sum_list (map (\<lambda>e. ucast (bl_TxCount e)) (filter log_verified (cert_entries logs))),
      fails + int (length (filter (\<lambda>e. \<not> bl_ProofVerified e) (cert_entries logs))),
      blocks + int (length (filter log_verified (cert_entries logs))))"
  by (induction logs arbitrary: tx fails blocks) (auto simp: cert_entries_def log_verified_def)

lemma buildReport_fields:
  assumes "buildReport env cfg n = Some r"
  shows "rp_CertificationVerifiedTx r =
      sum_list (map (\<lambda>e. ucast (bl_TxCount e)) (filter log_verified (cert_entries (l1_blockLog n))))"
    and "rp_ProofFailures r = int (length (filter (\<lambda>e. \<not> bl_ProofVerified e) (cert_entries (l1_blockLog n))))"
    and "rp_CertifiedBlocks r = int (length (filter log_verified (cert_entries (l1_blockLog n))))"
    and "rp_DropCount r = m_dropCount (l1_metrics n)"
    and "\<exists>blocks. BlocksForPhase cfg (cfg_Certification cfg) = Some blocks
      \<and> rp_ExpectedCertificationTx r = of_int (blocks * TxPerBlock cfg (ph_TPS (cfg_Certification cfg)))"
    and "rp_CertificationAvgTPS r = (if ph_DurationSeconds (cfg_Certification cfg) > 0
      then f64_div (f64_of_int (uint (rp_CertificationVerifiedTx r)))
             (f64_of_int (ph_DurationSeconds (cfg_Certification cfg))) else 0)"
    and "rp_Pass r \<longleftrightarrow> rp_CertificationAvgTPS r \<ge> f64_of_int (ph_TPS (cfg_Certification cfg))
      \<and> rp_CertificationVerifiedTx r \<ge> rp_ExpectedCertificationTx r
      \<and> m_dropCount (l1_metrics n) = 0 \<and> rp_ProofFailures r = 0"
  using assms
  by (auto simp: buildReport_def report_loop_eq BlockLogs_def DropCount_def Let_def split: option.splits)

text \<open>The counts of the report are those of the log's certification entries: transfers and blocks of the finalized,
  verified, non-duplicate ones, and the entries whose proof was not verified.\<close>

theorem report_counts:
  "case buildReport env cfg n of
     None \<Rightarrow> BlocksForPhase cfg (cfg_Certification cfg) = None
   | Some r \<Rightarrow>
       rp_CertificationVerifiedTx r
         = sum_list (map (\<lambda>e. ucast (bl_TxCount e)) (filter log_verified (cert_entries (l1_blockLog n))))
       \<and> rp_CertifiedBlocks r = int (length (filter log_verified (cert_entries (l1_blockLog n))))
       \<and> rp_ProofFailures r = int (length (filter (\<lambda>e. \<not> bl_ProofVerified e) (cert_entries (l1_blockLog n))))"
proof (cases "buildReport env cfg n")
  case None
  then show ?thesis
    by (auto simp: buildReport_def Let_def split: option.splits prod.splits)
next
  case (Some r)
  then show ?thesis using buildReport_fields(1-3) [OF Some] by simp
qed

lemma pass_threshold:
  assumes "buildReport env cfg n = Some r"
    and "0 < ph_DurationSeconds (cfg_Certification cfg)" "ph_DurationSeconds (cfg_Certification cfg) \<le> 2 ^ 53"
    and "0 \<le> ph_TPS (cfg_Certification cfg)" "ph_TPS (cfg_Certification cfg) \<le> 2 ^ 53"
    and "uint (rp_CertificationVerifiedTx r) < 2 ^ 53"
  shows "rp_CertificationAvgTPS r \<ge> f64_of_int (ph_TPS (cfg_Certification cfg)) \<longleftrightarrow>
    ph_TPS (cfg_Certification cfg) * ph_DurationSeconds (cfg_Certification cfg) \<le> uint (rp_CertificationVerifiedTx r)"
  using f64_div_ge_iff [of "uint (rp_CertificationVerifiedTx r)" "ph_DurationSeconds (cfg_Certification cfg)"
      "ph_TPS (cfg_Certification cfg)"] assms buildReport_fields(6) [OF assms(1)] by simp

text \<open>C38. The verdict is exact: although the average is a rounded float, a run passes exactly when the verified transfers
  reach rate times duration and the expected count, nothing was dropped, and no proof failed.\<close>

theorem report_verdict:
  assumes "buildReport env cfg n = Some r"
    and "0 < ph_DurationSeconds (cfg_Certification cfg)" "ph_DurationSeconds (cfg_Certification cfg) \<le> 2 ^ 53"
    and "0 \<le> ph_TPS (cfg_Certification cfg)" "ph_TPS (cfg_Certification cfg) \<le> 2 ^ 53"
    and "uint (rp_CertificationVerifiedTx r) < 2 ^ 53"
  shows "rp_Pass r \<longleftrightarrow>
    ph_TPS (cfg_Certification cfg) * ph_DurationSeconds (cfg_Certification cfg) \<le> uint (rp_CertificationVerifiedTx r)
    \<and> rp_ExpectedCertificationTx r \<le> rp_CertificationVerifiedTx r
    \<and> rp_DropCount r = 0 \<and> rp_ProofFailures r = 0"
  using pass_threshold [OF assms] buildReport_fields(4,7) [OF assms(1)] by simp

section \<open>A goal no run can reach\<close>

text \<open>The expected count falls short of rate times duration when the blocks do not fill the phase.\<close>

lemma expected_below_goal:
  assumes "valid_config cfg" "cfg_BlockTimeMillis cfg \<le> 9223372036854"
    and "ph_DurationSeconds (cfg_Certification cfg) \<le> 9223372036"
    and "ph_TPS (cfg_Certification cfg) * cfg_BlockTimeMillis cfg < 2 ^ 51"
    and "\<not> cfg_BlockTimeMillis cfg dvd ph_DurationSeconds (cfg_Certification cfg) * 1000"
    and "BlocksForPhase cfg (cfg_Certification cfg) = Some blocks"
  shows "blocks * TxPerBlock cfg (ph_TPS (cfg_Certification cfg))
      < ph_TPS (cfg_Certification cfg) * ph_DurationSeconds (cfg_Certification cfg)"
    and "0 \<le> blocks * TxPerBlock cfg (ph_TPS (cfg_Certification cfg))"
proof -
  let ?b = "cfg_BlockTimeMillis cfg" and ?d = "ph_DurationSeconds (cfg_Certification cfg)"
    and ?t = "ph_TPS (cfg_Certification cfg)" and ?x = "TxPerBlock cfg (ph_TPS (cfg_Certification cfg))"
  have pos: "0 < ?b" "0 < ?d" "0 < ?t" using assms(1) by (simp_all add: valid_config_def)
  have blocks: "blocks = ?d * 1000 div ?b"
    using BlocksForPhase_value [of cfg "cfg_Certification cfg"] assms pos by simp
  have "?x \<le> ?t * ?b div 1000" "?t * ?b div 1000 - 1 \<le> ?x" "1000 dvd ?t * ?b \<or> ?x = ?t * ?b div 1000"
    using TxPerBlock_cases [of ?t cfg] assms(2,4) pos by auto
  moreover have "0 < ?t * ?b" using pos by simp
  ultimately have x: "?x * 1000 \<le> ?t * ?b" "0 \<le> ?x" by (auto elim!: dvdE simp: pos_imp_zdiv_nonneg_iff)
  have "?d * 1000 mod ?b \<noteq> 0" using assms(5) by (simp add: dvd_eq_mod_eq_0)
  then have "0 < ?d * 1000 mod ?b" using pos by (simp add: order_neq_le_trans)
  then have bb: "blocks * ?b < ?d * 1000"
    unfolding blocks using div_mult_mod_eq [of "?d * 1000" ?b] by linarith
  have b0: "0 \<le> blocks" using pos by (simp add: blocks pos_imp_zdiv_nonneg_iff)
  have "blocks * ?x * 1000 \<le> blocks * (?t * ?b)"
    using mult_left_mono [OF x(1) b0] by (simp add: mult.assoc)
  also have "\<dots> = ?t * (blocks * ?b)" by simp
  also have "\<dots> < ?t * (?d * 1000)" using bb pos(3) by (intro mult_strict_left_mono)
  finally have "blocks * ?x * 1000 < (?t * ?d) * 1000" by simp
  then show "blocks * ?x < ?t * ?d" by linarith
  show "0 \<le> blocks * ?x" using b0 x(2) by simp
qed

text \<open>When the certification phase is not a whole number of block intervals, the goal rate times duration lies above what
  the ingress ever sends: even a flawless run, with every expected transfer verified, is reported as failed.\<close>

theorem flawless_run_fails:
  assumes "valid_config cfg" "cfg_BlockTimeMillis cfg \<le> 9223372036854"
    and "ph_DurationSeconds (cfg_Certification cfg) \<le> 9223372036"
    and "ph_TPS (cfg_Certification cfg) * cfg_BlockTimeMillis cfg < 2 ^ 51"
    and "ph_TPS (cfg_Certification cfg) * ph_DurationSeconds (cfg_Certification cfg) < 2 ^ 53"
    and "\<not> cfg_BlockTimeMillis cfg dvd ph_DurationSeconds (cfg_Certification cfg) * 1000"
    and "buildReport env cfg n = Some r" "rp_CertificationVerifiedTx r \<le> rp_ExpectedCertificationTx r"
  shows "\<not> rp_Pass r"
proof -
  let ?d = "ph_DurationSeconds (cfg_Certification cfg)" and ?t = "ph_TPS (cfg_Certification cfg)"
  obtain blocks where blocks: "BlocksForPhase cfg (cfg_Certification cfg) = Some blocks"
    "rp_ExpectedCertificationTx r = of_int (blocks * TxPerBlock cfg ?t)"
    using buildReport_fields(5) [OF assms(7)] by blast
  note e = expected_below_goal [OF assms(1-4,6) blocks(1)]
  have pos: "0 < ?d" "0 < ?t" using assms(1) by (simp_all add: valid_config_def)
  have "uint (rp_ExpectedCertificationTx r) = blocks * TxPerBlock cfg ?t"
    unfolding blocks(2) using e assms(5) by (simp only: unsigned_of_int) (simp add: take_bit_int_eq_self)
  then have v: "uint (rp_CertificationVerifiedTx r) < ?t * ?d"
    using assms(8) e(1) by (simp add: word_le_def)
  have t: "?t \<le> ?t * ?d" using mult_left_mono [of 1 ?d ?t] pos by simp
  have t53: "?t \<le> 2 ^ 53" and v53: "uint (rp_CertificationVerifiedTx r) < 2 ^ 53"
    using t v assms(5) by linarith+
  have "\<not> rp_CertificationAvgTPS r \<ge> f64_of_int ?t"
    using pass_threshold [OF assms(7)] v assms(3) pos t53 v53 by simp
  then show ?thesis using buildReport_fields(7) [OF assms(7)] by simp
qed

definition sample_environment :: Environment where
  "sample_environment = \<lparr> en_StartedAt = [], en_FinishedAt = [], en_Host = ''host'', en_GoVersion = [],
     en_ConfigPath = [], en_Executable = None, en_ReadFile = (\<lambda>_. Inl []) \<rparr>"

theorem flawless_run_fails_witness:
  "\<exists>r. buildReport sample_environment (smoke_config 333 5000) (NewL1CertNode ''s'' NewRegistry) = Some r
    \<and> \<not> rp_Pass r"
proof -
  let ?cfg = "smoke_config 333 5000" and ?n = "NewL1CertNode ''s'' NewRegistry"
  have c: "valid_config ?cfg" by (rule smoke_config_valid) simp_all
  obtain blocks where "BlocksForPhase ?cfg (cfg_Certification ?cfg) = Some blocks"
    using BlocksForPhase_value [OF c, of "cfg_Certification ?cfg"] by simp
  then obtain r where r: "buildReport sample_environment ?cfg ?n = Some r"
    by (simp add: buildReport_def BlockLogs_def NewL1CertNode_def Let_def)
  have "rp_CertificationVerifiedTx r = 0"
    using buildReport_fields(1) [OF r] by (simp add: NewL1CertNode_def cert_entries_def)
  then show ?thesis using flawless_run_fails [OF c _ _ _ _ _ r] r by simp
qed

theorem report_verdict_witness:
  "\<exists>r. buildReport sample_environment (smoke_config 200 5000) (NewL1CertNode ''s'' NewRegistry) = Some r
    \<and> \<not> rp_Pass r"
proof -
  let ?cfg = "smoke_config 200 5000" and ?n = "NewL1CertNode ''s'' NewRegistry"
  have c: "valid_config ?cfg" by (rule smoke_config_valid) simp_all
  obtain blocks where "BlocksForPhase ?cfg (cfg_Certification ?cfg) = Some blocks"
    using BlocksForPhase_value [OF c, of "cfg_Certification ?cfg"] by simp
  then obtain r where r: "buildReport sample_environment ?cfg ?n = Some r"
    by (simp add: buildReport_def BlockLogs_def NewL1CertNode_def Let_def)
  have "rp_CertificationVerifiedTx r = 0"
    using buildReport_fields(1) [OF r] by (simp add: NewL1CertNode_def cert_entries_def)
  then show ?thesis using report_verdict [OF r] r by simp
qed

section \<open>CSV\<close>

text \<open>
  \<^verbatim>\<open>encoding/csv\<close>: a field is quoted when it is \<open>\.\<close>, holds a comma, a quote or a line break, or starts
  with a space (an ASCII one: the log's texts are ASCII); quotes in it are doubled.
\<close>

definition csv_needs_quotes :: "string \<Rightarrow> bool" where
  "csv_needs_quotes s \<longleftrightarrow> s \<noteq> [] \<and>
     (s = [CHR 0x5C, CHR ''.'']
      \<or> (\<exists>c \<in> set s. c = CHR '','' \<or> c = CHR 0x22 \<or> c = CHR 0x0D \<or> c = CHR 0x0A)
      \<or> hd s \<in> {CHR 0x09, CHR 0x0B, CHR 0x0C, CHR '' ''})"

definition csv_field :: "string \<Rightarrow> string" where
  "csv_field s =
     (if csv_needs_quotes s
      then CHR 0x22 # concat (map (\<lambda>c. if c = CHR 0x22 then [CHR 0x22, CHR 0x22] else [c]) s) @ [CHR 0x22]
      else s)"

fun csv_join :: "string list \<Rightarrow> string" where
  "csv_join [] = newline"
| "csv_join [f] = csv_field f @ newline"
| "csv_join (f # g # fs) = csv_field f @ CHR '','' # csv_join (g # fs)"

definition csv_header :: "string list" where
  "csv_header = [''phase'', ''block_index'', ''tx_count'', ''proof_verified'', ''finalized'', ''duplicate'',
     ''state_applied'', ''state_version'', ''delta_count'', ''error'', ''finalize_latency_ms'', ''commitment_hash'']"

definition csv_record :: "BlockLog \<Rightarrow> string list" where
  "csv_record b = [bl_Phase b, dec_nat (unat (bl_BlockIndex b)), dec_nat (unat (bl_TxCount b)),
     FormatBool (bl_ProofVerified b), FormatBool (bl_Finalized b), FormatBool (bl_Duplicate b),
     FormatBool (bl_StateApplied b), dec_nat (unat (bl_StateVersion b)), dec_int (bl_DeltaCount b),
     bl_Error b, format_f3 (bl_FinalizeMs b), bl_CommitmentHash b]"

definition writeCSV :: "BlockLog list \<Rightarrow> string" where
  "writeCSV blocks = concat (map csv_join (csv_header # map csv_record blocks))"

text \<open>
  A reader of the format: a quoted field runs to its closing quote, a doubled quote stands for one;
  any other field runs to the next comma or line end.
\<close>

fun csv_unquote :: "string \<Rightarrow> string \<times> string" where
  "csv_unquote [] = ([], [])"
| "csv_unquote [c] = (if c = CHR 0x22 then ([], []) else ([c], []))"
| "csv_unquote (c # d # s) =
     (if c = CHR 0x22
      then if d = CHR 0x22 then (let (f, r) = csv_unquote s in (CHR 0x22 # f, r)) else ([], d # s)
      else (let (f, r) = csv_unquote (d # s) in (c # f, r)))"

definition csv_plain :: "char \<Rightarrow> bool" where
  "csv_plain c \<longleftrightarrow> c \<noteq> CHR '','' \<and> c \<noteq> CHR 0x0A"

definition csv_read_field :: "string \<Rightarrow> string \<times> string" where
  "csv_read_field s =
     (if s \<noteq> [] \<and> hd s = CHR 0x22 then csv_unquote (tl s) else (takeWhile csv_plain s, dropWhile csv_plain s))"

lemma csv_unquote_length: "length (snd (csv_unquote s)) \<le> length s"
  by (induction s rule: csv_unquote.induct) (auto split: prod.splits)

lemma csv_read_field_length: "length (snd (csv_read_field s)) \<le> length s"
  using csv_unquote_length [of "tl s"] length_dropWhile_le [of csv_plain s] by (auto simp: csv_read_field_def)

function csv_read_record :: "string \<Rightarrow> string list \<times> string" where
  "csv_read_record s =
     (let f = fst (csv_read_field s); r = snd (csv_read_field s)
      in if r = [] then ([f], [])
         else if hd r = CHR '','' then (f # fst (csv_read_record (tl r)), snd (csv_read_record (tl r)))
         else ([f], tl r))"
  by pat_completeness auto
termination
proof (relation "measure length")
  fix s f r assume r: "r = snd (csv_read_field s)" "r \<noteq> []"
  have "length r \<le> length s" using csv_read_field_length [of s] by (simp only: r(1))
  moreover have "length (tl r) < length r" using r(2) by simp
  ultimately show "(tl r, s) \<in> measure length" by simp
  then show "(tl r, s) \<in> measure length" .
qed simp

declare csv_read_record.simps [simp del]

lemma csv_unquote_quoted:
  "hd (r @ ''x'') \<noteq> CHR 0x22 \<Longrightarrow>
   csv_unquote (concat (map (\<lambda>c. if c = CHR 0x22 then [CHR 0x22, CHR 0x22] else [c]) s) @ CHR 0x22 # r) = (s, r)"
proof (induction s)
  case Nil
  then show ?case by (cases r) auto
next
  case (Cons c s)
  then show ?case
    by (cases "concat (map (\<lambda>c. if c = CHR 0x22 then [CHR 0x22, CHR 0x22] else [c]) s) @ CHR 0x22 # r") auto
qed

lemma csv_read_field_back:
  assumes "d \<in> {CHR '','', CHR 0x0A}"
  shows "csv_read_field (csv_field s @ d # r) = (s, d # r)"
proof (cases "csv_needs_quotes s")
  case True
  then show ?thesis
    using assms csv_unquote_quoted [of "d # r" s] by (auto simp: csv_field_def csv_read_field_def)
next
  case False
  then have "\<forall>c \<in> set s. csv_plain c \<and> c \<noteq> CHR 0x22" by (auto simp: csv_needs_quotes_def csv_plain_def)
  moreover have "\<not> csv_plain d" "d \<noteq> CHR 0x22" using assms by (auto simp: csv_plain_def)
  ultimately show ?thesis
    using False by (cases s) (auto simp: csv_field_def csv_read_field_def)
qed

lemma csv_read_record_back: "fs \<noteq> [] \<Longrightarrow> csv_read_record (csv_join fs @ rest) = (fs, rest)"
proof (induction fs rule: csv_join.induct)
  case (2 f)
  then show ?case
    using csv_read_field_back [of "CHR 0x0A" f rest]
    by (simp add: csv_read_record.simps [of "csv_field f @ CHR 0x0A # rest"] newline_def)
next
  case (3 f g fs)
  then show ?case
    using csv_read_field_back [of "CHR '',''" f "csv_join (g # fs) @ rest"]
    by (simp add: csv_read_record.simps [of "csv_field f @ CHR '','' # csv_join (g # fs) @ rest"])
qed simp

text \<open>The CSV report loses nothing: whatever the phase names and error texts hold, a reader of the format recovers the
  fields of the first entry and stops at the start of the next line, and so the header and all entries in turn.\<close>

theorem csv_report_readable:
  "csv_read_record (writeCSV blocks) = (csv_header, concat (map (csv_join \<circ> csv_record) blocks))
   \<and> csv_read_record (csv_join (csv_record b) @ rest) = (csv_record b, rest)"
proof
  show "csv_read_record (csv_join (csv_record b) @ rest) = (csv_record b, rest)"
    by (rule csv_read_record_back) (simp add: csv_record_def)
  have "csv_read_record (csv_join csv_header @ concat (map (csv_join \<circ> csv_record) blocks))
      = (csv_header, concat (map (csv_join \<circ> csv_record) blocks))"
    by (rule csv_read_record_back) (simp add: csv_header_def)
  then show "csv_read_record (writeCSV blocks) = (csv_header, concat (map (csv_join \<circ> csv_record) blocks))"
    by (simp add: writeCSV_def)
qed

section \<open>Markdown\<close>

definition markdownBullets :: "string list \<Rightarrow> string" where
  "markdownBullets ls =
     (if length ls = 0 then ''- (none)'' else concat (map (\<lambda>l. ''- '' @ l @ newline) ls))"

definition writeMarkdown :: "Report \<Rightarrow> string \<Rightarrow> string \<Rightarrow> string" where
  "writeMarkdown r jsonPath csvPath = concat (map (\<lambda>l. l @ newline)
     [''# HyperL2 Certification Report'',
      [],
      ''- Config: '' @ rp_ConfigName r,
      ''- Host: '' @ rp_Host r,
      ''- Pass: '' @ FormatBool (rp_Pass r),
      ''- Certification TPS Goal: '' @ dec_int (rp_CertificationTPSGoal r),
      ''- Certification Avg Verified TPS: '' @ format_f3 (rp_CertificationAvgTPS r),
      ''- Certification Verified TX: '' @ dec_nat (unat (rp_CertificationVerifiedTx r)) @ '' / ''
        @ dec_nat (unat (rp_ExpectedCertificationTx r)),
      ''- Drop Count: '' @ dec_nat (unat (rp_DropCount r)),
      ''- Proof Failures: '' @ dec_int (rp_ProofFailures r),
      ''- Average Finalize Latency (ms): '' @ format_f3 (rp_AverageFinalizeMs r),
      ''- Config SHA256: '' @ rp_ConfigSHA256 r,
      ''- Binary SHA256: '' @ rp_BinarySHA256 r,
      ''- JSON Report: '' @ jsonPath,
      ''- CSV Report: '' @ csvPath,
      [],
      ''## Assumptions'',
      markdownBullets (rp_Assumptions r)])"

end
