(* ===== verification/Run_Verdict.thy ===== *)
theory Run_Verdict imports Runner_Live Report begin

text \<open>
  What the report says of a run: the log of a drained run has one entry for each planned block, and the verdict follows
  from the plan, the block with the injected bad proof, and the drop counter.
\<close>

section \<open>The log of a plan\<close>

text \<open>The part of a log entry the report reads.\<close>

definition entry_view :: "BlockLog \<Rightarrow> string \<times> u32 \<times> bool \<times> bool" where
  "entry_view e = (bl_Phase e, bl_TxCount e, bl_ProofVerified e, log_verified e)"

definition job_view :: "Config \<Rightarrow> BlockJob \<Rightarrow> string \<times> u32 \<times> bool \<times> bool" where
  "job_view cfg j = (bj_Phase j, bc_TxCount (job_commit cfg j), \<not> bad_block cfg (bj_BlockIndex j), \<not> bad_block cfg (bj_BlockIndex j))"

lemma Submit_logs:
  assumes "map_of (l1_blocks n) (rq_BlockIndex req) = None" "payload_ok req"
  shows "\<exists>e. l1_blockLog (snd (SubmitCertifiedBlock now req n)) = l1_blockLog n @ [e]
    \<and> entry_view e = (rq_Phase req, rq_TxCount req, proof_ok (l1_proofSeed n) req, proof_ok (l1_proofSeed n) req)"
  using assms
  by (auto simp: SubmitCertifiedBlock_def Let_def applyTxs_eq append_log_def reject_entry_def entry_view_def log_verified_def)

lemma commit_request_checks:
  assumes "\<And>b. V b = GenerateProofBytes seed b" "sound_commit c"
  shows "payload_ok (commit_request cfg V c)" "proof_ok seed (commit_request cfg V c) \<longleftrightarrow> \<not> bad_block cfg (bc_BlockIndex c)"
proof -
  have "GenerateProofBytes seed (bc_BlockIndex c) \<noteq> []"
    using length_GenerateProofBytes [of seed "bc_BlockIndex c"] by force
  then show "payload_ok (commit_request cfg V c)" "proof_ok seed (commit_request cfg V c) \<longleftrightarrow> \<not> bad_block cfg (bc_BlockIndex c)"
    using assms flip_first_neq
    by (auto simp: payload_ok_def proof_ok_def commit_request_def sound_commit_def Let_def)
qed

lemma plan_log:
  assumes "\<And>b. book_view book b = GenerateProofBytes seed b"
  shows "distinct (map bj_BlockIndex jobs) \<Longrightarrow> length ts = length jobs \<Longrightarrow>
    map entry_view (l1_blockLog (snd (submit_all (plan_requests cfg (book_view book) ts jobs) (NewL1CertNode seed m))))
      = map (job_view cfg) jobs"
proof (induction jobs arbitrary: ts rule: rev_induct)
  case Nil
  then show ?case by (simp add: plan_requests_def NewL1CertNode_def)
next
  case (snoc j jobs)
  obtain ts' t where ts: "ts = ts' @ [t]" "length ts' = length jobs"
    using snoc.prems(2) by (cases ts rule: rev_cases) simp_all
  let ?n = "snd (submit_all (plan_requests cfg (book_view book) ts' jobs) (NewL1CertNode seed m))"
  let ?r = "commit_request cfg (book_view book) (job_commit cfg j)"
  have split: "plan_requests cfg (book_view book) ts (jobs @ [j]) = plan_requests cfg (book_view book) ts' jobs @ [(t, ?r)]"
    by (simp add: plan_requests_def ts)
  have L: "l1_refines seed m (plan_ledger cfg jobs) ?n"
    using l1_refines_all [of seed m "plan_requests cfg (book_view book) ts' jobs"]
      ledger_of_plan [OF assms _ ts(2), of cfg] snoc.prems(1) by simp
  have "map_of (l1_blocks ?n) (bj_BlockIndex j) = None"
    using L snoc.prems(1) by (auto simp: l1_refines_def ledger_blocks_None plan_ledger_def)
  then have "map_of (l1_blocks ?n) (rq_BlockIndex ?r) = None" by (simp add: commit_request_def)
  moreover have "l1_proofSeed ?n = seed" using L by (simp add: l1_refines_def)
  ultimately obtain e where e: "l1_blockLog (snd (SubmitCertifiedBlock t ?r ?n)) = l1_blockLog ?n @ [e]"
    "entry_view e = (rq_Phase ?r, rq_TxCount ?r, proof_ok seed ?r, proof_ok seed ?r)"
    using Submit_logs [of ?n ?r t] commit_request_checks(1) [where seed = seed, OF assms sound_job_commit] by auto
  have "entry_view e = job_view cfg j"
    using e(2) commit_request_checks(2) [where seed = seed, OF assms sound_job_commit [of cfg j], of cfg]
    by (simp add: job_view_def) (simp add: commit_request_def)
  then show ?case
    using snoc.IH [OF _ ts(2)] snoc.prems(1) e(1) by (simp add: split submit_all_snoc)
qed

section \<open>The plan of a configuration\<close>

lemma synthetic_count:
  assumes "0 < cfg_Lanes cfg" "nat n < 2 ^ 32" "bj_Txs job = GenerateSyntheticTxs b n"
  shows "ucast (bc_TxCount (job_commit cfg job)) = (of_nat (nat n) :: u64)"
proof -
  have "filter isPayloadValid (bj_Txs job) = bj_Txs job" using synthetic_valid by (auto simp: assms(3) filter_id_conv)
  then have "length (bc_Txs (job_commit cfg job)) = nat n"
    using mset_job_commit [OF assms(1), of job] assms(3) by (metis length_GenerateSyntheticTxs size_mset)
  then have "unat (bc_TxCount (job_commit cfg job)) = nat n" using unat_u32_small assms(2) by simp
  then show ?thesis by (metis of_nat_unat)
qed

text \<open>What is asked of the numbers: no product overflows, no block number repeats, and the sums are exact as floats.\<close>

definition planned_blocks :: "Config \<Rightarrow> Phase \<Rightarrow> int" where
  "planned_blocks cfg p = ph_DurationSeconds p * 1000 div cfg_BlockTimeMillis cfg"

definition run_fits :: "Config \<Rightarrow> bool" where
  "run_fits cfg \<longleftrightarrow> valid_config cfg \<and> good_lanes cfg \<and> cfg_BlockTimeMillis cfg \<le> 9223372036854
     \<and> ph_DurationSeconds (cfg_Warmup cfg) \<le> 9223372036 \<and> ph_DurationSeconds (cfg_Certification cfg) \<le> 9223372036
     \<and> planned_blocks cfg (cfg_Warmup cfg) + planned_blocks cfg (cfg_Certification cfg) \<le> 2 ^ 32
     \<and> TxPerBlock cfg (ph_TPS (cfg_Warmup cfg)) < 2 ^ 32 \<and> 0 \<le> TxPerBlock cfg (ph_TPS (cfg_Certification cfg))
     \<and> TxPerBlock cfg (ph_TPS (cfg_Certification cfg)) < 2 ^ 32 \<and> ph_TPS (cfg_Certification cfg) \<le> 2 ^ 53
     \<and> planned_blocks cfg (cfg_Certification cfg) * TxPerBlock cfg (ph_TPS (cfg_Certification cfg)) < 2 ^ 53"

definition phase_plan :: "Config \<Rightarrow> string \<Rightarrow> Phase \<Rightarrow> (BlockJob \<times> int) list \<Rightarrow> bool" where
  "phase_plan cfg name phase jobs \<longleftrightarrow> list_all (\<lambda>(j, n). bj_Phase j = name
     \<and> bj_Txs j = GenerateSyntheticTxs (bj_BlockIndex j) (TxPerBlock cfg (ph_TPS phase))) jobs"

lemma phase_jobs_plan:
  assumes "BlocksForPhase cfg phase = Some blocks" "0 \<le> blocks"
  obtains js where "phase_jobs cfg clock name start phase = Some (js, start + of_nat (length js))" "phase_plan cfg name phase js"
    "map (bj_BlockIndex \<circ> fst) js = map (\<lambda>i. start + of_nat i) [0..<length js]"
    "length js = (if ph_TPS phase = 0 then 0 else nat blocks)"
  using assms
  by (cases "blocks = 0 \<or> ph_TPS phase = 0")
    (auto simp: phase_jobs_def phase_plan_def list_all_iff Let_def comp_def intro!: that)

lemma run_fits_blocks:
  assumes "run_fits cfg"
  shows "BlocksForPhase cfg (cfg_Warmup cfg) = Some (planned_blocks cfg (cfg_Warmup cfg))" "0 \<le> planned_blocks cfg (cfg_Warmup cfg)"
    "BlocksForPhase cfg (cfg_Certification cfg) = Some (planned_blocks cfg (cfg_Certification cfg))"
    "0 \<le> planned_blocks cfg (cfg_Certification cfg)"
  using assms BlocksForPhase_value [of cfg]
  by (auto simp: run_fits_def planned_blocks_def valid_config_def pos_imp_zdiv_nonneg_iff)

lemma planned_jobs:
  assumes "run_fits cfg"
  obtains warm cert where "run_jobs cfg clock = Some (warm @ cert)" "phase_plan cfg ''warmup'' (cfg_Warmup cfg) warm"
    "phase_plan cfg ''certification'' (cfg_Certification cfg) cert"
    "map (bj_BlockIndex \<circ> fst) (warm @ cert) = map of_nat [0..<length warm + length cert]"
    "length warm + length cert \<le> 2 ^ 32" "length cert = nat (planned_blocks cfg (cfg_Certification cfg))"
proof -
  note b = run_fits_blocks [OF assms]
  obtain warm where warm: "phase_jobs cfg clock ''warmup'' 0 (cfg_Warmup cfg) = Some (warm, 0 + of_nat (length warm))"
    "phase_plan cfg ''warmup'' (cfg_Warmup cfg) warm" "map (bj_BlockIndex \<circ> fst) warm = map (\<lambda>i. 0 + of_nat i) [0..<length warm]"
    "length warm = (if ph_TPS (cfg_Warmup cfg) = 0 then 0 else nat (planned_blocks cfg (cfg_Warmup cfg)))"
    by (rule phase_jobs_plan [OF b(1,2)])
  obtain cert where cert: "phase_jobs cfg clock ''certification'' (of_nat (length warm)) (cfg_Certification cfg)
        = Some (cert, of_nat (length warm) + of_nat (length cert))"
    "phase_plan cfg ''certification'' (cfg_Certification cfg) cert"
    "map (bj_BlockIndex \<circ> fst) cert = map (\<lambda>i. of_nat (length warm) + of_nat i) [0..<length cert]"
    "length cert = (if ph_TPS (cfg_Certification cfg) = 0 then 0 else nat (planned_blocks cfg (cfg_Certification cfg)))"
    by (rule phase_jobs_plan [OF b(3,4)])
  have tps: "ph_TPS (cfg_Certification cfg) \<noteq> 0" using assms by (simp add: run_fits_def valid_config_def)
  have "[0..<length warm + length cert] = [0..<length warm] @ map (\<lambda>i. length warm + i) [0..<length cert]"
    using upt_add_eq_append [of 0 "length warm" "length cert"] map_add_upt [of "length warm" "length cert"]
    by (simp add: add.commute)
  then have index: "map (bj_BlockIndex \<circ> fst) (warm @ cert) = map of_nat [0..<length warm + length cert]"
    using warm(3) cert(3) by (simp add: comp_def)
  have "length warm + length cert \<le> 2 ^ 32"
    using warm(4) cert(4) b(2,4) assms by (auto simp: run_fits_def)
  moreover have "run_jobs cfg clock = Some (warm @ cert)" using warm(1) cert(1) by (simp add: run_jobs_def)
  ultimately show ?thesis using that warm(2) cert(2,4) tps index by simp
qed

section \<open>The verdict\<close>

lemma view_sums:
  "sum_list (map (\<lambda>e. ucast (bl_TxCount e)) (filter log_verified (cert_entries logs)))
     = sum_list (map (\<lambda>(p, c, v, w). ucast c) (filter (\<lambda>(p, c, v, w). w \<and> p = ''certification'') (map entry_view logs)))"
  "length (filter (\<lambda>e. \<not> bl_ProofVerified e) (cert_entries logs))
     = length (filter (\<lambda>(p, c, v, w). \<not> v \<and> p = ''certification'') (map entry_view logs))"
  by (induction logs; simp add: cert_entries_def entry_view_def split_beta)+

lemma view_filter:
  assumes "\<And>j. j \<in> set js \<Longrightarrow> bj_Phase j = name"
  shows "filter (\<lambda>(p, c, v, w). w \<and> p = name) (map (job_view cfg) js)
      = map (job_view cfg) (filter (\<lambda>j. \<not> bad_block cfg (bj_BlockIndex j)) js)"
    "filter (\<lambda>(p, c, v, w). \<not> v \<and> p = name) (map (job_view cfg) js)
      = map (job_view cfg) (filter (\<lambda>j. bad_block cfg (bj_BlockIndex j)) js)"
  using assms by (induction js) (simp_all add: job_view_def)

lemma plan_sums:
  assumes "run_fits cfg" "phase_plan cfg ''warmup'' (cfg_Warmup cfg) warm" "phase_plan cfg ''certification'' (cfg_Certification cfg) cert"
  defines "good \<equiv> filter (\<lambda>j. \<not> bad_block cfg (bj_BlockIndex j)) (map fst cert)"
  shows "sum_list (map (\<lambda>(p, c, v, w). ucast c) (filter (\<lambda>(p, c, v, w). w \<and> p = ''certification'')
        (map (job_view cfg) (map fst (warm @ cert)))))
      = (of_nat (length good * nat (TxPerBlock cfg (ph_TPS (cfg_Certification cfg)))) :: u64)"
    "filter (\<lambda>(p, c, v, w). \<not> v \<and> p = ''certification'') (map (job_view cfg) (map fst (warm @ cert)))
      = map (job_view cfg) (filter (\<lambda>j. bad_block cfg (bj_BlockIndex j)) (map fst cert))"
proof -
  let ?x = "TxPerBlock cfg (ph_TPS (cfg_Certification cfg))"
  have w: "j \<in> set (map fst warm) \<Longrightarrow> bj_Phase j = ''warmup''" for j
    using assms(2) by (auto simp: phase_plan_def list_all_iff)
  have c: "j \<in> set (map fst cert) \<Longrightarrow> bj_Phase j = ''certification''
      \<and> ucast (bc_TxCount (job_commit cfg j)) = (of_nat (nat ?x) :: u64)" for j
    using assms(1,3) synthetic_count [of cfg ?x j "bj_BlockIndex j"]
    by (auto simp: phase_plan_def list_all_iff run_fits_def good_lanes_def nat_less_iff)
  have none: "filter (\<lambda>(p, c, v, w). P v w \<and> p = ''certification'') (map (job_view cfg) (map fst warm)) = []" for P
    using w by (auto simp: filter_empty_conv job_view_def)
  have some: "filter (\<lambda>(p, c, v, w). w \<and> p = ''certification'') (map (job_view cfg) (map fst cert)) = map (job_view cfg) good"
    unfolding good_def by (rule view_filter(1)) (use c in blast)
  have "map (\<lambda>(p, c, v, w). ucast c) (map (job_view cfg) good) = map (\<lambda>j. of_nat (nat ?x) :: u64) good"
    unfolding map_map
  proof (rule map_cong [OF refl])
    fix j assume "j \<in> set good"
    then have "j \<in> set (map fst cert)" by (simp only: good_def set_filter mem_Collect_eq)
    from conjunct2 [OF c [OF this]] show "((\<lambda>(p, c, v, w). ucast c) \<circ> job_view cfg) j = (of_nat (nat ?x) :: u64)"
      by (simp only: job_view_def comp_def prod.case)
  qed
  then have "sum_list (map (\<lambda>(p, c, v, w). ucast c) (map (job_view cfg) good)) = (\<Sum>j \<leftarrow> good. of_nat (nat ?x) :: u64)"
    by (rule arg_cong)
  then show "sum_list (map (\<lambda>(p, c, v, w). ucast c) (filter (\<lambda>(p, c, v, w). w \<and> p = ''certification'')
        (map (job_view cfg) (map fst (warm @ cert))))) = (of_nat (length good * nat ?x) :: u64)"
    using none [of "\<lambda>v w. w"] some by (simp only: map_append filter_append append_Nil sum_list_triv of_nat_mult)
  show "filter (\<lambda>(p, c, v, w). \<not> v \<and> p = ''certification'') (map (job_view cfg) (map fst (warm @ cert)))
      = map (job_view cfg) (filter (\<lambda>j. bad_block cfg (bj_BlockIndex j)) (map fst cert))"
    using none [of "\<lambda>v w. \<not> v"] view_filter(2) [of "map fst cert" "''certification''" cfg, OF conjunct1 [OF c]]
    by (simp only: map_append filter_append append_Nil)
qed

lemma drained_run_log:
  assumes "NewRunner Stat Open Unmarshal cfg = Inr s0" "reach cfg (s0\<lparr> ru_todo := jobs \<rparr>) s"
    and "good_lanes cfg" "list_all (good_job cfg) (map fst jobs)" "distinct (map bj_BlockIndex (map fst jobs))"
    and "\<And>b. book_view (ru_book s0) b = GenerateProofBytes (cfg_ProofSeed cfg) b"
    and "run_ended s" "queues_drained s" "\<not> ru_cancelled s"
  shows "map entry_view (l1_blockLog (ru_l1 s)) = map (job_view cfg) (map fst jobs)"
proof -
  let ?P = "map fst jobs" and ?V = "book_view (ru_book s0)"
  obtain S B C R where f: "flow cfg ?P (ru_l1 s0) ?V S B C R s"
    using reach_flow [OF assms(2) flow_start [OF assms(1)]] by blast
  have "ru_todo s = []"
    using ing_end_todo [OF assms(2)] assms(7) NewRunner_fields(8) [OF assms(1)] by (simp add: run_ended_def)
  then have R: "R = map (job_commit cfg) ?P"
    using flow_prefix [OF f assms(3,4)] assms(7-9) by (auto simp: run_ended_def queues_drained_def)
  obtain ts where ts: "length ts = length ?P"
    "sans_metrics (ru_l1 s) = sans_metrics (snd (submit_all (plan_requests cfg ?V ts ?P) (ru_l1 s0)))"
    using f R by (auto simp: flow_def certified_def plan_requests_def comp_def)
  show ?thesis
    using sans_metrics_eqD(3) [OF ts(2)] plan_log [OF assms(6,5) ts(1), where m = NewRegistry and cfg = cfg] NewRunner_fields(13) [OF assms(1)]
    by simp
qed

lemma planned_jobs_good:
  assumes "run_fits cfg" "phase_plan cfg ''warmup'' (cfg_Warmup cfg) warm" "phase_plan cfg ''certification'' (cfg_Certification cfg) cert"
    and "map (bj_BlockIndex \<circ> fst) (warm @ cert) = map of_nat [0..<length warm + length cert]" "length warm + length cert \<le> 2 ^ 32"
  shows "list_all (good_job cfg) (map fst (warm @ cert))" "distinct (map bj_BlockIndex (map fst (warm @ cert)))"
proof -
  show "list_all (good_job cfg) (map fst (warm @ cert))"
    using assms(1-3) by (auto simp: phase_plan_def list_all_iff good_job_def run_fits_def nat_less_iff)
  have "inj_on (of_nat :: nat \<Rightarrow> u32) {0..<length warm + length cert}"
    using assms(5) by (intro inj_onI) (metis atLeastLessThan_iff order_less_le_trans unat_u32_small)
  then show "distinct (map bj_BlockIndex (map fst (warm @ cert)))"
    using assms(4) by (simp add: distinct_map comp_def del: map_append)
qed

text \<open>The verdict of a run that was not cancelled and ended with empty queues: as many proof failures as certification
  blocks were chosen for the bad proof; without them every expected transfer is verified; and the run passes exactly
  when there is no failure, no queue was ever found full, and the planned blocks carry rate times duration.\<close>

lemma drained_run_verdict:
  assumes "NewRunner Stat Open Unmarshal cfg = Inr s0" "run_fits cfg" "run_jobs cfg clock = Some jobs"
    and "reach cfg (s0\<lparr> ru_todo := jobs \<rparr>) s" "\<And>b. book_view (ru_book s0) b = GenerateProofBytes (cfg_ProofSeed cfg) b"
    and "run_ended s" "queues_drained s" "\<not> ru_cancelled s" "buildReport env cfg (ru_l1 s) = Some r"
  shows "rp_ProofFailures r = int (length (filter (\<lambda>j. bj_Phase j = ''certification'' \<and> bad_block cfg (bj_BlockIndex j)) (map fst jobs)))
    \<and> (rp_ProofFailures r = 0 \<longrightarrow> rp_CertificationVerifiedTx r = rp_ExpectedCertificationTx r)
    \<and> (rp_Pass r \<longleftrightarrow> rp_ProofFailures r = 0 \<and> rp_DropCount r = 0
        \<and> ph_TPS (cfg_Certification cfg) * ph_DurationSeconds (cfg_Certification cfg)
            \<le> planned_blocks cfg (cfg_Certification cfg) * TxPerBlock cfg (ph_TPS (cfg_Certification cfg)))"
proof -
  let ?x = "TxPerBlock cfg (ph_TPS (cfg_Certification cfg))" and ?k = "planned_blocks cfg (cfg_Certification cfg)"
  obtain warm cert where plan: "run_jobs cfg clock = Some (warm @ cert)" and warm: "phase_plan cfg ''warmup'' (cfg_Warmup cfg) warm"
    and cert: "phase_plan cfg ''certification'' (cfg_Certification cfg) cert"
    and index: "map (bj_BlockIndex \<circ> fst) (warm @ cert) = map of_nat [0..<length warm + length cert]"
      "length warm + length cert \<le> 2 ^ 32" and len: "length cert = nat ?k"
    by (rule planned_jobs [OF assms(2), of clock])
  have jobs: "jobs = warm @ cert" using plan assms(3) by simp
  have "good_lanes cfg" using assms(2) by (simp add: run_fits_def)
  note log = drained_run_log [OF assms(1) assms(4) this planned_jobs_good [OF assms(2) warm cert index, folded jobs] assms(5-8)]
  let ?bad = "filter (\<lambda>j. bad_block cfg (bj_BlockIndex j)) (map fst cert)"
    and ?good = "filter (\<lambda>j. \<not> bad_block cfg (bj_BlockIndex j)) (map fst cert)"
  note sums = plan_sums [OF assms(2) warm cert, folded jobs, folded log, folded view_sums(1)]
  have fails: "rp_ProofFailures r = int (length ?bad)"
    using buildReport_fields(2) [OF assms(9)] sums(2) by (simp only: view_sums(2) length_map)
  have verified: "rp_CertificationVerifiedTx r = of_nat (length ?good * nat ?x)"
    using buildReport_fields(1) [OF assms(9)] sums(1) by simp
  have "filter (\<lambda>j. bj_Phase j = ''certification'' \<and> bad_block cfg (bj_BlockIndex j)) (map fst warm) = []"
    using warm by (auto simp: phase_plan_def list_all_iff filter_empty_conv)
  moreover have "filter (\<lambda>j. bj_Phase j = ''certification'' \<and> bad_block cfg (bj_BlockIndex j)) (map fst cert) = ?bad"
  proof (rule filter_cong [OF refl])
    fix j assume "j \<in> set (map fst cert)"
    then have "bj_Phase j = ''certification''" using cert by (auto simp: phase_plan_def list_all_iff)
    then show "(bj_Phase j = ''certification'' \<and> bad_block cfg (bj_BlockIndex j)) = bad_block cfg (bj_BlockIndex j)" by blast
  qed
  ultimately have bads: "filter (\<lambda>j. bj_Phase j = ''certification'' \<and> bad_block cfg (bj_BlockIndex j)) (map fst jobs) = ?bad"
    by (simp only: jobs map_append filter_append append_Nil)
  have expected: "rp_ExpectedCertificationTx r = of_int (?k * ?x)"
    using buildReport_fields(5) [OF assms(9)] run_fits_blocks(3) [OF assms(2)] by auto
  note fits = assms(2) [unfolded run_fits_def valid_config_def]
  have small: "0 \<le> ?k * ?x" "?k * ?x < 2 ^ 53" using run_fits_blocks(4) [OF assms(2)] fits by auto
  have whole: "rp_CertificationVerifiedTx r = of_int (?k * ?x)" if "?bad = []"
  proof -
    have "?good = map fst cert" using that by (auto simp: filter_empty_conv filter_id_conv)
    then have "length ?good * nat ?x = nat (?k * ?x)"
      using len run_fits_blocks(4) [OF assms(2)] by (simp add: nat_mult_distrib)
    then show ?thesis using small(1) by (simp add: verified)
  qed
  have uint: "uint (of_int (?k * ?x) :: u64) = ?k * ?x"
    using small by (simp only: unsigned_of_int) (simp add: take_bit_int_eq_self)
  have pass: "rp_Pass r \<longleftrightarrow> ?bad = [] \<and> rp_DropCount r = 0
      \<and> ph_TPS (cfg_Certification cfg) * ph_DurationSeconds (cfg_Certification cfg) \<le> ?k * ?x"
  proof (cases "?bad = []")
    case True
    have "uint (rp_CertificationVerifiedTx r) = ?k * ?x" using whole [OF True] uint by simp
    then show ?thesis
      using True pass_threshold [OF assms(9)] buildReport_fields(4,7) [OF assms(9)] fits small(2) fails whole expected by simp blast
  next
    case False
    then have "rp_ProofFailures r \<noteq> 0" by (simp only: fails of_nat_eq_0_iff length_0_conv not_False_eq_True)
    then show ?thesis using False buildReport_fields(7) [OF assms(9)] by blast
  qed
  show ?thesis
    using pass whole expected by (simp only: bads fails of_nat_eq_0_iff length_0_conv) blast
qed

lemma smoke_fits: "run_fits (smoke_config 200 5000)"
proof -
  let ?cfg = "smoke_config 200 5000"
  have "0 \<le> TxPerBlock ?cfg t \<and> TxPerBlock ?cfg t \<le> 1000" if "t = 2000 \<or> t = 5000" for t
    using TxPerBlock_cases [of t ?cfg] that by auto
  from this [of 2000] this [of 5000] smoke_config_valid [of 200 5000] show ?thesis
    by (simp add: run_fits_def planned_blocks_def good_lanes_def)
qed

lemma buildReport_total: "BlocksForPhase cfg (cfg_Certification cfg) = Some blocks \<Longrightarrow> \<exists>r. buildReport env cfg n = Some r"
  by (cases "report_loop (BlockLogs n) (0, 0, 0)") (simp add: buildReport_def Let_def)

text \<open>A sample configuration whose plan can be run to its end.\<close>

lemma smoke_run:
  obtains s0 jobs s where "NewRunner (\<lambda>_. False) Open Unmarshal (smoke_config 200 5000) = Inr s0"
    "\<forall>b. book_view (ru_book s0) b = GenerateProofBytes (cfg_ProofSeed (smoke_config 200 5000)) b"
    "run_jobs (smoke_config 200 5000) (\<lambda>_. 0) = Some jobs" "reach (smoke_config 200 5000) (s0\<lparr> ru_todo := jobs \<rparr>) s"
    "run_ended s" "queues_drained s" "\<not> ru_cancelled s"
proof -
  let ?cfg = "smoke_config 200 5000"
  obtain s0 where s0: "NewRunner (\<lambda>_. False) Open Unmarshal ?cfg = Inr s0" "ru_book s0 = NewProofBook (cfg_ProofSeed ?cfg)"
    by (rule smoke_runner)
  obtain warm cert where plan: "run_jobs ?cfg (\<lambda>_. 0) = Some (warm @ cert)" "phase_plan ?cfg ''warmup'' (cfg_Warmup ?cfg) warm"
      "phase_plan ?cfg ''certification'' (cfg_Certification ?cfg) cert"
      "map (bj_BlockIndex \<circ> fst) (warm @ cert) = map of_nat [0..<length warm + length cert]" "length warm + length cert \<le> 2 ^ 32"
    by (rule planned_jobs [OF smoke_fits, of "\<lambda>_. 0"])
  have good: "good_lanes ?cfg" by (simp add: good_lanes_def)
  obtain s where s: "reach ?cfg (s0\<lparr> ru_todo := warm @ cert \<rparr>) s" "run_ended s" "queues_drained s" "\<not> ru_cancelled s"
    by (rule run_can_complete_state [OF s0(1) good planned_jobs_good(1) [OF smoke_fits plan(2-5)]])
  have "book_view (ru_book s0) b = GenerateProofBytes (cfg_ProofSeed ?cfg) b" for b using s0(2) by simp
  then show ?thesis using that s0(1) plan(1) s by blast
qed

section \<open>Waiting for room is counted as loss\<close>

text \<open>
  An enqueue that finds its queue full is tried again until it succeeds, but the drop counter is increased each time:
  one such wait and the verdict is negative although nothing was lost.
\<close>

lemma full_queue_counts_as_drop:
  assumes "ru_ing s \<noteq> Ing_end" "ru_todo s \<noteq> []" "\<not> ru_cancelled s"
    and "Enqueue (fst (hd (ru_todo s))) (ru_ingressQ s) = Some (False, q)" "ingress_step s = Some s'"
  shows "ru_todo s' = ru_todo s \<and> DropCount (l1_metrics (ru_l1 s')) = DropCount (l1_metrics (ru_l1 s)) + 1"
  using assms
  by (cases "ru_todo s"; cases "ru_ing s")
    (auto simp: ingress_step_def ingress_enqueue_def with_metrics_def IncDrop_def DropCount_def)

end
