(* ===== verification/Go_Unmarshal.thy ===== *)
theory Go_Unmarshal imports Go_Json begin

text \<open>
  The rest of \<^verbatim>\<open>encoding/json\<close> that \<^verbatim>\<open>cmd/kaia-proofctl\<close> uses: \<^verbatim>\<open>MarshalIndent\<close> with two blanks per level, and
  \<^verbatim>\<open>Unmarshal\<close> of nested structs, slices and arrays, which stores into an existing value.
\<close>

section \<open>MarshalIndent\<close>

definition newline_indent :: "nat \<Rightarrow> string" where
  "newline_indent d = CHR 0x0A # replicate (2 * d) (CHR '' '')"

fun json_text :: "nat \<Rightarrow> json \<Rightarrow> string"
  and json_elems :: "nat \<Rightarrow> json list \<Rightarrow> string"
  and json_fields :: "nat \<Rightarrow> (string \<times> json) list \<Rightarrow> string" where
  "json_text d JNull = ''null''"
| "json_text d (JBool b) = FormatBool b"
| "json_text d (JNum s) = s"
| "json_text d (JStr s) = json_string s"
| "json_text d (JArr vs) = (if vs = [] then ''[]'' else CHR ''['' # json_elems (Suc d) vs @ newline_indent d @ '']'')"
| "json_text d (JObj ms) = (if ms = [] then ''{}'' else CHR ''{'' # json_fields (Suc d) ms @ newline_indent d @ ''}'')"
| "json_elems d [] = []"
| "json_elems d (v # vs) = newline_indent d @ json_text d v @ (if vs = [] then [] else CHR '','' # json_elems d vs)"
| "json_fields d [] = []"
| "json_fields d ((k, v) # ms) = newline_indent d @ json_string k @ '': '' @ json_text d v
     @ (if ms = [] then [] else CHR '','' # json_fields d ms)"

definition MarshalIndent :: "json \<Rightarrow> string" where
  "MarshalIndent v = json_text 0 v"

section \<open>Unmarshal\<close>

text \<open>\<^verbatim>\<open>Unmarshal\<close> wants one value and nothing but white space after it.\<close>

definition json_whole :: "string \<Rightarrow> json option" where
  "json_whole s = (case parse_value (Suc (length s)) s of
     Some (v, rest) \<Rightarrow> if skip_space rest = [] then Some v else None | None \<Rightarrow> None)"

text \<open>
  A value is stored into what the variable holds; null leaves it alone, except that a slice becomes nil.
  An element of a repeated slice is stored into the element of that index it had before.
\<close>

type_synonym 'a into = "'a \<Rightarrow> json \<Rightarrow> 'a option"

definition into_string :: "string into" where
  "into_string old v = (case v of JNull \<Rightarrow> Some old | _ \<Rightarrow> as_string v)"

definition into_uint :: "'a::len word into" where
  "into_uint old v = (case v of JNull \<Rightarrow> Some old | _ \<Rightarrow> map_option of_nat (as_uint LENGTH('a) v))"

definition into_int64 :: "int into" where
  "into_int64 old v = (case v of JNull \<Rightarrow> Some old | _ \<Rightarrow> as_int64 v)"

fun into_elements :: "'a into \<Rightarrow> 'a \<Rightarrow> 'a list \<Rightarrow> json list \<Rightarrow> 'a list option" where
  "into_elements elem zero old [] = Some []"
| "into_elements elem zero old (v # vs) =
     Option.bind (elem (case old of [] \<Rightarrow> zero | x # _ \<Rightarrow> x) v) (\<lambda>y.
       map_option (\<lambda>ys. y # ys) (into_elements elem zero (case old of [] \<Rightarrow> [] | _ # xs \<Rightarrow> xs) vs))"

definition into_slice :: "'a into \<Rightarrow> 'a \<Rightarrow> 'a list into" where
  "into_slice elem zero old v = (case v of
     JNull \<Rightarrow> Some [] | JArr vs \<Rightarrow> into_elements elem zero old vs | _ \<Rightarrow> None)"

text \<open>An array of two: elements too many are skipped, missing ones become zero.\<close>

definition into_pair :: "'a into \<Rightarrow> 'a \<Rightarrow> ('a \<times> 'a) into" where
  "into_pair elem zero old v = (case v of
     JNull \<Rightarrow> Some old
   | JArr [] \<Rightarrow> Some (zero, zero)
   | JArr [a] \<Rightarrow> Option.bind (elem (fst old) a) (\<lambda>x. Some (x, zero))
   | JArr (a # b # _) \<Rightarrow> Option.bind (elem (fst old) a) (\<lambda>x. Option.bind (elem (snd old) b) (\<lambda>y. Some (x, y)))
   | _ \<Rightarrow> None)"

text \<open>A struct: the members in the order of the text, each into the field of its name.\<close>

fun find_field :: "(string \<times> 'r into) list \<Rightarrow> string \<Rightarrow> 'r into option" where
  "find_field [] k = None"
| "find_field ((name, f) # fs) k = (if map fold_char k = map fold_char name then Some f else find_field fs k)"

fun into_members :: "(string \<times> 'r into) list \<Rightarrow> 'r \<Rightarrow> (string \<times> json) list \<Rightarrow> 'r option" where
  "into_members fs r [] = Some r"
| "into_members fs r ((k, v) # ms) =
     (case find_field fs k of
        None \<Rightarrow> into_members fs r ms
      | Some f \<Rightarrow> Option.bind (f r v) (\<lambda>r. into_members fs r ms))"

definition into_struct :: "(string \<times> 'r into) list \<Rightarrow> 'r into" where
  "into_struct fs r v = (case v of JNull \<Rightarrow> Some r | JObj ms \<Rightarrow> into_members fs r ms | _ \<Rightarrow> None)"

text \<open>A field of a struct by its reading and its update.\<close>

definition field_into :: "'a into \<Rightarrow> ('r \<Rightarrow> 'a) \<Rightarrow> ('a \<Rightarrow> 'r \<Rightarrow> 'r) \<Rightarrow> 'r into" where
  "field_into dec rd upd r v = map_option (\<lambda>x. upd x r) (dec (rd r) v)"

section \<open>The indented text is read back\<close>

text \<open>Values whose numbers are integers.\<close>

fun plain_json :: "json \<Rightarrow> bool" where
  "plain_json (JNum s) \<longleftrightarrow> (\<exists>i. s = dec_int i)"
| "plain_json (JArr vs) \<longleftrightarrow> list_all plain_json vs"
| "plain_json (JObj ms) \<longleftrightarrow> list_all plain_json (map snd ms)"
| "plain_json _ \<longleftrightarrow> True"

text \<open>How deep the scanner has to go.\<close>

fun fuel_json :: "json \<Rightarrow> nat" and fuel_elems :: "json list \<Rightarrow> nat" and fuel_fields :: "(string \<times> json) list \<Rightarrow> nat" where
  "fuel_json (JArr vs) = Suc (fuel_elems vs)"
| "fuel_json (JObj ms) = Suc (fuel_fields ms)"
| "fuel_json _ = 1"
| "fuel_elems [] = 0"
| "fuel_elems (v # vs) = Suc (max (fuel_json v) (fuel_elems vs))"
| "fuel_fields [] = 0"
| "fuel_fields ((k, v) # ms) = Suc (max (fuel_json v) (fuel_fields ms))"

text \<open>What may follow a number.\<close>

definition stops :: "string \<Rightarrow> bool" where
  "stops rest \<longleftrightarrow> rest \<noteq> [] \<and> \<not> digit (hd rest) \<and> hd rest \<notin> {CHR ''.'', CHR ''e'', CHR ''E''}"

lemma skip_indent [simp]: "skip_space (newline_indent d @ s) = skip_space s"
proof -
  have "dropWhile json_space (replicate n (CHR '' '') @ s) = dropWhile json_space s" for n
    by (induction n) (simp_all add: json_space_def)
  then show ?thesis by (simp add: skip_space_def newline_indent_def json_space_def)
qed

lemma expect_indent [simp]: "expect c (newline_indent d @ s) = expect c s"
  by (simp add: expect_def)

lemma parse_value_indent [simp]: "parse_value n (newline_indent d @ s) = parse_value n s"
  by (cases n) simp_all

lemma more_marks [simp]: "\<not> json_space (CHR '']'')" "\<not> json_space (CHR ''['')"
  by (simp_all add: json_space_def)

lemma stops_marks [simp]:
  "stops (CHR '','' # s)" "stops (newline_indent d @ s)"
  by (simp_all add: stops_def digit_def newline_indent_def)

lemma parse_dec_int:
  assumes "stops rest" shows "parse_value (Suc n) (dec_int i @ rest) = Some (JNum (dec_int i), rest)"
proof -
  obtain c q where rest: "rest = c # q" "\<not> digit c" "c \<noteq> CHR ''.''" "c \<noteq> CHR ''e''" "c \<noteq> CHR ''E''"
    using assms by (cases rest) (auto simp: stops_def)
  show ?thesis
  proof (cases "i < 0")
    case True
    have "parse_number (CHR ''-'' # dec_nat (nat (- i)) @ c # q) = Some (CHR ''-'' # dec_nat (nat (- i)), c # q)"
      by (rule parse_whole(2)) (fact rest(2-5))+
    then show ?thesis using True by (simp only: rest(1) dec_int_def if_True append_Cons parse_value_number simp_thms)
  next
    case False
    obtain d ds where d: "dec_nat (nat i) = d # ds" by (metis dec_nat_not_Nil neq_Nil_conv)
    have "parse_number (dec_nat (nat i) @ c # q) = Some (dec_nat (nat i), c # q)"
      by (rule parse_whole(1)) (fact rest(2-5))+
    then show ?thesis using False digit_hd_dec [OF d]
      by (simp only: rest(1) dec_int_def if_False d append_Cons parse_value_number simp_thms)
  qed
qed

text \<open>The first character of a value's text is never a closing bracket.\<close>

lemma json_text_start:
  assumes "plain_json v"
  shows "\<exists>c r. json_text d v = c # r \<and> \<not> json_space c \<and> c \<noteq> CHR '']'' \<and> c \<noteq> CHR ''}''"
proof (cases v)
  case (JNum s)
  then obtain i where s: "s = dec_int i" using assms by auto
  have "\<exists>c r. dec_int i = c # r \<and> (digit c \<or> c = CHR ''-'')"
    by (cases "dec_nat (nat i)") (auto simp: dec_int_def dest: digit_hd_dec)
  moreover have "digit c \<or> c = CHR ''-'' \<Longrightarrow> \<not> json_space c \<and> c \<noteq> CHR '']'' \<and> c \<noteq> CHR ''}''" for c
    by (auto simp: digit_def json_space_def)
  ultimately show ?thesis using JNum s by auto
next
  case (JBool b)
  then show ?thesis by (cases b) (simp_all add: FormatBool_def json_space_def)
qed (simp_all add: json_string_def json_space_def)

lemma expect_value: "plain_json v \<Longrightarrow> c = CHR '']'' \<or> c = CHR ''}'' \<Longrightarrow> expect c (json_text d v @ rest) = None"
  using json_text_start [of v d] by (auto simp: expect_miss)

lemma expect_blank: "expect c (CHR '' '' # s) = expect c s" "parse_value n (CHR '' '' # s) = parse_value n s"
  by (cases n; simp add: expect_def skip_space_def json_space_def)+

lemma elems_start: "vs \<noteq> [] \<Longrightarrow> list_all plain_json vs \<Longrightarrow> expect (CHR '']'') (json_elems d vs @ rest) = None"
  by (cases vs) (simp_all add: expect_value)

lemma fields_start: "ms \<noteq> [] \<Longrightarrow> expect (CHR ''}'') (json_fields d ms @ rest) = None"
  by (cases ms) (auto simp: json_string_def expect_miss)

lemma parse_json_text:
  "plain_json v \<Longrightarrow> fuel_json v \<le> n \<Longrightarrow> ((\<exists>s. v = JNum s) \<longrightarrow> stops rest)
    \<Longrightarrow> parse_value n (json_text d v @ rest) = Some (v, rest)"
  "list_all plain_json vs \<Longrightarrow> vs \<noteq> [] \<Longrightarrow> fuel_elems vs \<le> n
    \<Longrightarrow> parse_elements n (json_elems d vs @ newline_indent e @ CHR '']'' # rest) = Some (vs, rest)"
  "list_all plain_json (map snd ms) \<Longrightarrow> ms \<noteq> [] \<Longrightarrow> fuel_fields ms \<le> n
    \<Longrightarrow> parse_members n (json_fields d ms @ newline_indent e @ CHR ''}'' # rest) = Some (ms, rest)"
proof (induction d v and d vs and d ms arbitrary: n rest and n rest e and n rest e rule: json_text_json_elems_json_fields.induct)
  case (1 d) then show ?case by (cases n) (simp_all add: skip_space_def json_space_def)
next
  case (2 d b) then show ?case by (cases n; cases b) (simp_all add: FormatBool_def skip_space_def json_space_def)
next
  case (3 d s)
  then obtain i m where i: "s = dec_int i" "n = Suc m" by (cases n) auto
  have "stops rest" using 3 by blast
  then show ?case unfolding i json_text.simps by (rule parse_dec_int)
next
  case (4 d s) then show ?case
    by (cases n) (simp_all add: json_string_def skip_space_def json_space_def parse_string_escaped)
next
  case (5 d vs)
  then obtain m where n: "n = Suc m" "fuel_elems vs \<le> m" by (cases n) auto
  show ?case
  proof (cases "vs = []")
    case True
    then show ?thesis by (simp add: n skip_space_def json_space_def expect_def)
  next
    case False
    then show ?thesis using 5 n elems_start [OF False]
      by (simp add: skip_space_def json_space_def)
  qed
next
  case (6 d ms)
  then obtain m where n: "n = Suc m" "fuel_fields ms \<le> m" by (cases n) auto
  show ?case
  proof (cases "ms = []")
    case True
    then show ?thesis by (simp add: n skip_space_def json_space_def expect_def)
  next
    case False
    then show ?thesis using 6 n fields_start [OF False]
      by (simp add: skip_space_def json_space_def)
  qed
next
  case (8 d v vs)
  then obtain m where n: "n = Suc m" "fuel_json v \<le> m" "fuel_elems vs \<le> m" by (cases n) auto
  show ?case
    using 8 n by (cases "vs = []") (simp_all add: expect_hit expect_miss)
next
  case (10 d k v ms)
  then obtain m where n: "n = Suc m" "fuel_json v \<le> m" "fuel_fields ms \<le> m" by (cases n) auto
  show ?case
    using 10 n by (cases "ms = []") (simp_all add: json_string_def parse_key expect_hit expect_miss expect_blank)
qed simp_all

lemma fuel_text:
  "plain_json v \<Longrightarrow> fuel_json v \<le> length (json_text d v)"
  "list_all plain_json vs \<Longrightarrow> fuel_elems vs \<le> length (json_elems d vs)"
  "list_all plain_json (map snd ms) \<Longrightarrow> fuel_fields ms \<le> length (json_fields d ms)"
proof (induction d v and d vs and d ms rule: json_text_json_elems_json_fields.induct)
  case (2 d b) then show ?case by (cases b) (simp_all add: FormatBool_def)
next
  case (3 d s)
  then obtain i where "s = dec_int i" by auto
  then have "s \<noteq> []" using dec_nat_not_Nil by (simp add: dec_int_def)
  then show ?case by (simp add: Suc_le_eq)
qed (auto simp: json_string_def newline_indent_def)

text \<open>A value other than a number: what follows cannot run into it.\<close>

definition bracketed :: "json \<Rightarrow> bool" where
  "bracketed v \<longleftrightarrow> (case v of JNum _ \<Rightarrow> False | _ \<Rightarrow> plain_json v)"

lemma json_whole_MarshalIndent:
  assumes "bracketed v" "skip_space rest = []"
  shows "json_whole (MarshalIndent v @ rest) = Some v"
proof -
  have p: "plain_json v" "\<not> (\<exists>s. v = JNum s)" using assms by (cases v; simp add: bracketed_def)+
  have "fuel_json v \<le> Suc (length (json_text 0 v @ rest))"
    using fuel_text(1) [OF p(1), of 0] by simp
  then have "parse_value (Suc (length (json_text 0 v @ rest))) (json_text 0 v @ rest) = Some (v, rest)"
    using p by (intro parse_json_text(1)) auto
  then show ?thesis using assms(2) by (simp only: json_whole_def MarshalIndent_def) simp
qed

end
