(* ===== verification/Proofctl_Bundle.thy ===== *)
theory Proofctl_Bundle imports Go_Unmarshal Proofctl_Text begin

text \<open>
  The certification bundle of \<^verbatim>\<open>cmd/kaia-proofctl\<close>: its JSON form, the points and artifacts made of it, the
  merging of a live bundle with a replayed one, and the lane heads read from the contract.
\<close>

section \<open>Points, keys, proofs and artifacts\<close>

record g1Point =
  g1_X :: int
  g1_Y :: int

record g2Point =
  g2_X :: "int \<times> int"
  g2_Y :: "int \<times> int"

record verifyingKey =
  vk_AlphaG1 :: g1Point
  vk_BetaG2 :: g2Point
  vk_GammaG2 :: g2Point
  vk_DeltaG2 :: g2Point
  vk_GammaAbcG1 :: "g1Point \<times> g1Point"

record batchTransitionProof =
  bp_A :: g1Point
  bp_B :: g2Point
  bp_C :: g1Point
  bp_D :: g1Point

record batchTransitionArtifact =
  ba_LaneId :: u16
  ba_BatchId :: u64
  ba_TxCount :: u32
  ba_PrevStateCommitment :: g1Point
  ba_NextStateCommitment :: g1Point
  ba_Proof :: batchTransitionProof

section \<open>The bundle file\<close>

record jsonG1Point =
  j1_X :: string
  j1_Y :: string

record jsonG2Point =
  j2_X :: "string \<times> string"
  j2_Y :: "string \<times> string"

record jsonVerifyingKey =
  jk_AlphaG1 :: jsonG1Point
  jk_BetaG2 :: jsonG2Point
  jk_GammaG2 :: jsonG2Point
  jk_DeltaG2 :: jsonG2Point
  jk_GammaAbcG1 :: "jsonG1Point \<times> jsonG1Point"

record jsonBatchTransitionProof =
  jp_A :: jsonG1Point
  jp_B :: jsonG2Point
  jp_C :: jsonG1Point
  jp_D :: jsonG1Point

record jsonBatchTransitionArtifact =
  ja_LaneID :: u16
  ja_BatchID :: u64
  ja_TxCount :: u32
  ja_PrevStateCommitment :: jsonG1Point
  ja_NextStateCommitment :: jsonG1Point
  ja_Proof :: jsonBatchTransitionProof

record jsonLaneHead =
  jh_LaneID :: u16
  jh_InitialHead :: jsonG1Point

text \<open>
  The nested structs \<^verbatim>\<open>Notes\<close>, \<^verbatim>\<open>VerifyBatchesInput\<close> and \<^verbatim>\<open>VerifyTenBatchesInput\<close> have one field each.
  Slices: nil and empty are not told apart.
\<close>

record jsonBundle =
  jb_VerifyingKey :: jsonVerifyingKey
  jb_LaneHeads :: "jsonLaneHead list"
  jb_VerifiedTxTotal :: u64
  jb_VerifyBatchesInput :: "jsonBatchTransitionArtifact list"
  jb_VerifyTenBatchesInput :: "jsonBatchTransitionArtifact list"

section \<open>From texts to numbers\<close>

text \<open>\<^const>\<open>None\<close> is the panic of \<^verbatim>\<open>mustBigInt\<close>, from here on.\<close>

definition toG1Point :: "jsonG1Point \<Rightarrow> g1Point option" where
  "toG1Point p =
     Option.bind (mustBigInt (j1_X p)) (\<lambda>x. Option.bind (mustBigInt (j1_Y p)) (\<lambda>y.
       Some \<lparr> g1_X = x, g1_Y = y \<rparr>))"

definition toG2Point :: "jsonG2Point \<Rightarrow> g2Point option" where
  "toG2Point p =
     Option.bind (mustBigInt (fst (j2_X p))) (\<lambda>x0. Option.bind (mustBigInt (snd (j2_X p))) (\<lambda>x1.
     Option.bind (mustBigInt (fst (j2_Y p))) (\<lambda>y0. Option.bind (mustBigInt (snd (j2_Y p))) (\<lambda>y1.
       Some \<lparr> g2_X = (x0, x1), g2_Y = (y0, y1) \<rparr>))))"

definition toVerifyingKey :: "jsonBundle \<Rightarrow> verifyingKey option" where
  "toVerifyingKey bundle = (let vk = jb_VerifyingKey bundle in
     Option.bind (toG1Point (jk_AlphaG1 vk)) (\<lambda>alpha.
     Option.bind (toG2Point (jk_BetaG2 vk)) (\<lambda>beta.
     Option.bind (toG2Point (jk_GammaG2 vk)) (\<lambda>gamma.
     Option.bind (toG2Point (jk_DeltaG2 vk)) (\<lambda>delta.
     Option.bind (toG1Point (fst (jk_GammaAbcG1 vk))) (\<lambda>abc0.
     Option.bind (toG1Point (snd (jk_GammaAbcG1 vk))) (\<lambda>abc1.
       Some \<lparr> vk_AlphaG1 = alpha, vk_BetaG2 = beta, vk_GammaG2 = gamma, vk_DeltaG2 = delta,
              vk_GammaAbcG1 = (abc0, abc1) \<rparr>)))))))"

definition toArtifact :: "jsonBatchTransitionArtifact \<Rightarrow> batchTransitionArtifact option" where
  "toArtifact a =
     Option.bind (toG1Point (ja_PrevStateCommitment a)) (\<lambda>prev.
     Option.bind (toG1Point (ja_NextStateCommitment a)) (\<lambda>nxt.
     Option.bind (toG1Point (jp_A (ja_Proof a))) (\<lambda>pa.
     Option.bind (toG2Point (jp_B (ja_Proof a))) (\<lambda>pb.
     Option.bind (toG1Point (jp_C (ja_Proof a))) (\<lambda>pc.
     Option.bind (toG1Point (jp_D (ja_Proof a))) (\<lambda>pd.
       Some \<lparr> ba_LaneId = ja_LaneID a, ba_BatchId = ja_BatchID a, ba_TxCount = ja_TxCount a,
              ba_PrevStateCommitment = prev, ba_NextStateCommitment = nxt,
              ba_Proof = \<lparr> bp_A = pa, bp_B = pb, bp_C = pc, bp_D = pd \<rparr> \<rparr>))))))"

fun convert_artifacts :: "jsonBatchTransitionArtifact list \<Rightarrow> batchTransitionArtifact list option" where
  "convert_artifacts [] = Some []"
| "convert_artifacts (a # as) =
     Option.bind (toArtifact a) (\<lambda>x. map_option (\<lambda>xs. x # xs) (convert_artifacts as))"

text \<open>The artifacts of a bundle, under either name.\<close>

definition bundle_source :: "jsonBundle \<Rightarrow> jsonBatchTransitionArtifact list" where
  "bundle_source bundle =
     (if jb_VerifyBatchesInput bundle = [] then jb_VerifyTenBatchesInput bundle else jb_VerifyBatchesInput bundle)"

definition toArtifacts :: "jsonBundle \<Rightarrow> (string + batchTransitionArtifact list \<times> u64) option" where
  "toArtifacts bundle =
     (let source = bundle_source bundle
      in if source = [] then Some (Inl ''bundle does not contain artifacts'')
         else map_option (\<lambda>result. Inr (result, jb_VerifiedTxTotal bundle)) (convert_artifacts source))"

section \<open>Live and replayed bundles\<close>

definition has_need :: "string \<Rightarrow> nat \<Rightarrow> string \<Rightarrow> int \<Rightarrow> string" where
  "has_need who n what need = who @ '' bundle has '' @ dec_nat n @ what @ dec_int need"

fun sum_tx_counts :: "jsonBatchTransitionArtifact list \<Rightarrow> u64 \<Rightarrow> u64" where
  "sum_tx_counts [] acc = acc"
| "sum_tx_counts (a # as) acc = sum_tx_counts as (acc + ucast (ja_TxCount a))"

definition slice_ok :: "int \<Rightarrow> int \<Rightarrow> nat \<Rightarrow> bool" where
  "slice_ok lo hi len \<longleftrightarrow> 0 \<le> lo \<and> lo \<le> hi \<and> hi \<le> int len"

text \<open>The merged bundle, or the message; \<^const>\<open>None\<close> is the panic of a slice bound.\<close>

definition mergeBundles :: "jsonBundle \<Rightarrow> jsonBundle \<Rightarrow> int \<Rightarrow> int \<Rightarrow> (string + jsonBundle) option" where
  "mergeBundles liveBundle replayBundle liveLaneCount totalLaneCount =
     (let liveArtifacts = bundle_source liveBundle;
          replayArtifacts = bundle_source replayBundle;
          liveHeads = jb_LaneHeads liveBundle;
          replayHeads = jb_LaneHeads replayBundle
      in if int (length liveArtifacts) < liveLaneCount
         then Some (Inl (has_need ''live'' (length liveArtifacts) '' artifacts, need '' liveLaneCount))
         else if int (length replayArtifacts) < totalLaneCount
         then Some (Inl (has_need ''replay'' (length replayArtifacts) '' artifacts, need at least '' totalLaneCount))
         else if int (length liveHeads) < liveLaneCount
         then Some (Inl (has_need ''live'' (length liveHeads) '' lane heads, need '' liveLaneCount))
         else if int (length replayHeads) < totalLaneCount
         then Some (Inl (has_need ''replay'' (length replayHeads) '' lane heads, need at least '' totalLaneCount))
         else if totalLaneCount < 0 \<or> \<not> slice_ok 0 liveLaneCount (length liveArtifacts)
             \<or> \<not> slice_ok liveLaneCount totalLaneCount (length replayArtifacts)
         then None
         else
           let l = nat liveLaneCount; t = nat totalLaneCount;
               mergedArtifacts = take l liveArtifacts @ go_slice l t replayArtifacts;
               mergedLaneHeads = take l liveHeads @ go_slice l t replayHeads;
               verifiedTxTotal = sum_tx_counts mergedArtifacts 0
           in Some (Inr (liveBundle\<lparr> jb_LaneHeads := mergedLaneHeads, jb_VerifiedTxTotal := verifiedTxTotal,
                jb_VerifyBatchesInput := mergedArtifacts, jb_VerifyTenBatchesInput := mergedArtifacts \<rparr>)))"

section \<open>The JSON of a bundle\<close>

definition zero_g1 :: jsonG1Point where "zero_g1 = \<lparr> j1_X = [], j1_Y = [] \<rparr>"
definition zero_g2 :: jsonG2Point where "zero_g2 = \<lparr> j2_X = ([], []), j2_Y = ([], []) \<rparr>"
definition zero_proof :: jsonBatchTransitionProof where
  "zero_proof = \<lparr> jp_A = zero_g1, jp_B = zero_g2, jp_C = zero_g1, jp_D = zero_g1 \<rparr>"
definition zero_artifact :: jsonBatchTransitionArtifact where
  "zero_artifact = \<lparr> ja_LaneID = 0, ja_BatchID = 0, ja_TxCount = 0, ja_PrevStateCommitment = zero_g1,
     ja_NextStateCommitment = zero_g1, ja_Proof = zero_proof \<rparr>"
definition zero_head :: jsonLaneHead where "zero_head = \<lparr> jh_LaneID = 0, jh_InitialHead = zero_g1 \<rparr>"
definition zero_vk :: jsonVerifyingKey where
  "zero_vk = \<lparr> jk_AlphaG1 = zero_g1, jk_BetaG2 = zero_g2, jk_GammaG2 = zero_g2, jk_DeltaG2 = zero_g2,
     jk_GammaAbcG1 = (zero_g1, zero_g1) \<rparr>"
definition zero_bundle :: jsonBundle where
  "zero_bundle = \<lparr> jb_VerifyingKey = zero_vk, jb_LaneHeads = [], jb_VerifiedTxTotal = 0,
     jb_VerifyBatchesInput = [], jb_VerifyTenBatchesInput = [] \<rparr>"

definition into_g1 :: "jsonG1Point into" where
  "into_g1 = into_struct [(''x'', field_into into_string j1_X (\<lambda>v. j1_X_update (\<lambda>_. v))),
     (''y'', field_into into_string j1_Y (\<lambda>v. j1_Y_update (\<lambda>_. v)))]"

definition into_g2 :: "jsonG2Point into" where
  "into_g2 = into_struct [(''x'', field_into (into_pair into_string []) j2_X (\<lambda>v. j2_X_update (\<lambda>_. v))),
     (''y'', field_into (into_pair into_string []) j2_Y (\<lambda>v. j2_Y_update (\<lambda>_. v)))]"

definition into_vk :: "jsonVerifyingKey into" where
  "into_vk = into_struct
    [(''alphaG1'', field_into into_g1 jk_AlphaG1 (\<lambda>v. jk_AlphaG1_update (\<lambda>_. v))),
     (''betaG2'', field_into into_g2 jk_BetaG2 (\<lambda>v. jk_BetaG2_update (\<lambda>_. v))),
     (''gammaG2'', field_into into_g2 jk_GammaG2 (\<lambda>v. jk_GammaG2_update (\<lambda>_. v))),
     (''deltaG2'', field_into into_g2 jk_DeltaG2 (\<lambda>v. jk_DeltaG2_update (\<lambda>_. v))),
     (''gammaAbcG1'', field_into (into_pair into_g1 zero_g1) jk_GammaAbcG1 (\<lambda>v. jk_GammaAbcG1_update (\<lambda>_. v)))]"

definition into_proof :: "jsonBatchTransitionProof into" where
  "into_proof = into_struct
    [(''a'', field_into into_g1 jp_A (\<lambda>v. jp_A_update (\<lambda>_. v))),
     (''b'', field_into into_g2 jp_B (\<lambda>v. jp_B_update (\<lambda>_. v))),
     (''c'', field_into into_g1 jp_C (\<lambda>v. jp_C_update (\<lambda>_. v))),
     (''d'', field_into into_g1 jp_D (\<lambda>v. jp_D_update (\<lambda>_. v)))]"

definition into_artifact :: "jsonBatchTransitionArtifact into" where
  "into_artifact = into_struct
    [(''laneId'', field_into into_uint ja_LaneID (\<lambda>v. ja_LaneID_update (\<lambda>_. v))),
     (''batchId'', field_into into_uint ja_BatchID (\<lambda>v. ja_BatchID_update (\<lambda>_. v))),
     (''txCount'', field_into into_uint ja_TxCount (\<lambda>v. ja_TxCount_update (\<lambda>_. v))),
     (''prevStateCommitment'', field_into into_g1 ja_PrevStateCommitment (\<lambda>v. ja_PrevStateCommitment_update (\<lambda>_. v))),
     (''nextStateCommitment'', field_into into_g1 ja_NextStateCommitment (\<lambda>v. ja_NextStateCommitment_update (\<lambda>_. v))),
     (''proof'', field_into into_proof ja_Proof (\<lambda>v. ja_Proof_update (\<lambda>_. v)))]"

definition into_head :: "jsonLaneHead into" where
  "into_head = into_struct
    [(''laneId'', field_into into_uint jh_LaneID (\<lambda>v. jh_LaneID_update (\<lambda>_. v))),
     (''initialHead'', field_into into_g1 jh_InitialHead (\<lambda>v. jh_InitialHead_update (\<lambda>_. v)))]"

definition into_artifacts :: "jsonBatchTransitionArtifact list into" where
  "into_artifacts = into_struct [(''artifacts'', into_slice into_artifact zero_artifact)]"

definition into_bundle :: "jsonBundle into" where
  "into_bundle = into_struct
    [(''verifyingKey'', field_into into_vk jb_VerifyingKey (\<lambda>v. jb_VerifyingKey_update (\<lambda>_. v))),
     (''laneHeads'', field_into (into_slice into_head zero_head) jb_LaneHeads (\<lambda>v. jb_LaneHeads_update (\<lambda>_. v))),
     (''notes'', field_into (into_struct [(''verified_tx_total'', into_uint)]) jb_VerifiedTxTotal
        (\<lambda>v. jb_VerifiedTxTotal_update (\<lambda>_. v))),
     (''verifyBatchesInput'', field_into into_artifacts jb_VerifyBatchesInput (\<lambda>v. jb_VerifyBatchesInput_update (\<lambda>_. v))),
     (''verifyTenBatchesInput'', field_into into_artifacts jb_VerifyTenBatchesInput
        (\<lambda>v. jb_VerifyTenBatchesInput_update (\<lambda>_. v)))]"

text \<open>\<^verbatim>\<open>json.Unmarshal\<close> into a fresh bundle; errors are not told apart.\<close>

definition Unmarshal_bundle :: "string \<Rightarrow> jsonBundle option" where
  "Unmarshal_bundle s = Option.bind (json_whole s) (into_bundle zero_bundle)"

definition loadBundle :: "(string \<Rightarrow> string + string) \<Rightarrow> string \<Rightarrow> string + jsonBundle" where
  "loadBundle ReadFile path = (case ReadFile path of
     Inl e \<Rightarrow> Inl e
   | Inr text \<Rightarrow> (case Unmarshal_bundle text of None \<Rightarrow> Inl ''invalid bundle json'' | Some b \<Rightarrow> Inr b))"

definition json_g1 :: "jsonG1Point \<Rightarrow> json" where
  "json_g1 p = JObj [(''x'', JStr (j1_X p)), (''y'', JStr (j1_Y p))]"

definition json_two :: "('a \<Rightarrow> json) \<Rightarrow> 'a \<times> 'a \<Rightarrow> json" where
  "json_two f p = JArr [f (fst p), f (snd p)]"

definition json_g2 :: "jsonG2Point \<Rightarrow> json" where
  "json_g2 p = JObj [(''x'', json_two JStr (j2_X p)), (''y'', json_two JStr (j2_Y p))]"

definition json_vk :: "jsonVerifyingKey \<Rightarrow> json" where
  "json_vk k = JObj [(''alphaG1'', json_g1 (jk_AlphaG1 k)), (''betaG2'', json_g2 (jk_BetaG2 k)),
     (''gammaG2'', json_g2 (jk_GammaG2 k)), (''deltaG2'', json_g2 (jk_DeltaG2 k)),
     (''gammaAbcG1'', json_two json_g1 (jk_GammaAbcG1 k))]"

definition json_word :: "'a::len word \<Rightarrow> json" where
  "json_word w = JNum (dec_nat (unat w))"

definition json_proof :: "jsonBatchTransitionProof \<Rightarrow> json" where
  "json_proof p = JObj [(''a'', json_g1 (jp_A p)), (''b'', json_g2 (jp_B p)), (''c'', json_g1 (jp_C p)),
     (''d'', json_g1 (jp_D p))]"

definition json_artifact :: "jsonBatchTransitionArtifact \<Rightarrow> json" where
  "json_artifact a = JObj [(''laneId'', json_word (ja_LaneID a)), (''batchId'', json_word (ja_BatchID a)),
     (''txCount'', json_word (ja_TxCount a)), (''prevStateCommitment'', json_g1 (ja_PrevStateCommitment a)),
     (''nextStateCommitment'', json_g1 (ja_NextStateCommitment a)), (''proof'', json_proof (ja_Proof a))]"

definition json_head :: "jsonLaneHead \<Rightarrow> json" where
  "json_head h = JObj [(''laneId'', json_word (jh_LaneID h)), (''initialHead'', json_g1 (jh_InitialHead h))]"

definition json_bundle :: "jsonBundle \<Rightarrow> json" where
  "json_bundle b = JObj [(''verifyingKey'', json_vk (jb_VerifyingKey b)),
     (''laneHeads'', JArr (map json_head (jb_LaneHeads b))),
     (''notes'', JObj [(''verified_tx_total'', json_word (jb_VerifiedTxTotal b))]),
     (''verifyBatchesInput'', JObj [(''artifacts'', JArr (map json_artifact (jb_VerifyBatchesInput b)))]),
     (''verifyTenBatchesInput'', JObj [(''artifacts'', JArr (map json_artifact (jb_VerifyTenBatchesInput b)))])]"

section \<open>A written bundle is loaded back\<close>

lemma bundle_names:
  "fold_char (CHR ''1'') = CHR ''1''" "fold_char (CHR ''2'') = CHR ''2''" "fold_char (CHR ''_'') = CHR ''_''"
  "fold_char (CHR ''a'') = CHR ''a''" "fold_char (CHR ''b'') = CHR ''b''" "fold_char (CHR ''c'') = CHR ''c''"
  "fold_char (CHR ''d'') = CHR ''d''" "fold_char (CHR ''e'') = CHR ''e''" "fold_char (CHR ''f'') = CHR ''f''"
  "fold_char (CHR ''g'') = CHR ''g''" "fold_char (CHR ''h'') = CHR ''h''" "fold_char (CHR ''i'') = CHR ''i''"
  "fold_char (CHR ''l'') = CHR ''l''" "fold_char (CHR ''m'') = CHR ''m''" "fold_char (CHR ''n'') = CHR ''n''"
  "fold_char (CHR ''o'') = CHR ''o''" "fold_char (CHR ''p'') = CHR ''p''" "fold_char (CHR ''r'') = CHR ''r''"
  "fold_char (CHR ''s'') = CHR ''s''" "fold_char (CHR ''t'') = CHR ''t''" "fold_char (CHR ''u'') = CHR ''u''"
  "fold_char (CHR ''v'') = CHR ''v''" "fold_char (CHR ''x'') = CHR ''x''" "fold_char (CHR ''y'') = CHR ''y''"
  "fold_char (CHR ''A'') = CHR ''a''" "fold_char (CHR ''B'') = CHR ''b''" "fold_char (CHR ''C'') = CHR ''c''"
  "fold_char (CHR ''G'') = CHR ''g''" "fold_char (CHR ''H'') = CHR ''h''" "fold_char (CHR ''I'') = CHR ''i''"
  "fold_char (CHR ''K'') = CHR ''k''" "fold_char (CHR ''S'') = CHR ''s''" "fold_char (CHR ''T'') = CHR ''t''"
  by (simp_all add: fold_char_def char_of_def bit_0)

lemmas into_simps = into_struct_def field_into_def bundle_names into_string_def into_pair_def into_slice_def json_two_def

lemma into_word [simp]: "into_uint old (json_word w) = Some (w :: 'a::len word)"
proof -
  have "unat w < 2 ^ LENGTH('a)" by (rule unsigned_less)
  then show ?thesis by (simp add: into_uint_def json_word_def)
qed

lemma into_g1_back [simp]: "into_g1 old (json_g1 p) = Some p"
  by (simp add: into_g1_def json_g1_def into_simps)

lemma into_g2_back [simp]: "into_g2 old (json_g2 p) = Some p"
  by (simp add: into_g2_def json_g2_def into_simps)

lemma into_vk_back [simp]: "into_vk old (json_vk k) = Some k"
  by (simp add: into_vk_def json_vk_def into_simps)

lemma into_proof_back [simp]: "into_proof old (json_proof p) = Some p"
  by (simp add: into_proof_def json_proof_def into_simps)

lemma into_artifact_back [simp]: "into_artifact old (json_artifact a) = Some a"
  by (simp add: into_artifact_def json_artifact_def into_simps)

lemma into_head_back [simp]: "into_head old (json_head h) = Some h"
  by (simp add: into_head_def json_head_def into_simps)

lemma into_elements_back:
  "(\<And>x y. elem x (enc y) = Some y) \<Longrightarrow> into_elements elem zero old (map enc ys) = Some ys"
  by (induction ys arbitrary: old) simp_all

lemma into_bundle_back [simp]: "into_bundle old (json_bundle b) = Some b"
  by (simp add: into_bundle_def json_bundle_def into_artifacts_def into_simps into_elements_back)

lemma dec_int_nat: "dec_nat n = dec_int (int n)"
  by (simp add: dec_int_def)

lemma plain_bundle_parts:
  "plain_json (json_word w)" "plain_json (json_g1 p)" "plain_json (json_g2 q)" "plain_json (json_head h)"
  "plain_json (json_vk k)" "plain_json (json_proof r)" "plain_json (json_artifact a)"
  by (auto simp: json_word_def json_g1_def json_g2_def json_head_def json_vk_def json_proof_def json_artifact_def json_two_def
      dec_int_nat)

lemma bracketed_bundle: "bracketed (json_bundle b)"
  by (simp add: bracketed_def json_bundle_def plain_bundle_parts list_all_iff)

lemma Unmarshal_bundle_back:
  "skip_space rest = [] \<Longrightarrow> Unmarshal_bundle (MarshalIndent (json_bundle b) @ rest) = Some b"
  by (simp add: Unmarshal_bundle_def json_whole_MarshalIndent [OF bracketed_bundle])

text \<open>C27. What \<^verbatim>\<open>json.MarshalIndent\<close> makes of a bundle and \<^verbatim>\<open>os.WriteFile\<close> stores is loaded back as the same bundle,
  whatever the strings in it.\<close>

theorem bundle_file_roundtrip:
  "loadBundle (\<lambda>p. if p = path then Inr (MarshalIndent (json_bundle b)) else ReadFile p) path = Inr b"
  using Unmarshal_bundle_back [of "[]" b] by (simp add: loadBundle_def skip_space_def)

section \<open>Which bundles convert\<close>

text \<open>The texts \<^verbatim>\<open>mustBigInt\<close> accepts: a sign, if any, and decimal digits, with white space around.\<close>

definition decimal_text :: "string \<Rightarrow> bool" where
  "decimal_text s \<longleftrightarrow> (let t = TrimSpace s;
     ds = (if t \<noteq> [] \<and> (hd t = CHR ''-'' \<or> hd t = CHR ''+'') then tl t else t)
     in ds \<noteq> [] \<and> list_all digit ds)"

definition decimal_g1 :: "jsonG1Point \<Rightarrow> bool" where
  "decimal_g1 p \<longleftrightarrow> decimal_text (j1_X p) \<and> decimal_text (j1_Y p)"

definition decimal_g2 :: "jsonG2Point \<Rightarrow> bool" where
  "decimal_g2 p \<longleftrightarrow> decimal_text (fst (j2_X p)) \<and> decimal_text (snd (j2_X p))
     \<and> decimal_text (fst (j2_Y p)) \<and> decimal_text (snd (j2_Y p))"

definition decimal_artifact :: "jsonBatchTransitionArtifact \<Rightarrow> bool" where
  "decimal_artifact a \<longleftrightarrow> decimal_g1 (ja_PrevStateCommitment a) \<and> decimal_g1 (ja_NextStateCommitment a)
     \<and> decimal_g1 (jp_A (ja_Proof a)) \<and> decimal_g2 (jp_B (ja_Proof a)) \<and> decimal_g1 (jp_C (ja_Proof a))
     \<and> decimal_g1 (jp_D (ja_Proof a))"

text \<open>Points and artifacts written in decimal.\<close>

definition show_g1 :: "g1Point \<Rightarrow> jsonG1Point" where
  "show_g1 p = \<lparr> j1_X = dec_int (g1_X p), j1_Y = dec_int (g1_Y p) \<rparr>"

definition show_g2 :: "g2Point \<Rightarrow> jsonG2Point" where
  "show_g2 p = \<lparr> j2_X = map_prod dec_int dec_int (g2_X p), j2_Y = map_prod dec_int dec_int (g2_Y p) \<rparr>"

definition show_artifact :: "batchTransitionArtifact \<Rightarrow> jsonBatchTransitionArtifact" where
  "show_artifact a = \<lparr> ja_LaneID = ba_LaneId a, ja_BatchID = ba_BatchId a, ja_TxCount = ba_TxCount a,
     ja_PrevStateCommitment = show_g1 (ba_PrevStateCommitment a), ja_NextStateCommitment = show_g1 (ba_NextStateCommitment a),
     ja_Proof = \<lparr> jp_A = show_g1 (bp_A (ba_Proof a)), jp_B = show_g2 (bp_B (ba_Proof a)),
       jp_C = show_g1 (bp_C (ba_Proof a)), jp_D = show_g1 (bp_D (ba_Proof a)) \<rparr> \<rparr>"

lemma digit_of_ten: "digit_of 10 c = None \<longleftrightarrow> \<not> digit c"
  by (auto simp: digit_of_def digit_def Let_def)

lemma read_base_ten: "read_base 10 s acc = None \<longleftrightarrow> \<not> list_all digit s"
proof (induction s arbitrary: acc)
  case (Cons c s)
  then show ?case by (cases "digit_of 10 c") (use digit_of_ten [of c] in simp_all)
qed simp

lemma decimal_text_iff: "decimal_text s \<longleftrightarrow> (\<exists>i. mustBigInt s = Some i)"
proof -
  have "mustBigInt s = None \<longleftrightarrow> \<not> decimal_text s"
    by (simp add: mustBigInt_def SetString_def decimal_text_def Let_def read_base_ten)
  then show ?thesis by (cases "mustBigInt s") auto
qed

lemma mustBigInt_dec [simp]: "mustBigInt (dec_int i) = Some i"
  using parse_dec(2) [of "[]" "[]" i] by simp

lemma decimal_g1_iff: "decimal_g1 p \<longleftrightarrow> (\<exists>q. toG1Point p = Some q)"
  by (auto simp: toG1Point_def decimal_g1_def decimal_text_iff split: bind_splits)

lemma decimal_g2_iff: "decimal_g2 p \<longleftrightarrow> (\<exists>q. toG2Point p = Some q)"
  by (auto simp: toG2Point_def decimal_g2_def decimal_text_iff split: bind_splits)

lemma decimal_artifact_iff: "decimal_artifact a \<longleftrightarrow> (\<exists>x. toArtifact a = Some x)"
  unfolding decimal_artifact_def decimal_g1_iff decimal_g2_iff
  by (auto simp: toArtifact_def split: bind_splits)

lemma toArtifact_keeps:
  "toArtifact a = Some x \<Longrightarrow> ba_LaneId x = ja_LaneID a \<and> ba_BatchId x = ja_BatchID a \<and> ba_TxCount x = ja_TxCount a"
  by (auto simp: toArtifact_def split: bind_splits)

lemma toG_show [simp]: "toG1Point (show_g1 p) = Some p" "toG2Point (show_g2 q) = Some q"
  by (simp_all add: toG1Point_def show_g1_def toG2Point_def show_g2_def)

lemma toArtifact_show [simp]: "toArtifact (show_artifact a) = Some a"
  by (simp add: toArtifact_def show_artifact_def)

lemma convert_artifacts_iff: "(\<exists>xs. convert_artifacts as = Some xs) \<longleftrightarrow> list_all decimal_artifact as"
  by (induction as) (auto simp: decimal_artifact_iff split: bind_splits)

lemma convert_artifacts_keeps:
  "convert_artifacts as = Some xs \<Longrightarrow> list_all2 (\<lambda>a x. toArtifact a = Some x) as xs"
  by (induction as arbitrary: xs) (auto split: bind_splits)

lemma convert_artifacts_show: "convert_artifacts (map show_artifact xs) = Some xs"
  by (induction xs) simp_all

text \<open>C25. A bundle converts without a panic exactly if every coordinate of the artifacts it uses is a decimal integer, and is
  refused with an error exactly if it has no artifacts; otherwise every artifact keeps its lane, batch and count, the
  recorded total is handed on, and artifacts that were written in decimal come back.\<close>

theorem bundle_conversion:
  "(toArtifacts b = None \<longleftrightarrow> \<not> list_all decimal_artifact (bundle_source b))
   \<and> ((\<exists>e. toArtifacts b = Some (Inl e)) \<longleftrightarrow> bundle_source b = [])
   \<and> (\<forall>xs n. toArtifacts b = Some (Inr (xs, n)) \<longrightarrow> n = jb_VerifiedTxTotal b
        \<and> map (\<lambda>x. (ba_LaneId x, ba_BatchId x, ba_TxCount x)) xs
          = map (\<lambda>a. (ja_LaneID a, ja_BatchID a, ja_TxCount a)) (bundle_source b))
   \<and> (\<forall>xs. bundle_source b = map show_artifact xs \<and> xs \<noteq> [] \<longrightarrow> toArtifacts b = Some (Inr (xs, jb_VerifiedTxTotal b)))"
proof -
  have keeps: "map (\<lambda>x. (ba_LaneId x, ba_BatchId x, ba_TxCount x)) xs = map (\<lambda>a. (ja_LaneID a, ja_BatchID a, ja_TxCount a)) as"
    if "list_all2 (\<lambda>a x. toArtifact a = Some x) as xs" for as xs
    using that by induction (simp_all add: toArtifact_keeps)
  show ?thesis
  proof (cases "bundle_source b = []")
    case False
    then show ?thesis
      using convert_artifacts_iff [of "bundle_source b"] keeps [OF convert_artifacts_keeps]
      by (cases "convert_artifacts (bundle_source b)") (auto simp: toArtifacts_def Let_def convert_artifacts_show)
  qed (simp add: toArtifacts_def)
qed

theorem bundle_conversion_witness:
  "let a = \<lparr> ba_LaneId = 3, ba_BatchId = 1, ba_TxCount = 20000, ba_PrevStateCommitment = \<lparr> g1_X = 1, g1_Y = 2 \<rparr>,
       ba_NextStateCommitment = \<lparr> g1_X = -1, g1_Y = 0 \<rparr>, ba_Proof = \<lparr> bp_A = \<lparr> g1_X = 1, g1_Y = 2 \<rparr>,
         bp_B = \<lparr> g2_X = (1, 2), g2_Y = (3, 4) \<rparr>, bp_C = \<lparr> g1_X = 1, g1_Y = 2 \<rparr>, bp_D = \<lparr> g1_X = 1, g1_Y = 2 \<rparr> \<rparr> \<rparr>
   in toArtifacts (zero_bundle\<lparr> jb_VerifyTenBatchesInput := map show_artifact [a] \<rparr>) = Some (Inr ([a], 0))"
  unfolding Let_def
  by (rule bundle_conversion [THEN conjunct2, THEN conjunct2, THEN conjunct2, THEN spec, THEN mp, THEN trans])
    (simp_all add: bundle_source_def zero_bundle_def)

section \<open>Merging\<close>

lemma sum_tx_counts_eq: "sum_tx_counts as acc = acc + of_nat (\<Sum>a \<leftarrow> as. unat (ja_TxCount a))"
proof (induction as arbitrary: acc)
  case (Cons a as)
  have "ucast (ja_TxCount a) = (of_nat (unat (ja_TxCount a)) :: u64)" by simp
  then show ?case using Cons by simp
qed simp

text \<open>The first elements of one list and the others of another.\<close>

lemma spliced:
  assumes "0 < k" "k \<le> n" "k \<le> int (length xs)" "n \<le> int (length ys)"
  shows "length (take (nat k) xs @ go_slice (nat k) (nat n) ys) = nat n"
    "i < nat n \<Longrightarrow> (take (nat k) xs @ go_slice (nat k) (nat n) ys) ! i = (if i < nat k then xs ! i else ys ! i)"
  using assms by (auto simp: go_slice_def nth_append)

lemma merge_sources:
  assumes "mergeBundles l r k n = Some (Inr m)" "0 < k" "k \<le> n"
  shows "length (bundle_source m) = nat n
    \<and> (\<forall>i < nat n. bundle_source m ! i = (if i < nat k then bundle_source l ! i else bundle_source r ! i))"
proof -
  have long: "k \<le> int (length (bundle_source l))" "n \<le> int (length (bundle_source r))"
    and m: "bundle_source m = take (nat k) (bundle_source l) @ go_slice (nat k) (nat n) (bundle_source r)"
    using assms by (auto simp: mergeBundles_def Let_def bundle_source_def split: if_splits)
  show ?thesis unfolding m using spliced [OF assms(2,3) long] by blast
qed

text \<open>C26. Of two bundles that are long enough, the merged one has the first lanes of the live bundle and the other lanes of
  the replayed one, each at its index, under the live bundle's key, with the sum of their counts, under both names;
  otherwise there is an error, and never a panic.\<close>

theorem merge_takes_lanes:
  assumes k: "0 < k" "k \<le> n"
  shows "\<exists>res. mergeBundles l r k n = Some res
    \<and> ((\<exists>m. res = Inr m) \<longleftrightarrow> k \<le> int (length (bundle_source l)) \<and> k \<le> int (length (jb_LaneHeads l))
        \<and> n \<le> int (length (bundle_source r)) \<and> n \<le> int (length (jb_LaneHeads r)))
    \<and> (\<forall>m. res = Inr m \<longrightarrow> jb_VerifyingKey m = jb_VerifyingKey l \<and> jb_VerifyTenBatchesInput m = bundle_source m
        \<and> length (bundle_source m) = nat n \<and> length (jb_LaneHeads m) = nat n
        \<and> (\<forall>i < nat n. bundle_source m ! i = (if i < nat k then bundle_source l ! i else bundle_source r ! i)
             \<and> jb_LaneHeads m ! i = (if i < nat k then jb_LaneHeads l ! i else jb_LaneHeads r ! i))
        \<and> jb_VerifiedTxTotal m = of_nat (\<Sum>a \<leftarrow> bundle_source m. unat (ja_TxCount a)))"
proof -
  let ?enough = "k \<le> int (length (bundle_source l)) \<and> k \<le> int (length (jb_LaneHeads l))
        \<and> n \<le> int (length (bundle_source r)) \<and> n \<le> int (length (jb_LaneHeads r))"
  show ?thesis
  proof (cases ?enough)
    case False
    then show ?thesis by (auto simp: mergeBundles_def Let_def)
  next
    case True
    define A H where "A = take (nat k) (bundle_source l) @ go_slice (nat k) (nat n) (bundle_source r)"
      and "H = take (nat k) (jb_LaneHeads l) @ go_slice (nat k) (nat n) (jb_LaneHeads r)"
    define m where "m = l\<lparr> jb_LaneHeads := H, jb_VerifiedTxTotal := sum_tx_counts A 0,
        jb_VerifyBatchesInput := A, jb_VerifyTenBatchesInput := A \<rparr>"
    have e: "mergeBundles l r k n = Some (Inr m)"
      using True k by (simp add: mergeBundles_def Let_def slice_ok_def m_def A_def H_def)
    have A: "length A = nat n" "i < nat n \<Longrightarrow> A ! i = (if i < nat k then bundle_source l ! i else bundle_source r ! i)" for i
      unfolding A_def using True spliced [OF k, of "bundle_source l" "bundle_source r"] by blast+
    have H: "length H = nat n" "i < nat n \<Longrightarrow> H ! i = (if i < nat k then jb_LaneHeads l ! i else jb_LaneHeads r ! i)" for i
      unfolding H_def using True spliced [OF k, of "jb_LaneHeads l" "jb_LaneHeads r"] by blast+
    have src: "bundle_source m = A" "jb_LaneHeads m = H" by (simp_all add: bundle_source_def m_def)
    then show ?thesis
      using True A H by (auto simp: e m_def sum_tx_counts_eq)
  qed
qed

theorem merge_takes_lanes_witness:
  "let a = zero_artifact\<lparr> ja_TxCount := 5 \<rparr>;
       l = zero_bundle\<lparr> jb_LaneHeads := [zero_head], jb_VerifyBatchesInput := [zero_artifact] \<rparr>;
       r = zero_bundle\<lparr> jb_LaneHeads := [zero_head, zero_head], jb_VerifyTenBatchesInput := [a, a] \<rparr>
   in \<exists>m. mergeBundles l r 1 2 = Some (Inr m) \<and> length (bundle_source m) = 2 \<and> bundle_source m ! 1 = a"
  using merge_takes_lanes [of 1 2 "zero_bundle\<lparr> jb_LaneHeads := [zero_head], jb_VerifyBatchesInput := [zero_artifact] \<rparr>"
      "zero_bundle\<lparr> jb_LaneHeads := [zero_head, zero_head],
        jb_VerifyTenBatchesInput := [zero_artifact\<lparr> ja_TxCount := 5 \<rparr>, zero_artifact\<lparr> ja_TxCount := 5 \<rparr>] \<rparr>"]
  by (auto simp: bundle_source_def zero_bundle_def Let_def)

end
