(* ===== verification/Report_Files.thy ===== *)
theory Report_Files imports Report Proofctl_Bundle begin

text \<open>
  \<^verbatim>\<open>WriteReport\<close>: the directory and the three files of a report, with every way in which writing them can fail.  The
  file system is a parameter; it also has the clock and \<^verbatim>\<open>strconv\<close>'s shortest text of a float64.
\<close>

section \<open>JSON\<close>

definition json_BlockLog :: "(rat \<Rightarrow> string) \<Rightarrow> BlockLog \<Rightarrow> json" where
  "json_BlockLog FormatFloat b = JObj ([(''phase'', JStr (bl_Phase b)), (''block_index'', json_word (bl_BlockIndex b)),
      (''tx_count'', json_word (bl_TxCount b)), (''proof_verified'', JBool (bl_ProofVerified b)),
      (''finalized'', JBool (bl_Finalized b)), (''duplicate'', JBool (bl_Duplicate b)),
      (''state_applied'', JBool (bl_StateApplied b)), (''state_version'', json_word (bl_StateVersion b)),
      (''delta_count'', JNum (dec_int (bl_DeltaCount b)))]
    @ (if bl_Error b = [] then [] else [(''error'', JStr (bl_Error b))])
    @ [(''finalize_latency_ms'', JNum (FormatFloat (bl_FinalizeMs b))), (''commitment_hash'', JStr (bl_CommitmentHash b))])"

definition json_Report :: "(rat \<Rightarrow> string) \<Rightarrow> Report \<Rightarrow> json" where
  "json_Report FormatFloat r = JObj [(''config_name'', JStr (rp_ConfigName r)), (''started_at'', JStr (rp_StartedAt r)),
     (''finished_at'', JStr (rp_FinishedAt r)), (''host'', JStr (rp_Host r)), (''go_version'', JStr (rp_GoVersion r)),
     (''config_sha256'', JStr (rp_ConfigSHA256 r)), (''binary_sha256'', JStr (rp_BinarySHA256 r)),
     (''block_time_millis'', JNum (dec_int (rp_BlockTimeMillis r))), (''gas_limit'', json_word (rp_GasLimit r)),
     (''lanes'', JNum (dec_int (rp_Lanes r))), (''expected_certification_tx'', json_word (rp_ExpectedCertificationTx r)),
     (''certification_seconds'', JNum (dec_int (rp_CertificationSeconds r))),
     (''certification_tps_goal'', JNum (dec_int (rp_CertificationTPSGoal r))),
     (''certification_verified_tx'', json_word (rp_CertificationVerifiedTx r)),
     (''certification_avg_tps'', JNum (FormatFloat (rp_CertificationAvgTPS r))),
     (''certified_blocks'', JNum (dec_int (rp_CertifiedBlocks r))), (''proof_failures'', JNum (dec_int (rp_ProofFailures r))),
     (''drop_count'', json_word (rp_DropCount r)), (''average_finalize_ms'', JNum (FormatFloat (rp_AverageFinalizeMs r))),
     (''pass'', JBool (rp_Pass r)), (''assumptions'', JArr (map JStr (rp_Assumptions r))),
     (''blocks'', JArr (map (json_BlockLog FormatFloat) (rp_Blocks r)))]"

section \<open>Writing\<close>

text \<open>
  A call returns an error or nothing.  The CSV file is written through a buffer: a line that is written may still be in it,
  and \<open>Flush\<close>, which \<^verbatim>\<open>writeCSV\<close> defers together with closing the file, tells nobody whether it succeeded.
\<close>

record 'w files =
  Files_Clean :: "string \<Rightarrow> string"
  Files_Join :: "string \<Rightarrow> string \<Rightarrow> string"
  Files_MkdirAll :: "string \<Rightarrow> 'w \<Rightarrow> string option \<times> 'w"
  Files_WriteFile :: "string \<Rightarrow> string \<Rightarrow> 'w \<Rightarrow> string option \<times> 'w"
  Files_Create :: "string \<Rightarrow> 'w \<Rightarrow> string option \<times> 'w"
  Files_WriteLine :: "string \<Rightarrow> string \<Rightarrow> 'w \<Rightarrow> string option \<times> 'w"
  Files_Flush :: "string \<Rightarrow> 'w \<Rightarrow> 'w"
  Files_Stamp :: "'w \<Rightarrow> string \<times> 'w"
  Files_FormatFloat :: "rat \<Rightarrow> string"

datatype report_error =
    EnsureDir string
  | WriteJSONReport string
  | CreateCSVReport string
  | WriteCSVHeader string
  | WriteCSVRecord string
  | WriteMarkdownReport string

definition EnsureReportDir :: "'w files \<Rightarrow> string \<Rightarrow> 'w \<Rightarrow> string option \<times> 'w" where
  "EnsureReportDir io path = Files_MkdirAll io (Files_Clean io path)"

definition writeJSON_file :: "'w files \<Rightarrow> string \<Rightarrow> Report \<Rightarrow> 'w \<Rightarrow> report_error option \<times> 'w" where
  "writeJSON_file io path report w =
     (case Files_WriteFile io path (MarshalIndent (json_Report (Files_FormatFloat io) report)) w of
        (Some e, w) \<Rightarrow> (Some (WriteJSONReport e), w)
      | (None, w) \<Rightarrow> (None, w))"

fun write_records :: "'w files \<Rightarrow> string \<Rightarrow> BlockLog list \<Rightarrow> 'w \<Rightarrow> report_error option \<times> 'w" where
  "write_records io path [] w = (None, w)"
| "write_records io path (b # bs) w =
     (case Files_WriteLine io path (csv_join (csv_record b)) w of
        (Some e, w) \<Rightarrow> (Some (WriteCSVRecord e), w)
      | (None, w) \<Rightarrow> write_records io path bs w)"

definition writeCSV_file :: "'w files \<Rightarrow> string \<Rightarrow> BlockLog list \<Rightarrow> 'w \<Rightarrow> report_error option \<times> 'w" where
  "writeCSV_file io path blocks w =
     (case Files_Create io path w of
        (Some e, w) \<Rightarrow> (Some (CreateCSVReport e), w)
      | (None, w) \<Rightarrow>
          let (err, w) = (case Files_WriteLine io path (csv_join csv_header) w of
                 (Some e, w) \<Rightarrow> (Some (WriteCSVHeader e), w)
               | (None, w) \<Rightarrow> write_records io path blocks w)
          in (err, Files_Flush io path w))"

definition writeMarkdown_file :: "'w files \<Rightarrow> string \<Rightarrow> Report \<Rightarrow> string \<Rightarrow> string \<Rightarrow> 'w \<Rightarrow> report_error option \<times> 'w" where
  "writeMarkdown_file io path report jsonPath csvPath w =
     (case Files_WriteFile io path (writeMarkdown report jsonPath csvPath) w of
        (Some e, w) \<Rightarrow> (Some (WriteMarkdownReport e), w)
      | (None, w) \<Rightarrow> (None, w))"

definition WriteReport :: "'w files \<Rightarrow> string \<Rightarrow> Report \<Rightarrow> 'w \<Rightarrow> (report_error + string) \<times> 'w" where
  "WriteReport io dir report w =
     (case EnsureReportDir io dir w of
        (Some e, w) \<Rightarrow> (Inl (EnsureDir e), w)
      | (None, w) \<Rightarrow>
          let (ts, w) = Files_Stamp io w;
              base = Files_Join io dir (''cert-report-'' @ ts);
              jsonPath = base @ ''.json''
          in case writeJSON_file io jsonPath report w of
               (Some e, w) \<Rightarrow> (Inl e, w)
             | (None, w) \<Rightarrow>
                 let csvPath = base @ ''.csv''
                 in case writeCSV_file io csvPath (rp_Blocks report) w of
                      (Some e, w) \<Rightarrow> (Inl e, w)
                    | (None, w) \<Rightarrow>
                        let mdPath = base @ ''.md''
                        in case writeMarkdown_file io mdPath report jsonPath csvPath w of
                             (Some e, w) \<Rightarrow> (Inl e, w)
                           | (None, w) \<Rightarrow> (Inr jsonPath, w))"

section \<open>What is on the disk afterwards\<close>

text \<open>
  A file system as it is documented: \<open>content\<close> is what the files hold and \<open>pending\<close> what is still in the buffer.  No call
  changes another file; a call that succeeds does what it says.
\<close>

definition keeps_files :: "'w files \<Rightarrow> ('w \<Rightarrow> string \<Rightarrow> string option) \<Rightarrow> ('w \<Rightarrow> string) \<Rightarrow> bool" where
  "keeps_files io content pending \<longleftrightarrow>
     (\<forall>dir w. content (snd (Files_MkdirAll io dir w)) = content w)
   \<and> (\<forall>w. content (snd (Files_Stamp io w)) = content w)
   \<and> (\<forall>path q text w. q \<noteq> path \<longrightarrow> content (snd (Files_WriteFile io path text w)) q = content w q)
   \<and> (\<forall>path text w w'. Files_WriteFile io path text w = (None, w') \<longrightarrow> content w' path = Some text)
   \<and> (\<forall>path q w. q \<noteq> path \<longrightarrow> content (snd (Files_Create io path w)) q = content w q)
   \<and> (\<forall>path w w'. Files_Create io path w = (None, w') \<longrightarrow> content w' path = Some [] \<and> pending w' = [])
   \<and> (\<forall>path q line w. q \<noteq> path \<longrightarrow> content (snd (Files_WriteLine io path line w)) q = content w q)
   \<and> (\<forall>path line w w' t. Files_WriteLine io path line w = (None, w') \<longrightarrow> content w path = Some t \<longrightarrow>
        (\<exists>t'. content w' path = Some t' \<and> t' @ pending w' = t @ pending w @ line))
   \<and> (\<forall>path q w. q \<noteq> path \<longrightarrow> content (Files_Flush io path w) q = content w q)"

text \<open>A flush that does write the buffer out.\<close>

definition flushes :: "'w files \<Rightarrow> ('w \<Rightarrow> string \<Rightarrow> string option) \<Rightarrow> ('w \<Rightarrow> string) \<Rightarrow> bool" where
  "flushes io content pending \<longleftrightarrow>
     (\<forall>path w t. content w path = Some t \<longrightarrow> content (Files_Flush io path w) path = Some (t @ pending w))"

lemma keeps_others:
  assumes "keeps_files io content pending"
  shows "content (snd (Files_MkdirAll io dir w)) = content w" "content (snd (Files_Stamp io w)) = content w"
    "q \<noteq> path \<Longrightarrow> content (snd (Files_WriteFile io path text w)) q = content w q"
    "q \<noteq> path \<Longrightarrow> content (snd (Files_Create io path w)) q = content w q"
    "q \<noteq> path \<Longrightarrow> content (snd (Files_WriteLine io path text w)) q = content w q"
    "q \<noteq> path \<Longrightarrow> content (Files_Flush io path w) q = content w q"
proof -
  note k = assms [unfolded keeps_files_def]
  show "content (snd (Files_MkdirAll io dir w)) = content w" by (rule k [THEN conjunct1, rule_format])
  show "content (snd (Files_Stamp io w)) = content w" by (rule k [THEN conjunct2, THEN conjunct1, rule_format])
  show "q \<noteq> path \<Longrightarrow> content (snd (Files_WriteFile io path text w)) q = content w q" by (rule k [THEN conjunct2, THEN conjunct2, THEN conjunct1, rule_format])
  show "q \<noteq> path \<Longrightarrow> content (snd (Files_Create io path w)) q = content w q" by (rule k [THEN conjunct2, THEN conjunct2, THEN conjunct2, THEN conjunct2, THEN conjunct1, rule_format])
  show "q \<noteq> path \<Longrightarrow> content (snd (Files_WriteLine io path text w)) q = content w q" by (rule k [THEN conjunct2, THEN conjunct2, THEN conjunct2, THEN conjunct2, THEN conjunct2, THEN conjunct2, THEN conjunct1, rule_format])
  show "q \<noteq> path \<Longrightarrow> content (Files_Flush io path w) q = content w q" by (rule k [THEN conjunct2, THEN conjunct2, THEN conjunct2, THEN conjunct2, THEN conjunct2, THEN conjunct2, THEN conjunct2, THEN conjunct2, rule_format])
qed

lemma keeps_written:
  assumes "keeps_files io content pending"
  shows "Files_WriteFile io path text w = (None, w') \<Longrightarrow> content w' path = Some text"
    "Files_Create io path w = (None, w') \<Longrightarrow> content w' path = Some [] \<and> pending w' = []"
    "Files_WriteLine io path line w = (None, w') \<Longrightarrow> content w path = Some t \<Longrightarrow>
       \<exists>t'. content w' path = Some t' \<and> t' @ pending w' = t @ pending w @ line"
proof -
  note k = assms [unfolded keeps_files_def]
  show "Files_WriteFile io path text w = (None, w') \<Longrightarrow> content w' path = Some text" by (rule k [THEN conjunct2, THEN conjunct2, THEN conjunct2, THEN conjunct1, rule_format])
  show "Files_Create io path w = (None, w') \<Longrightarrow> content w' path = Some [] \<and> pending w' = []" by (rule k [THEN conjunct2, THEN conjunct2, THEN conjunct2, THEN conjunct2, THEN conjunct2, THEN conjunct1, rule_format])
  show "Files_WriteLine io path line w = (None, w') \<Longrightarrow> content w path = Some t \<Longrightarrow>
       \<exists>t'. content w' path = Some t' \<and> t' @ pending w' = t @ pending w @ line" by (rule k [THEN conjunct2, THEN conjunct2, THEN conjunct2, THEN conjunct2, THEN conjunct2, THEN conjunct2, THEN conjunct2, THEN conjunct1, rule_format])
qed

lemma write_records_written:
  assumes "keeps_files io content pending"
  shows "write_records io path bs w = (None, w') \<Longrightarrow> content w path = Some t \<Longrightarrow>
    \<exists>t'. content w' path = Some t' \<and> t' @ pending w' = t @ pending w @ concat (map csv_join (map csv_record bs))"
proof (induction bs arbitrary: w t)
  case (Cons b bs)
  obtain w1 where w1: "Files_WriteLine io path (csv_join (csv_record b)) w = (None, w1)" "write_records io path bs w1 = (None, w')"
    using Cons.prems(1) by (auto split: prod.splits option.splits)
  obtain t1 where t1: "content w1 path = Some t1" "t1 @ pending w1 = t @ pending w @ csv_join (csv_record b)"
    using keeps_written(3) [OF assms w1(1) Cons.prems(2)] by blast
  obtain t' where "content w' path = Some t'" "t' @ pending w' = t1 @ pending w1 @ concat (map csv_join (map csv_record bs))"
    using Cons.IH [OF w1(2) t1(1)] by blast
  then show ?case using t1(2) by (metis append.assoc concat.simps(2) list.map(2))
qed simp

lemma write_records_others:
  assumes "keeps_files io content pending" "q \<noteq> path"
  shows "content (snd (write_records io path bs w)) q = content w q"
proof (induction bs arbitrary: w)
  case (Cons b bs)
  then show ?case
    using keeps_others(5) [OF assms, of "csv_join (csv_record b)" w]
    by (cases "Files_WriteLine io path (csv_join (csv_record b)) w") (auto split: option.splits)
qed simp

lemma writeCSV_others:
  assumes "keeps_files io content pending" "q \<noteq> path"
  shows "content (snd (writeCSV_file io path bs w)) q = content w q"
proof -
  obtain e1 w1 where w1: "Files_Create io path w = (e1, w1)" by force
  obtain e2 w2 where w2: "Files_WriteLine io path (csv_join csv_header) w1 = (e2, w2)" by force
  have "content w1 q = content w q" using keeps_others(4) [OF assms, of w] w1 by simp
  moreover have "content w2 q = content w1 q" using keeps_others(5) [OF assms, of "csv_join csv_header" w1] w2 by simp
  ultimately show ?thesis
    using write_records_others [OF assms, of bs w2] keeps_others(6) [OF assms]
    by (cases "write_records io path bs w2") (auto simp: writeCSV_file_def w1 w2 split: option.splits)
qed

lemma writeCSV_written:
  assumes "keeps_files io content pending" "flushes io content pending" "writeCSV_file io path bs w = (None, w')"
  shows "content w' path = Some (writeCSV bs)"
proof -
  obtain w1 where w1: "Files_Create io path w = (None, w1)"
    using assms(3) by (auto simp: writeCSV_file_def split: prod.splits option.splits)
  then obtain w2 where w2: "Files_WriteLine io path (csv_join csv_header) w1 = (None, w2)"
    using assms(3) by (auto simp: writeCSV_file_def split: prod.splits option.splits)
  then obtain w3 where w3: "write_records io path bs w2 = (None, w3)" "w' = Files_Flush io path w3"
    using assms(3) w1 by (auto simp: writeCSV_file_def split: prod.splits)
  have c: "content w1 path = Some []" "pending w1 = []" using keeps_written(2) [OF assms(1) w1] by simp_all
  obtain t where t: "content w2 path = Some t" "t @ pending w2 = csv_join csv_header"
    using keeps_written(3) [OF assms(1) w2 c(1)] c(2) by auto
  obtain t' where t': "content w3 path = Some t'" "t' @ pending w3 = t @ pending w2 @ concat (map csv_join (map csv_record bs))"
    using write_records_written [OF assms(1) w3(1) t(1)] by blast
  have "t' @ pending w3 = writeCSV bs" using t(2) t'(2) by (simp add: writeCSV_def flip: append.assoc)
  then show ?thesis using assms(2) t'(1) by (auto simp: flushes_def w3(2))
qed

definition report_base :: "'w files \<Rightarrow> string \<Rightarrow> 'w \<Rightarrow> string" where
  "report_base io dir w = Files_Join io dir (''cert-report-'' @ fst (Files_Stamp io (snd (EnsureReportDir io dir w))))"

lemma WriteReport_steps:
  assumes "WriteReport io dir report w = (r, w')"
  obtains (dir) e where "EnsureReportDir io dir w = (Some e, w')" "r = Inl (EnsureDir e)"
    | (json) w1 e where "EnsureReportDir io dir w = (None, w1)"
        "writeJSON_file io (report_base io dir w @ ''.json'') report (snd (Files_Stamp io w1)) = (Some e, w')" "r = Inl e"
    | (csv) w1 w2 e where "EnsureReportDir io dir w = (None, w1)"
        "writeJSON_file io (report_base io dir w @ ''.json'') report (snd (Files_Stamp io w1)) = (None, w2)"
        "writeCSV_file io (report_base io dir w @ ''.csv'') (rp_Blocks report) w2 = (Some e, w')" "r = Inl e"
    | (md) w1 w2 w3 e where "EnsureReportDir io dir w = (None, w1)"
        "writeJSON_file io (report_base io dir w @ ''.json'') report (snd (Files_Stamp io w1)) = (None, w2)"
        "writeCSV_file io (report_base io dir w @ ''.csv'') (rp_Blocks report) w2 = (None, w3)"
        "writeMarkdown_file io (report_base io dir w @ ''.md'') report (report_base io dir w @ ''.json'')
           (report_base io dir w @ ''.csv'') w3 = (e, w')"
        "r = (case e of None \<Rightarrow> Inr (report_base io dir w @ ''.json'') | Some e \<Rightarrow> Inl e)"
  using assms unfolding WriteReport_def report_base_def Let_def
  by (cases "EnsureReportDir io dir w"; cases "fst (EnsureReportDir io dir w)") (auto split: prod.splits option.splits)

lemma writeFile_others:
  assumes "keeps_files io content pending" "q \<noteq> path"
  shows "content (snd (writeJSON_file io path report w)) q = content w q"
    "content (snd (writeMarkdown_file io path report j c w)) q = content w q"
  using keeps_others(3) [OF assms, of _ w]
  by (simp_all add: writeJSON_file_def writeMarkdown_file_def split: prod.split option.split) (metis snd_conv)+

lemma writeFile_written:
  assumes "keeps_files io content pending"
  shows "writeJSON_file io path report w = (None, w') \<Longrightarrow>
      content w' path = Some (MarshalIndent (json_Report (Files_FormatFloat io) report))"
    "writeMarkdown_file io path report j c w = (None, w') \<Longrightarrow> content w' path = Some (writeMarkdown report j c)"
  using keeps_written(1) [OF assms]
  by (auto simp: writeJSON_file_def writeMarkdown_file_def split: prod.splits option.splits)

text \<open>C39. Writing a report touches no file but its three.  When it succeeds, it returns the path of the JSON file, which holds
  the report, the Markdown file holds its text and names the other two, and the CSV file, if the buffer could be written out,
  holds the header and every block.\<close>

theorem report_files_written:
  assumes "keeps_files io content pending" "WriteReport io dir report w = (r, w')"
  shows "(\<forall>q. q \<notin> {report_base io dir w @ ''.json'', report_base io dir w @ ''.csv'', report_base io dir w @ ''.md''}
        \<longrightarrow> content w' q = content w q)
    \<and> (\<forall>path. r = Inr path \<longrightarrow> path = report_base io dir w @ ''.json''
        \<and> content w' path = Some (MarshalIndent (json_Report (Files_FormatFloat io) report))
        \<and> content w' (report_base io dir w @ ''.md'') = Some (writeMarkdown report path (report_base io dir w @ ''.csv''))
        \<and> (flushes io content pending \<longrightarrow> content w' (report_base io dir w @ ''.csv'') = Some (writeCSV (rp_Blocks report))))"
proof -
  let ?b = "report_base io dir w"
  have start: "EnsureReportDir io dir w = (e, w1) \<Longrightarrow> content (snd (Files_Stamp io w1)) = content w \<and> content w1 = content w" for e w1
    using keeps_others(1,2) [OF assms(1)] by (metis EnsureReportDir_def snd_conv)
  have jo: "writeJSON_file io path report v = (e, v') \<Longrightarrow> q \<noteq> path \<Longrightarrow> content v' q = content v q" for path v e v' q
    using writeFile_others(1) [OF assms(1)] by (metis snd_conv)
  have co: "writeCSV_file io path bs v = (e, v') \<Longrightarrow> q \<noteq> path \<Longrightarrow> content v' q = content v q" for path bs v e v' q
    using writeCSV_others [OF assms(1)] by (metis snd_conv)
  have mo: "writeMarkdown_file io path report j c v = (e, v') \<Longrightarrow> q \<noteq> path \<Longrightarrow> content v' q = content v q" for path j c v e v' q
    using writeFile_others(2) [OF assms(1)] by (metis snd_conv)
  show ?thesis using assms(2)
  proof (cases rule: WriteReport_steps)
    case (dir e)
    then show ?thesis using start by auto
  next
    case (json w1 e)
    then show ?thesis using start [OF json(1)] jo [OF json(2)] by auto
  next
    case (csv w1 w2 e)
    then show ?thesis using start [OF csv(1)] jo [OF csv(2)] co [OF csv(3)] by auto
  next
    case (md w1 w2 w3 e)
    have others: "\<forall>q. q \<notin> {?b @ ''.json'', ?b @ ''.csv'', ?b @ ''.md''} \<longrightarrow> content w' q = content w q"
      using start [OF md(1)] jo [OF md(2)] co [OF md(3)] mo [OF md(4)] by auto
    show ?thesis
    proof (cases e)
      case None
      have "content w' (?b @ ''.json'') = Some (MarshalIndent (json_Report (Files_FormatFloat io) report))"
        using writeFile_written(1) [OF assms(1) md(2)] co [OF md(3), of "?b @ ''.json''"] mo [OF md(4), of "?b @ ''.json''"] by simp
      moreover have "content w' (?b @ ''.md'') = Some (writeMarkdown report (?b @ ''.json'') (?b @ ''.csv''))"
        using writeFile_written(2) [OF assms(1)] md(4) None by blast
      moreover have "flushes io content pending \<Longrightarrow> content w' (?b @ ''.csv'') = Some (writeCSV (rp_Blocks report))"
        using writeCSV_written [OF assms(1) _ md(3)] mo [OF md(4), of "?b @ ''.csv''"] by simp
      ultimately show ?thesis using others md(5) None by simp
    qed (use others md(5) in simp)
  qed
qed

text \<open>A disk in memory, which has room for the buffer or not.\<close>

definition memory_disk :: "bool \<Rightarrow> ((string \<Rightarrow> string option) \<times> string) files" where
  "memory_disk room = \<lparr> Files_Clean = \<lambda>p. p, Files_Join = \<lambda>d f. d @ ''/'' @ f, Files_MkdirAll = \<lambda>d w. (None, w),
     Files_WriteFile = \<lambda>p t (fs, buf). (None, fs(p \<mapsto> t), buf), Files_Create = \<lambda>p (fs, buf). (None, fs(p \<mapsto> []), []),
     Files_WriteLine = \<lambda>p l (fs, buf). (None, fs, buf @ l),
     Files_Flush = \<lambda>p (fs, buf). (if room then fs(p := map_option (\<lambda>t. t @ buf) (fs p)) else fs, []),
     Files_Stamp = \<lambda>w. (''20240102-030405'', w), Files_FormatFloat = \<lambda>x. dec_int \<lfloor>x\<rfloor> \<rparr>"

lemma memory_disk_keeps: "keeps_files (memory_disk room) fst snd"
  by (auto simp: keeps_files_def memory_disk_def)

lemma memory_disk_flushes: "flushes (memory_disk True) fst snd"
  by (auto simp: flushes_def memory_disk_def)

lemma memory_disk_simps [simp]:
  "EnsureReportDir (memory_disk room) d w = (None, w)" "Files_WriteFile (memory_disk room) p t (fs, buf) = (None, fs(p \<mapsto> t), buf)"
  "Files_Create (memory_disk room) p (fs, buf) = (None, fs(p \<mapsto> []), [])"
  "Files_WriteLine (memory_disk room) p l (fs, buf) = (None, fs, buf @ l)" "Files_Stamp (memory_disk room) w = (''20240102-030405'', w)"
  "Files_Flush (memory_disk room) p (fs, buf) = (if room then fs(p := map_option (\<lambda>t. t @ buf) (fs p)) else fs, [])"
  "Files_Join (memory_disk room) d f = d @ ''/'' @ f"
  by (simp_all add: memory_disk_def EnsureReportDir_def)

lemma memory_disk_records [simp]:
  "write_records (memory_disk room) p bs (fs, buf) = (None, fs, buf @ concat (map (csv_join \<circ> csv_record) bs))"
  by (induction bs arbitrary: buf) simp_all

lemma memory_disk_report:
  "\<exists>fs. WriteReport (memory_disk room) ''r'' report (Map.empty, []) = (Inr ''r/cert-report-20240102-030405.json'', fs, [])
     \<and> (\<not> room \<longrightarrow> fs ''r/cert-report-20240102-030405.csv'' = Some [])"
  by (auto simp: WriteReport_def writeJSON_file_def writeCSV_file_def writeMarkdown_file_def Let_def)

text \<open>
  An error of the buffer's last write is lost: the report is announced as written although its CSV file is empty.
\<close>

lemma lost_csv:
  "\<exists>path w'. WriteReport (memory_disk False) ''r'' report (Map.empty, []) = (Inr path, w')
     \<and> fst w' ''r/cert-report-20240102-030405.csv'' = Some [] \<and> writeCSV (rp_Blocks report) \<noteq> []"
  using memory_disk_report [of False report] by (auto simp: writeCSV_def csv_header_def)

theorem report_files_written_witness:
  "\<forall>report. \<exists>w'. WriteReport (memory_disk True) ''r'' report (Map.empty, []) = (Inr ''r/cert-report-20240102-030405.json'', w')
     \<and> fst w' ''r/cert-report-20240102-030405.csv'' = Some (writeCSV (rp_Blocks report)) \<and> fst w' ''other'' = None"
proof
  fix report
  obtain w' where w': "WriteReport (memory_disk True) ''r'' report (Map.empty, []) = (Inr ''r/cert-report-20240102-030405.json'', w')"
    using memory_disk_report by blast
  have base: "report_base (memory_disk True) ''r'' (Map.empty, []) = ''r/cert-report-20240102-030405''"
    by (simp add: report_base_def)
  show "\<exists>w'. WriteReport (memory_disk True) ''r'' report (Map.empty, []) = (Inr ''r/cert-report-20240102-030405.json'', w')
     \<and> fst w' ''r/cert-report-20240102-030405.csv'' = Some (writeCSV (rp_Blocks report)) \<and> fst w' ''other'' = None"
    using report_files_written [OF memory_disk_keeps w'] w' memory_disk_flushes by (auto simp: base)
qed

end
