(* ===== verification/Datasets.thy ===== *)
theory Datasets imports Stages begin

text \<open>
  \<^verbatim>\<open>internal/pipeline/datasets.go\<close>: the binary file of all transfers, the manifest that says where each
  block lies in it, and the proof data set.  The file system is a parameter; each call returns an
  error or nothing.
\<close>

section \<open>Data\<close>

record TxBlockIndex =
  ti_BlockIndex :: u32
  ti_OffsetBytes :: int
  ti_TxCount :: int
  ti_Phase :: string

record TxDatasetManifest =
  tm_Version :: string
  tm_Name :: string
  tm_Blocks :: "TxBlockIndex list"

record DatasetPaths =
  dp_TxBlobPath :: string
  dp_TxManifestPath :: string
  dp_ProofDatasetPath :: string

datatype dataset_error =
    CreateTxDir string
  | CreateProofDirectory string
  | CreateTxBlob string
  | WriteTxBlob string
  | WriteTxManifest string
  | WriteProofDataset proof_error
  | PanicDivideByZero

record FileSystem =
  fs_MkdirAll :: "string \<Rightarrow> string option"
  fs_Create :: "string \<Rightarrow> string option"
  fs_WriteBlob :: "byte list \<Rightarrow> byte list \<Rightarrow> string option"
  fs_WriteManifest :: "string \<Rightarrow> TxDatasetManifest \<Rightarrow> string option"
  fs_WriteProofs :: "string \<Rightarrow> string option"
  fs_Join :: "string \<Rightarrow> string \<Rightarrow> string"

section \<open>Generation\<close>

record DatasetLoop =
  dl_blob :: "byte list"
  dl_offset :: int
  dl_blockIndex :: u32
  dl_blocks :: "TxBlockIndex list"

fun write_txs :: "FileSystem \<Rightarrow> Tx12 list \<Rightarrow> DatasetLoop \<Rightarrow> dataset_error + DatasetLoop" where
  "write_txs fs [] l = Inr l"
| "write_txs fs (tx # txs) l =
     (let enc = Tx12_MarshalBinary tx in
      case fs_WriteBlob fs (dl_blob l) enc of
        Some e \<Rightarrow> Inl (WriteTxBlob e)
      | None \<Rightarrow> write_txs fs txs (l\<lparr> dl_blob := dl_blob l @ enc,
                                       dl_offset := wrap64 (dl_offset l + int (length enc)) \<rparr>))"

fun write_blocks :: "FileSystem \<Rightarrow> string \<Rightarrow> int \<Rightarrow> nat \<Rightarrow> DatasetLoop \<Rightarrow> dataset_error + DatasetLoop" where
  "write_blocks fs name txPerBlock 0 l = Inr l"
| "write_blocks fs name txPerBlock (Suc n) l =
     bind_res (write_txs fs (GenerateSyntheticTxs (dl_blockIndex l) txPerBlock) l) (\<lambda>l.
       write_blocks fs name txPerBlock n
         (l\<lparr> dl_blocks := dl_blocks l @ [\<lparr> ti_BlockIndex = dl_blockIndex l,
               ti_OffsetBytes = wrap64 (dl_offset l - wrap64 (txPerBlock * 12)),
               ti_TxCount = txPerBlock, ti_Phase = name \<rparr>],
             dl_blockIndex := dl_blockIndex l + 1 \<rparr>))"

definition write_phase :: "FileSystem \<Rightarrow> Config \<Rightarrow> string \<times> Phase \<Rightarrow> DatasetLoop \<Rightarrow> dataset_error + DatasetLoop" where
  "write_phase fs cfg p l =
     (case BlocksForPhase cfg (snd p) of
        None \<Rightarrow> Inl PanicDivideByZero
      | Some blocks \<Rightarrow> write_blocks fs (fst p) (TxPerBlock cfg (ph_TPS (snd p))) (nat blocks) l)"

text \<open>The result is the paths with what was written: the blob, the manifest and the proof lines.\<close>

definition GenerateDatasets ::
    "FileSystem \<Rightarrow> Config \<Rightarrow> string \<Rightarrow> string
     \<Rightarrow> dataset_error + (DatasetPaths \<times> byte list \<times> TxDatasetManifest \<times> string)" where
  "GenerateDatasets fs cfg txDir proofDir =
     (case fs_MkdirAll fs txDir of Some e \<Rightarrow> Inl (CreateTxDir e)
      | None \<Rightarrow> (case fs_MkdirAll fs proofDir of Some e \<Rightarrow> Inl (CreateProofDirectory e)
      | None \<Rightarrow>
      let txBlobPath = fs_Join fs txDir ''tx_dataset.bin'' in
      (case fs_Create fs txBlobPath of Some e \<Rightarrow> Inl (CreateTxBlob e)
      | None \<Rightarrow>
      bind_res (write_phase fs cfg (''warmup'', cfg_Warmup cfg)
          \<lparr> dl_blob = [], dl_offset = 0, dl_blockIndex = 0, dl_blocks = [] \<rparr>) (\<lambda>l.
      bind_res (write_phase fs cfg (''certification'', cfg_Certification cfg) l) (\<lambda>l.
        let manifest = \<lparr> tm_Version = ''v1'', tm_Name = cfg_Name cfg, tm_Blocks = dl_blocks l \<rparr>;
            txManifestPath = fs_Join fs txDir ''tx_dataset_manifest.json''
        in case fs_WriteManifest fs txManifestPath manifest of Some e \<Rightarrow> Inl (WriteTxManifest e)
        | None \<Rightarrow>
          let proofPath = fs_Join fs proofDir ''proof_dataset.jsonl''
          in case SaveJSONL (fs_MkdirAll fs) (fs_Create fs) (fs_WriteProofs fs) proofPath
                    (int (unat (dl_blockIndex l))) (NewProofBook (cfg_ProofSeed cfg)) of
               (Some e, _, _) \<Rightarrow> Inl (WriteProofDataset e)
             | (None, content, _) \<Rightarrow>
                 Inr (\<lparr> dp_TxBlobPath = txBlobPath, dp_TxManifestPath = txManifestPath,
                        dp_ProofDatasetPath = proofPath \<rparr>, dl_blob l, manifest, content))))))"

section \<open>The manifest locates every block\<close>

definition locates :: "byte list \<Rightarrow> TxBlockIndex \<Rightarrow> bool" where
  "locates blob e \<longleftrightarrow> 0 \<le> ti_TxCount e \<and> 0 \<le> ti_OffsetBytes e
     \<and> nat (ti_OffsetBytes e) + nat (ti_TxCount e) * 12 \<le> length blob
     \<and> go_slice (nat (ti_OffsetBytes e)) (nat (ti_OffsetBytes e) + nat (ti_TxCount e) * 12) blob
       = EncodeTxSlice (GenerateSyntheticTxs (ti_BlockIndex e) (ti_TxCount e))"

definition loop_ok :: "DatasetLoop \<Rightarrow> bool" where
  "loop_ok l \<longleftrightarrow> dl_offset l = wrap64 (int (length (dl_blob l)))
     \<and> dl_blockIndex l = of_nat (length (dl_blocks l))
     \<and> map ti_BlockIndex (dl_blocks l) = map of_nat [0..<length (dl_blocks l)]
     \<and> (int (length (dl_blob l)) < 2 ^ 63 \<longrightarrow> list_all (locates (dl_blob l)) (dl_blocks l))"

lemma wrap64_add: "wrap64 (wrap64 a + b) = wrap64 (a + b)"
  using signed_take_bit_add [of 63 "signed_take_bit 63 a" b] signed_take_bit_add [of 63 a b]
  by (simp add: wrap64_def)

lemma locates_append: "locates blob e \<Longrightarrow> locates (blob @ xs) e"
  by (auto simp: locates_def go_slice_append_left)

lemma write_txs_appends:
  "write_txs fs txs l = Inr l' \<Longrightarrow> l' = l\<lparr> dl_blob := dl_blob l @ EncodeTxSlice txs,
     dl_offset := dl_offset l' \<rparr> \<and> (dl_offset l = wrap64 (int (length (dl_blob l)))
     \<longrightarrow> dl_offset l' = wrap64 (int (length (dl_blob l'))))"
proof (induction txs arbitrary: l)
  case Nil
  then show ?case by (simp add: EncodeTxSlice_concat)
next
  case (Cons tx txs)
  let ?l = "l\<lparr> dl_blob := dl_blob l @ Tx12_MarshalBinary tx, dl_offset := wrap64 (dl_offset l + 12) \<rparr>"
  have "write_txs fs txs ?l = Inr l'" using Cons.prems by (simp add: Let_def split: option.splits)
  from Cons.IH [OF this] show ?case
    by (auto simp: EncodeTxSlice_concat wrap64_add add.commute)
qed

lemma write_blocks_ok:
  "write_blocks fs name n k l = Inr l' \<Longrightarrow> loop_ok l \<Longrightarrow> 0 \<le> n \<Longrightarrow> loop_ok l'"
proof (induction k arbitrary: l)
  case 0
  then show ?case by simp
next
  case (Suc k)
  let ?txs = "GenerateSyntheticTxs (dl_blockIndex l) n"
  obtain l1 where l1: "write_txs fs ?txs l = Inr l1"
    and rest: "write_blocks fs name n k (l1\<lparr> dl_blocks := dl_blocks l1 @ [\<lparr> ti_BlockIndex = dl_blockIndex l1,
               ti_OffsetBytes = wrap64 (dl_offset l1 - wrap64 (n * 12)), ti_TxCount = n, ti_Phase = name \<rparr>],
             dl_blockIndex := dl_blockIndex l1 + 1 \<rparr>) = Inr l'"
    using Suc.prems(1) by (auto simp: bind_res_eq_Inr)
  have f: "dl_blob l1 = dl_blob l @ EncodeTxSlice ?txs" "dl_blocks l1 = dl_blocks l" "dl_blockIndex l1 = dl_blockIndex l"
    "dl_offset l1 = wrap64 (int (length (dl_blob l1)))"
    using write_txs_appends [OF l1] Suc.prems(2) by (auto simp: loop_ok_def dest: arg_cong [where f = dl_blob]
        arg_cong [where f = dl_blocks] arg_cong [where f = dl_blockIndex])
  let ?e = "\<lparr> ti_BlockIndex = dl_blockIndex l, ti_OffsetBytes = wrap64 (dl_offset l1 - wrap64 (n * 12)),
      ti_TxCount = n, ti_Phase = name \<rparr>"
  have loc: "locates (dl_blob l1) ?e" if small: "int (length (dl_blob l1)) < 2 ^ 63"
  proof -
    have len: "length (dl_blob l1) = length (dl_blob l) + nat n * 12" by (simp add: f(1))
    then have "0 \<le> n * 12" "n * 12 < 2 ^ 63" using small Suc.prems(3) by linarith+
    then have "wrap64 (n * 12) = n * 12" "dl_offset l1 = int (length (dl_blob l1))"
      using small f(4) by (simp_all add: wrap64_small)
    moreover have "int (length (dl_blob l1)) - n * 12 = int (length (dl_blob l))"
      using len Suc.prems(3) by simp
    moreover have "wrap64 (int (length (dl_blob l))) = int (length (dl_blob l))"
    proof (intro wrap64_small)
      show "int (length (dl_blob l)) < 2 ^ 63" using small unfolding len by linarith
    qed simp
    ultimately have "ti_OffsetBytes ?e = int (length (dl_blob l))" by simp
    then show ?thesis using Suc.prems(3) len by (simp add: locates_def f(1) go_slice_def)
  qed
  have "loop_ok (l1\<lparr> dl_blocks := dl_blocks l1 @ [?e], dl_blockIndex := dl_blockIndex l1 + 1 \<rparr>)"
    using Suc.prems(2) loc f
    by (auto simp: loop_ok_def list_all_iff add.commute intro!: locates_append)
  then show ?case using Suc.IH rest f(3) Suc.prems(3) by simp
qed

lemma write_phase_ok:
  "write_phase fs cfg p l = Inr l' \<Longrightarrow> loop_ok l \<Longrightarrow> 0 \<le> TxPerBlock cfg (ph_TPS (snd p)) \<Longrightarrow> loop_ok l'"
  by (auto simp: write_phase_def split: option.splits intro: write_blocks_ok)

lemma GenerateDatasets_loop:
  assumes "GenerateDatasets fs cfg txDir proofDir = Inr (paths, blob, manifest, proofs)"
    and "0 \<le> TxPerBlock cfg (ph_TPS (cfg_Warmup cfg))" "0 \<le> TxPerBlock cfg (ph_TPS (cfg_Certification cfg))"
  shows "\<exists>l. loop_ok l \<and> dl_blob l = blob \<and> dl_blocks l = tm_Blocks manifest"
proof -
  obtain l1 l2 where l1: "write_phase fs cfg (''warmup'', cfg_Warmup cfg)
      \<lparr> dl_blob = [], dl_offset = 0, dl_blockIndex = 0, dl_blocks = [] \<rparr> = Inr l1"
    and l2: "write_phase fs cfg (''certification'', cfg_Certification cfg) l1 = Inr l2"
    and eq: "dl_blob l2 = blob" "tm_Blocks manifest = dl_blocks l2"
    using assms(1)
    by (auto simp: GenerateDatasets_def Let_def bind_res_eq_Inr split: option.splits prod.splits)
  have "loop_ok \<lparr> dl_blob = [], dl_offset = 0, dl_blockIndex = 0, dl_blocks = [] \<rparr>"
    by (simp add: loop_ok_def wrap64_small)
  then show ?thesis
    using write_phase_ok [OF l2] write_phase_ok [OF l1] assms(2,3) eq by auto
qed

text \<open>C40. The manifest of a generated data set is a correct index of the blob: its entries are numbered from 0, and the
  bytes at an entry's offset, twelve for each of its transfers, decode to exactly the transfers generated for that
  block.\<close>

theorem dataset_manifest_locates_blocks:
  assumes "GenerateDatasets fs cfg txDir proofDir = Inr (paths, blob, manifest, proofs)"
    and "0 \<le> TxPerBlock cfg (ph_TPS (cfg_Warmup cfg))" "0 \<le> TxPerBlock cfg (ph_TPS (cfg_Certification cfg))"
    and "int (length blob) < 2 ^ 63"
  shows "map ti_BlockIndex (tm_Blocks manifest) = map of_nat [0..<length (tm_Blocks manifest)]
    \<and> list_all (\<lambda>e. DecodeTxSlice (go_slice (nat (ti_OffsetBytes e))
          (nat (ti_OffsetBytes e) + nat (ti_TxCount e) * 12) blob)
        = Inr (GenerateSyntheticTxs (ti_BlockIndex e) (ti_TxCount e))) (tm_Blocks manifest)"
proof -
  obtain l where l: "loop_ok l" "dl_blob l = blob" "dl_blocks l = tm_Blocks manifest"
    using GenerateDatasets_loop [OF assms(1-3)] by blast
  then have "list_all (locates blob) (tm_Blocks manifest)" using assms(4) by (auto simp: loop_ok_def)
  then have "list_all (\<lambda>e. DecodeTxSlice (go_slice (nat (ti_OffsetBytes e))
          (nat (ti_OffsetBytes e) + nat (ti_TxCount e) * 12) blob)
        = Inr (GenerateSyntheticTxs (ti_BlockIndex e) (ti_TxCount e))) (tm_Blocks manifest)"
    by (auto simp: list_all_iff locates_def Decode_Encode_TxSlice)
  then show ?thesis using l(1) by (simp add: loop_ok_def l(3))
qed

definition good_disk :: FileSystem where
  "good_disk = \<lparr> fs_MkdirAll = (\<lambda>_. None), fs_Create = (\<lambda>_. None), fs_WriteBlob = (\<lambda>_ _. None),
     fs_WriteManifest = (\<lambda>_ _. None), fs_WriteProofs = (\<lambda>_. None),
     fs_Join = (\<lambda>a b. a @ CHR ''/'' # b) \<rparr>"

lemma good_disk_fields [simp]:
  "fs_MkdirAll good_disk d = None" "fs_Create good_disk d = None" "fs_WriteBlob good_disk x y = None"
  "fs_WriteManifest good_disk d mf = None" "fs_WriteProofs good_disk d = None"
  by (simp_all add: good_disk_def)

theorem dataset_manifest_locates_blocks_witness:
  "\<exists>paths blob manifest proofs. GenerateDatasets good_disk
      ((smoke_config 1000 1)\<lparr> cfg_Warmup := \<lparr> ph_TPS = 0, ph_DurationSeconds = 0 \<rparr>,
         cfg_Certification := \<lparr> ph_TPS = 1, ph_DurationSeconds = 1 \<rparr> \<rparr>) ''tx'' ''proofs''
      = Inr (paths, blob, manifest, proofs)
    \<and> map ti_BlockIndex (tm_Blocks manifest) = [0]"
proof -
  let ?cfg = "(smoke_config 1000 1)\<lparr> cfg_Warmup := \<lparr> ph_TPS = 0, ph_DurationSeconds = 0 \<rparr>,
      cfg_Certification := \<lparr> ph_TPS = 1, ph_DurationSeconds = 1 \<rparr> \<rparr>"
  have v: "valid_config ?cfg" using smoke_config_valid [of 1000 1] by (simp add: valid_config_def)
  have b: "BlocksForPhase ?cfg \<lparr> ph_TPS = 0, ph_DurationSeconds = 0 \<rparr> = Some 0"
    "BlocksForPhase ?cfg \<lparr> ph_TPS = 1, ph_DurationSeconds = 1 \<rparr> = Some 1"
    using BlocksForPhase_value [OF v] by simp_all
  have t: "TxPerBlock ?cfg 1 = 1 \<or> TxPerBlock ?cfg 1 = 0" "TxPerBlock ?cfg 0 = 0"
    using TxPerBlock_cases [of 1 ?cfg] by (auto simp: TxPerBlock_def [of _ 0])
  have one: "GenerateSyntheticTxs 0 (TxPerBlock ?cfg 1) = [] \<or> (\<exists>tx. GenerateSyntheticTxs 0 (TxPerBlock ?cfg 1) = [tx])"
    using t(1) by (auto simp: GenerateSyntheticTxs_def)
  obtain l where l: "write_txs good_disk (GenerateSyntheticTxs 0 (TxPerBlock ?cfg 1))
      \<lparr> dl_blob = [], dl_offset = 0, dl_blockIndex = 0, dl_blocks = [] \<rparr> = Inr l"
    "length (dl_blob l) \<le> 12" "dl_blockIndex l = 0" "dl_blocks l = []"
    using one by (auto simp: Let_def)
  have p1: "write_phase good_disk ?cfg (''warmup'', cfg_Warmup ?cfg)
      \<lparr> dl_blob = [], dl_offset = 0, dl_blockIndex = 0, dl_blocks = [] \<rparr>
      = Inr \<lparr> dl_blob = [], dl_offset = 0, dl_blockIndex = 0, dl_blocks = [] \<rparr>"
    using b(1) by (simp add: write_phase_def)
  obtain l2 where p2: "write_phase good_disk ?cfg (''certification'', cfg_Certification ?cfg)
      \<lparr> dl_blob = [], dl_offset = 0, dl_blockIndex = 0, dl_blocks = [] \<rparr> = Inr l2"
    "length (dl_blob l2) \<le> 12" "length (dl_blocks l2) = 1"
    using b(2) l by (simp add: write_phase_def)
  have "\<exists>paths blob manifest proofs. GenerateDatasets good_disk ?cfg ''tx'' ''proofs''
      = Inr (paths, blob, manifest, proofs) \<and> length blob \<le> 12 \<and> length (tm_Blocks manifest) = 1"
    using p1 p2 by (simp add: GenerateDatasets_def SaveJSONL_def Let_def split: prod.split)
  then obtain paths blob manifest proofs where g: "GenerateDatasets good_disk ?cfg ''tx'' ''proofs''
      = Inr (paths, blob, manifest, proofs)" "length blob \<le> 12" "length (tm_Blocks manifest) = 1"
    by blast
  have "map ti_BlockIndex (tm_Blocks manifest) = [0]"
    using dataset_manifest_locates_blocks [OF g(1)] g(2,3) t by auto
  then show ?thesis using g(1) by (intro exI conjI)
qed

end
