(* ===== verification/Bench_Main.thy ===== *)
theory Bench_Main imports Svc_Main Run_Verdict Report_Files Datasets begin

text \<open>
  \<^verbatim>\<open>cmd/bench-orchestrator\<close> and the frame of \<^verbatim>\<open>Runner.Run\<close>: what happens before the first step of a run, and what is made of
  its end.  The steps in between are those of \<^verbatim>\<open>Runner\<close>; the process ends when all threads have ended.
\<close>

section \<open>Before the run\<close>

record bench_opts =
  bo_configPath :: string
  bo_mode :: string
  bo_timeoutSec :: int

definition bench_flags :: flag_set where
  "bench_flags =
     [(''config'', String_value ''configs/dev-air/config.json''), (''mode'', String_value ''run''), (''timeout-sec'', Int_value 0)]"

definition bench_options :: "string list \<Rightarrow> int + bench_opts" where
  "bench_options = read_flags bench_flags (\<lambda>fs. \<lparr> bo_configPath = string_flag fs ''config'', bo_mode = string_flag fs ''mode'',
     bo_timeoutSec = int_flag fs ''timeout-sec'' \<rparr>)"

text \<open>What is read: the configuration, and the proof data set of the runner; the results are those of the program's files.\<close>

record bench_files =
  bf_ReadFile :: "string \<Rightarrow> string + byte list"
  bf_UnmarshalConfig :: "byte list \<Rightarrow> string + Config"
  bf_Stat :: "string \<Rightarrow> bool"
  bf_Open :: "string \<Rightarrow> string + string"
  bf_UnmarshalLine :: "string \<Rightarrow> string + proofLine"

text \<open>A run with the time after which it is cancelled, if there is one; or the paths of the generated data sets.\<close>

datatype bench_start =
    Bench_exits int
  | Bench_panics
  | Bench_generated DatasetPaths
  | Bench_runs Config RunState "int option"

definition bench_timeout :: "int \<Rightarrow> int option" where
  "bench_timeout timeoutSec = (if 0 < timeoutSec then Some (wrap64 (timeoutSec * Second)) else None)"

definition bench_main :: "bench_files \<Rightarrow> FileSystem \<Rightarrow> string list \<Rightarrow> bench_start" where
  "bench_main files fs args =
     (case bench_options args of
        Inl status \<Rightarrow> Bench_exits status
      | Inr opts \<Rightarrow>
     (case Load (bf_ReadFile files) (bf_UnmarshalConfig files) (bo_configPath opts) of
        Inl e \<Rightarrow> Bench_exits 1
      | Inr cfg \<Rightarrow>
          if bo_mode opts = ''generate-datasets''
          then (case GenerateDatasets fs cfg (fs_Join fs ''datasets'' ''tx'') (fs_Join fs ''datasets'' ''proofs'') of
                  Inl e \<Rightarrow> (if e = PanicDivideByZero then Bench_panics else Bench_exits 1)
                | Inr (paths, _) \<Rightarrow> Bench_generated paths)
          else if bo_mode opts = ''run''
          then (case NewRunner (bf_Stat files) (bf_Open files) (bf_UnmarshalLine files) cfg of
                  Inl e \<Rightarrow> Bench_exits 1
                | Inr runner \<Rightarrow> Bench_runs cfg runner (bench_timeout (bo_timeoutSec opts)))
          else Bench_exits 1))"

definition generated_lines :: "DatasetPaths \<Rightarrow> string list" where
  "generated_lines paths =
     [''generated tx blob: '' @ dp_TxBlobPath paths, ''generated tx manifest: '' @ dp_TxManifestPath paths,
      ''generated proof dataset: '' @ dp_ProofDatasetPath paths]"

section \<open>After the run\<close>

text \<open>
  \<^verbatim>\<open>Run\<close> after \<^verbatim>\<open>wg.Wait\<close>: the report is built and written.  \<^const>\<open>None\<close> is the division by zero in
  \<^const>\<open>BlocksForPhase\<close>, which already the ingress loop would meet.
\<close>

definition run_result :: "'w files \<Rightarrow> Environment \<Rightarrow> Config \<Rightarrow> RunState \<Rightarrow> 'w \<Rightarrow> ((report_error + (Report \<times> string)) \<times> 'w) option" where
  "run_result io env cfg s w =
     (case buildReport env cfg (ru_l1 s) of
        None \<Rightarrow> None
      | Some report \<Rightarrow>
          (case WriteReport io (cfg_ReportDir cfg) report w of
             (Inl e, w) \<Rightarrow> Some (Inl e, w)
           | (Inr path, w) \<Rightarrow> Some (Inr (report, path), w)))"

definition result_lines :: "Report \<Rightarrow> string \<Rightarrow> string list" where
  "result_lines report path =
     [''report: '' @ path, ''pass: '' @ FormatBool (rp_Pass report),
      ''cert avg verified tps: '' @ format_f3 (rp_CertificationAvgTPS report),
      ''cert verified tx: '' @ dec_nat (unat (rp_CertificationVerifiedTx report)) @ '' / expected ''
        @ dec_nat (unat (rp_ExpectedCertificationTx report)),
      ''drop count: '' @ dec_nat (unat (rp_DropCount report)), ''proof failures: '' @ dec_int (rp_ProofFailures report)]"

text \<open>The end of the process: its exit status and what it printed.\<close>

definition bench_finish :: "'w files \<Rightarrow> Environment \<Rightarrow> Config \<Rightarrow> RunState \<Rightarrow> 'w \<Rightarrow> (int \<times> string list) \<times> 'w" where
  "bench_finish io env cfg s w =
     (case run_result io env cfg s w of
        None \<Rightarrow> ((2, []), w)
      | Some (Inl e, w) \<Rightarrow> ((1, []), w)
      | Some (Inr (report, path), w) \<Rightarrow> ((0, result_lines report path), w))"

section \<open>From the command line to the verdict\<close>

lemma Load_valid: "Load ReadFile Unmarshal path = Inr cfg \<Longrightarrow> Validate cfg = None"
  by (auto simp: Load_def split: sum.splits option.splits)

lemma bench_runs:
  assumes "bench_main files fs args = Bench_runs cfg s0 timeout"
  shows "Validate cfg = None" "NewRunner (bf_Stat files) (bf_Open files) (bf_UnmarshalLine files) cfg = Inr s0"
  using assms by (auto simp: bench_main_def dest!: Load_valid split: sum.splits if_splits prod.splits)


text \<open>The exit status says whether a report was written, not whether the run passed.\<close>

lemma bench_status:
  assumes "bench_finish io env cfg s w = ((status, out), w')"
  shows "status = 0 \<longleftrightarrow> (\<exists>r path. buildReport env cfg (ru_l1 s) = Some r \<and> fst (WriteReport io (cfg_ReportDir cfg) r w) = Inr path)"
  using assms by (auto simp: bench_finish_def run_result_def split: option.splits prod.splits sum.splits)

definition sample_files :: bench_files where
  "sample_files = \<lparr> bf_ReadFile = \<lambda>_. Inr [], bf_UnmarshalConfig = \<lambda>_. Inr (smoke_config 200 5000), bf_Stat = \<lambda>_. False,
     bf_Open = \<lambda>_. Inl [], bf_UnmarshalLine = \<lambda>_. Inl [] \<rparr>"

lemma sample_bench:
  "NewRunner (\<lambda>_. False) (\<lambda>_. Inl []) (\<lambda>_. Inl []) (smoke_config 200 5000) = Inr s0
    \<Longrightarrow> bench_main sample_files fs [] = Bench_runs (smoke_config 200 5000) s0 None"
  using Validate_valid [OF smoke_config_valid, of 200 5000]
  by (simp add: bench_main_def bench_options_def read_flags_def bench_flags_def string_flag_def int_flag_def sample_files_def
      Load_def bench_timeout_def)

lemma memory_disk_writes: "\<exists>path w'. WriteReport (memory_disk True) dir report w = (Inr path, w')"
  by (cases w) (simp add: WriteReport_def writeJSON_file_def writeCSV_file_def writeMarkdown_file_def Let_def)


section \<open>A timeout that has passed\<close>

text \<open>The seconds of the timeout are multiplied without a check: a long timeout is one that has already passed.\<close>

lemma long_timeout_passed: "bench_timeout 9223372037 = Some (- 9223372036709551616)"
  by (simp add: bench_timeout_def Second_def wrap64_def)

end
