(* ===== verification/Proofctl_Client.thy ===== *)
theory Proofctl_Client imports Proofctl_Bundle "HOL-Library.Multiset" begin

text \<open>
  The client side of \<^verbatim>\<open>cmd/kaia-proofctl/main.go\<close>: programs that talk to a node and may fail, panic or never
  return, and the operations the commands are made of: connecting, building and sending transactions, waiting for
  their receipts, and reading lane heads and contract artifacts.

  The node, the cryptography, the ABI encoder and the operating system are the parameters \<open>node\<close> and \<open>host\<close>.
  Times are nanoseconds on one clock.
\<close>

section \<open>Programs\<close>

datatype 'a outcome = Done 'a | Failed string | Panic

text \<open>
  The world the calls go to, the RPC clients that are open, the texts printed so far, and a record of the
  transactions the node has taken, with the client each went through.
\<close>

type_synonym address = "byte list"
type_synonym key = "byte list"
type_synonym client = nat

record legacy_tx =
  tx_Nonce :: u64
  tx_To :: "address option"
  tx_Value :: int
  tx_Gas :: u64
  tx_GasPrice :: int
  tx_Data :: "byte list"

record signed_tx =
  st_tx :: legacy_tx
  st_signature :: "byte list"

record 'w session =
  ss_world :: 'w
  ss_clients :: "client list"
  ss_stdout :: string
  ss_sent :: "(client \<times> signed_tx) list"

text \<open>A program that does not return is \<^const>\<open>None\<close>.\<close>

type_synonym ('w, 'a) cmd = "'w session \<Rightarrow> ('a outcome \<times> 'w session) option"

definition ret :: "'a \<Rightarrow> ('w, 'a) cmd" where
  "ret x s = Some (Done x, s)"

definition failing :: "string \<Rightarrow> ('w, 'a) cmd" where
  "failing e s = Some (Failed e, s)"

definition panicking :: "('w, 'a) cmd" where
  "panicking s = Some (Panic, s)"

text \<open>\<^verbatim>\<open>if err != nil { return err }\<close> after every step.\<close>

definition andThen :: "('w, 'a) cmd \<Rightarrow> ('a \<Rightarrow> ('w, 'b) cmd) \<Rightarrow> ('w, 'b) cmd" where
  "andThen m f s = (case m s of
     None \<Rightarrow> None
   | Some (r, s') \<Rightarrow> (case r of Done x \<Rightarrow> f x s' | Failed e \<Rightarrow> Some (Failed e, s') | Panic \<Rightarrow> Some (Panic, s')))"

text \<open>A deferred call runs however the function ends; the other runs before an error is returned.\<close>

definition deferring :: "('w session \<Rightarrow> 'w session) \<Rightarrow> ('w, 'a) cmd \<Rightarrow> ('w, 'a) cmd" where
  "deferring d m s = map_option (\<lambda>(r, s'). (r, d s')) (m s)"

definition on_failure :: "('w session \<Rightarrow> 'w session) \<Rightarrow> ('w, 'a) cmd \<Rightarrow> ('w, 'a) cmd" where
  "on_failure d m s = map_option (\<lambda>(r, s'). (r, case r of Failed _ \<Rightarrow> d s' | _ \<Rightarrow> s')) (m s)"

definition perform :: "('w \<Rightarrow> (string + 'a) \<times> 'w) \<Rightarrow> 'w session \<Rightarrow> 'a outcome \<times> 'w session" where
  "perform f s = (let (r, w) = f (ss_world s)
     in (case r of Inl e \<Rightarrow> Failed e | Inr x \<Rightarrow> Done x, s\<lparr> ss_world := w \<rparr>))"

definition calling :: "('w \<Rightarrow> (string + 'a) \<times> 'w) \<Rightarrow> ('w, 'a) cmd" where
  "calling f s = Some (perform f s)"

definition lift :: "string + 'a \<Rightarrow> ('w, 'a) cmd" where
  "lift r = (case r of Inl e \<Rightarrow> failing e | Inr x \<Rightarrow> ret x)"

text \<open>A computation that may panic.\<close>

definition lift_panic :: "'a option \<Rightarrow> ('w, 'a) cmd" where
  "lift_panic r = (case r of None \<Rightarrow> panicking | Some x \<Rightarrow> ret x)"

fun for_each :: "('a \<Rightarrow> ('w, 'b) cmd) \<Rightarrow> 'a list \<Rightarrow> ('w, 'b list) cmd" where
  "for_each f [] = ret []"
| "for_each f (x # xs) = andThen (f x) (\<lambda>y. andThen (for_each f xs) (\<lambda>ys. ret (y # ys)))"

definition printJSON :: "json \<Rightarrow> ('w, unit) cmd" where
  "printJSON v s = Some (Done (), s\<lparr> ss_stdout := ss_stdout s @ MarshalIndent v @ [CHR 0x0A] \<rparr>)"

section \<open>Node and host\<close>

record header =
  hd_Number :: int
  hd_Time :: u64
  hd_BaseFee :: "int option"

record receipt =
  rc_Status :: u64
  rc_BlockNumber :: "int option"
  rc_GasUsed :: u64
  rc_ContractAddress :: address

record CallMsg =
  cm_From :: "address option"
  cm_To :: "address option"
  cm_Value :: "int option"
  cm_GasPrice :: "int option"
  cm_Data :: "byte list"

text \<open>A context is its deadline, if it has one.\<close>

type_synonym ctx = "int option"

text \<open>
  \<^verbatim>\<open>ethclient\<close>: every call takes the client and the context.  \<open>Wait\<close> is the \<^verbatim>\<open>select\<close> on the context and a
  ticker of \<open>pollInterval\<close>, given by its start and the number of ticks taken from it: an error when the context
  is chosen, nothing at a tick.
\<close>

record 'w node =
  Dial :: "string \<Rightarrow> 'w \<Rightarrow> (string + client) \<times> 'w"
  ChainID :: "client \<Rightarrow> ctx \<Rightarrow> 'w \<Rightarrow> (string + int) \<times> 'w"
  NetworkID :: "client \<Rightarrow> ctx \<Rightarrow> 'w \<Rightarrow> (string + int) \<times> 'w"
  SuggestGasPrice :: "client \<Rightarrow> ctx \<Rightarrow> 'w \<Rightarrow> (string + int) \<times> 'w"
  HeaderByNumber :: "client \<Rightarrow> ctx \<Rightarrow> int option \<Rightarrow> 'w \<Rightarrow> (string + header) \<times> 'w"
  BalanceAt :: "client \<Rightarrow> ctx \<Rightarrow> address \<Rightarrow> 'w \<Rightarrow> (string + int) \<times> 'w"
  NonceAt :: "client \<Rightarrow> ctx \<Rightarrow> address \<Rightarrow> 'w \<Rightarrow> (string + u64) \<times> 'w"
  PendingNonceAt :: "client \<Rightarrow> ctx \<Rightarrow> address \<Rightarrow> 'w \<Rightarrow> (string + u64) \<times> 'w"
  CodeAt :: "client \<Rightarrow> ctx \<Rightarrow> address \<Rightarrow> 'w \<Rightarrow> (string + byte list) \<times> 'w"
  EstimateGas :: "client \<Rightarrow> ctx \<Rightarrow> CallMsg \<Rightarrow> 'w \<Rightarrow> (string + u64) \<times> 'w"
  SendTransaction :: "client \<Rightarrow> ctx \<Rightarrow> signed_tx \<Rightarrow> 'w \<Rightarrow> (string + unit) \<times> 'w"
  TransactionReceipt :: "client \<Rightarrow> ctx \<Rightarrow> byte list \<Rightarrow> 'w \<Rightarrow> (string + receipt) \<times> 'w"
  CallContract :: "client \<Rightarrow> ctx \<Rightarrow> CallMsg \<Rightarrow> 'w \<Rightarrow> (string + byte list) \<times> 'w"
  Now :: "'w \<Rightarrow> int \<times> 'w"
  Wait :: "ctx \<Rightarrow> int \<Rightarrow> nat \<Rightarrow> 'w \<Rightarrow> (string + unit) \<times> 'w"
  ReadFile :: "string \<Rightarrow> 'w \<Rightarrow> (string + string) \<times> 'w"
  GenerateKey :: "'w \<Rightarrow> (string + key) \<times> 'w"

text \<open>A parsed ABI is represented by its text.\<close>

type_synonym abi = string

datatype pack_arg =
    ArgAddress address | ArgLane u16 | ArgLanes "u16 list" | ArgPoint g1Point | ArgPoints "g1Point list"
  | ArgKey verifyingKey | ArgArtifacts "batchTransitionArtifact list"

record host =
  Getenv :: "string \<Rightarrow> string"
  PathJoin :: "string \<Rightarrow> string \<Rightarrow> string"
  FormatLocal :: "int \<Rightarrow> string"
  FormatUTC :: "int \<Rightarrow> string"
  IsHexAddress :: "string \<Rightarrow> bool"
  HexToAddress :: "string \<Rightarrow> address"
  AddressHex :: "address \<Rightarrow> string"
  HexToECDSA :: "string \<Rightarrow> string + key"
  FromECDSA :: "key \<Rightarrow> byte list"
  PubkeyToAddress :: "key \<Rightarrow> address"
  SignTx :: "int \<Rightarrow> key \<Rightarrow> legacy_tx \<Rightarrow> string + signed_tx"
  TxHash :: "signed_tx \<Rightarrow> byte list"
  HashHex :: "byte list \<Rightarrow> string"
  AbiJSON :: "string \<Rightarrow> string + abi"
  Pack :: "abi \<Rightarrow> string \<Rightarrow> pack_arg list \<Rightarrow> string + byte list"

section \<open>Contexts, clocks and connections\<close>

definition pollInterval :: int where "pollInterval = 250 * 1000000"
definition txTimeout :: int where "txTimeout = 5 * 60 * 1000000000"

definition now :: "'w node \<Rightarrow> ('w, int) cmd" where
  "now N = calling (\<lambda>w. let (t, w) = Now N w in (Inr t, w))"

definition WithTimeout :: "'w node \<Rightarrow> ctx \<Rightarrow> int \<Rightarrow> ('w, ctx) cmd" where
  "WithTimeout N parent d = andThen (now N) (\<lambda>t.
     ret (Some (case parent of None \<Rightarrow> t + d | Some p \<Rightarrow> min p (t + d))))"

text \<open>\<^verbatim>\<open>Sub\<close> saturates; \<^verbatim>\<open>Milliseconds\<close> truncates towards zero.\<close>

definition time_sub :: "int \<Rightarrow> int \<Rightarrow> int" where
  "time_sub a b = max (- (2 ^ 63)) (min (2 ^ 63 - 1) (a - b))"

definition Milliseconds :: "int \<Rightarrow> int" where
  "Milliseconds d = go_quot d 1000000"

text \<open>The zero \<^verbatim>\<open>time.Time\<close> is the start of the year 1; a Unix time in seconds is read as \<^verbatim>\<open>int64\<close>.\<close>

definition zero_time :: int where "zero_time = - 62135596800 * 1000000000"

definition unix_time :: "u64 \<Rightarrow> int" where
  "unix_time t = sint t * 1000000000"

definition connect :: "'w node \<Rightarrow> string \<Rightarrow> ('w, client) cmd" where
  "connect N url = andThen (calling (Dial N url)) (\<lambda>c s.
     Some (Done c, s\<lparr> ss_clients := c # ss_clients s \<rparr>))"

definition Close :: "client \<Rightarrow> 'w session \<Rightarrow> 'w session" where
  "Close c s = s\<lparr> ss_clients := remove1 c (ss_clients s) \<rparr>"

text \<open>\<^verbatim>\<open>SendTransaction\<close>, recorded when the node takes the transaction.\<close>

definition send :: "'w node \<Rightarrow> client \<Rightarrow> ctx \<Rightarrow> signed_tx \<Rightarrow> ('w, unit) cmd" where
  "send N c ctx tx = andThen (calling (SendTransaction N c ctx tx)) (\<lambda>u s.
     Some (Done (), s\<lparr> ss_sent := ss_sent s @ [(c, tx)] \<rparr>))"

section \<open>Senders\<close>

record sender =
  sd_client :: client
  sd_privateKey :: key
  sd_from :: address
  sd_chainID :: int
  sd_gasPrice :: int
  sd_gasLimit :: u64
  sd_confirmations :: u64

definition text_error_text :: "text_error \<Rightarrow> string" where
  "text_error_text e = (case e of
     InvalidBigInteger t \<Rightarrow> ''invalid big integer: '' @ t
   | InvalidAddress t \<Rightarrow> ''invalid address: '' @ t
   | MissingPrivateKey \<Rightarrow> ''missing private key; set --private-key or KAIA_PRIVATE_KEY''
   | InvalidPrivateKey t \<Rightarrow> t)"

definition texting :: "text_error + 'a \<Rightarrow> ('w, 'a) cmd" where
  "texting r = lift (case r of Inl e \<Rightarrow> Inl (text_error_text e) | Inr x \<Rightarrow> Inr x)"

text \<open>
  The assertion that the public key is an ECDSA one always holds and has no branch here.
\<close>

definition newSender :: "'w node \<Rightarrow> host \<Rightarrow> string \<Rightarrow> string \<Rightarrow> string \<Rightarrow> u64 \<Rightarrow> ('w, sender) cmd" where
  "newSender N H rpcURL privateKeyHex gasPriceText confirmations =
     (if privateKeyHex = [] then failing (text_error_text MissingPrivateKey)
      else andThen (lift (HexToECDSA H (TrimPrefix privateKeyHex ''0x''))) (\<lambda>privateKey.
           andThen (connect N rpcURL) (\<lambda>client.
           andThen (WithTimeout N None (15 * 1000000000)) (\<lambda>ctx.
             on_failure (Close client) (
               andThen (calling (ChainID N client ctx)) (\<lambda>chainID.
               andThen (texting (parseBigInt gasPriceText)) (\<lambda>parsed.
               andThen (case parsed of None \<Rightarrow> calling (SuggestGasPrice N client ctx) | Some p \<Rightarrow> ret p) (\<lambda>gasPrice.
                 ret \<lparr> sd_client = client, sd_privateKey = privateKey, sd_from = PubkeyToAddress H privateKey,
                       sd_chainID = chainID, sd_gasPrice = gasPrice,
                       sd_gasLimit = of_int (envOrInt (Getenv H) ''KAIA_GAS_LIMIT'' 0),
                       sd_confirmations = confirmations \<rparr>))))))))"

text \<open>A contract is created by a transaction without a receiver.\<close>

definition buildSignedTransactionValue ::
    "'w node \<Rightarrow> host \<Rightarrow> sender \<Rightarrow> ctx \<Rightarrow> address option \<Rightarrow> byte list \<Rightarrow> int \<Rightarrow> u64 \<Rightarrow> ('w, signed_tx \<times> u64) cmd" where
  "buildSignedTransactionValue N H sd ctx dest data amount nonce =
     andThen (if sd_gasLimit sd = 0
              then andThen (calling (EstimateGas N (sd_client sd) ctx
                     \<lparr> cm_From = Some (sd_from sd), cm_To = dest, cm_Value = Some amount,
                       cm_GasPrice = Some (sd_gasPrice sd), cm_Data = data \<rparr>))
                   (\<lambda>estimatedGas. ret (estimatedGas * 12 div 10 + 25000))
              else ret (sd_gasLimit sd)) (\<lambda>gasLimit.
     andThen (lift (SignTx H (sd_chainID sd) (sd_privateKey sd)
       \<lparr> tx_Nonce = nonce, tx_To = dest, tx_Value = amount, tx_Gas = gasLimit, tx_GasPrice = sd_gasPrice sd,
         tx_Data = data \<rparr>)) (\<lambda>signedTx.
       ret (signedTx, gasLimit)))"

definition buildSignedTransaction ::
    "'w node \<Rightarrow> host \<Rightarrow> sender \<Rightarrow> ctx \<Rightarrow> address option \<Rightarrow> byte list \<Rightarrow> u64 \<Rightarrow> ('w, signed_tx \<times> u64) cmd" where
  "buildSignedTransaction N H sd ctx dest data nonce = buildSignedTransactionValue N H sd ctx dest data 0 nonce"

definition buildSignedValueTransaction ::
    "'w node \<Rightarrow> host \<Rightarrow> sender \<Rightarrow> ctx \<Rightarrow> address \<Rightarrow> int \<Rightarrow> u64 \<Rightarrow> ('w, signed_tx \<times> u64) cmd" where
  "buildSignedValueTransaction N H sd ctx dest amount nonce =
     buildSignedTransactionValue N H sd ctx (Some dest) [] amount nonce"

section \<open>Waiting for a receipt\<close>

fun Contains :: "string \<Rightarrow> string \<Rightarrow> bool" where
  "Contains [] sub \<longleftrightarrow> sub = []"
| "Contains (c # s) sub \<longleftrightarrow> HasPrefix (c # s) sub \<or> Contains s sub"

text \<open>The inner loop, after the receipt was found, and the outer one; \<open>t0\<close> and \<open>n\<close> are the ticker's.\<close>

partial_function (option) await_confirmations ::
    "'w node \<Rightarrow> client \<Rightarrow> ctx \<Rightarrow> int \<Rightarrow> nat \<Rightarrow> receipt \<Rightarrow> u64 \<Rightarrow> 'w session \<Rightarrow> (receipt outcome \<times> 'w session) option" where
  "await_confirmations N c ctx t0 n receipt confirmations s =
     (case perform (HeaderByNumber N c ctx None) s of
        (Done header, s) \<Rightarrow>
          (case rc_BlockNumber receipt of
             None \<Rightarrow> Some (Panic, s)
           | Some block \<Rightarrow>
               (if block + uint (confirmations - 1) \<le> hd_Number header then Some (Done receipt, s)
                else (case perform (Wait N ctx t0 n) s of
                   (Done _, s) \<Rightarrow> await_confirmations N c ctx t0 (Suc n) receipt confirmations s
                 | (Failed e, s) \<Rightarrow> Some (Failed e, s)
                 | (Panic, s) \<Rightarrow> Some (Panic, s))))
      | (Failed e, s) \<Rightarrow> Some (Failed e, s)
      | (Panic, s) \<Rightarrow> Some (Panic, s))"

partial_function (option) await_receipt ::
    "'w node \<Rightarrow> client \<Rightarrow> ctx \<Rightarrow> int \<Rightarrow> nat \<Rightarrow> byte list \<Rightarrow> u64 \<Rightarrow> 'w session \<Rightarrow> (receipt outcome \<times> 'w session) option" where
  "await_receipt N c ctx t0 n txHash confirmations s =
     (case perform (TransactionReceipt N c ctx txHash) s of
        (Done receipt, s) \<Rightarrow>
          (if confirmations \<le> 1 then Some (Done receipt, s)
           else await_confirmations N c ctx t0 n receipt confirmations s)
      | (Failed e, s) \<Rightarrow>
          (if \<not> Contains e ''not found'' then Some (Failed e, s)
           else (case perform (Wait N ctx t0 n) s of
              (Done _, s) \<Rightarrow> await_receipt N c ctx t0 (Suc n) txHash confirmations s
            | (Failed e, s) \<Rightarrow> Some (Failed e, s)
            | (Panic, s) \<Rightarrow> Some (Panic, s)))
      | (Panic, s) \<Rightarrow> Some (Panic, s))"

definition waitForReceipt :: "'w node \<Rightarrow> ctx \<Rightarrow> client \<Rightarrow> byte list \<Rightarrow> u64 \<Rightarrow> ('w, receipt) cmd" where
  "waitForReceipt N ctx c txHash confirmations =
     andThen (now N) (\<lambda>t0. await_receipt N c ctx t0 0 txHash confirmations)"

definition ReceiptStatusSuccessful :: u64 where "ReceiptStatusSuccessful = 1"

text \<open>\<^verbatim>\<open>String\<close> of a nil \<^verbatim>\<open>*big.Int\<close>.\<close>

definition big_text :: "int option \<Rightarrow> string" where
  "big_text n = (case n of None \<Rightarrow> ''<nil>'' | Some i \<Rightarrow> dec_int i)"

definition reverted :: "host \<Rightarrow> string \<Rightarrow> signed_tx \<Rightarrow> receipt \<Rightarrow> string" where
  "reverted H what tx receipt = what @ '' reverted: hash='' @ HashHex H (TxHash H tx)
     @ '' block='' @ big_text (rc_BlockNumber receipt) @ '' gas_used='' @ dec_nat (unat (rc_GasUsed receipt))"

definition checked_receipt ::
    "'w node \<Rightarrow> host \<Rightarrow> ctx \<Rightarrow> client \<Rightarrow> u64 \<Rightarrow> string \<Rightarrow> signed_tx \<Rightarrow> ('w, receipt) cmd" where
  "checked_receipt N H ctx c confirmations what tx =
     andThen (waitForReceipt N ctx c (TxHash H tx) confirmations) (\<lambda>receipt.
       if rc_Status receipt \<noteq> ReceiptStatusSuccessful then failing (reverted H what tx receipt) else ret receipt)"

definition sendTransactionValue ::
    "'w node \<Rightarrow> host \<Rightarrow> sender \<Rightarrow> ctx \<Rightarrow> address option \<Rightarrow> byte list \<Rightarrow> int
     \<Rightarrow> ('w, receipt \<times> signed_tx \<times> int \<times> u64) cmd" where
  "sendTransactionValue N H sd parent dest data amount =
     andThen (WithTimeout N parent txTimeout) (\<lambda>ctx.
     andThen (calling (PendingNonceAt N (sd_client sd) ctx (sd_from sd))) (\<lambda>nonce.
     andThen (buildSignedTransactionValue N H sd ctx dest data amount nonce) (\<lambda>(signedTx, gasLimit).
     andThen (now N) (\<lambda>start.
     andThen (send N (sd_client sd) ctx signedTx) (\<lambda>_.
     andThen (checked_receipt N H ctx (sd_client sd) (sd_confirmations sd) ''transaction'' signedTx) (\<lambda>receipt.
     andThen (now N) (\<lambda>stop.
       ret (receipt, signedTx, time_sub stop start, gasLimit))))))))"

definition sendTransaction ::
    "'w node \<Rightarrow> host \<Rightarrow> sender \<Rightarrow> ctx \<Rightarrow> address option \<Rightarrow> byte list \<Rightarrow> ('w, receipt \<times> signed_tx \<times> int \<times> u64) cmd" where
  "sendTransaction N H sd ctx dest data = sendTransactionValue N H sd ctx dest data 0"

definition lookupIncludedAt :: "'w node \<Rightarrow> ctx \<Rightarrow> client \<Rightarrow> receipt \<Rightarrow> ('w, int) cmd" where
  "lookupIncludedAt N ctx c receipt = (case rc_BlockNumber receipt of
     None \<Rightarrow> failing ''receipt missing block number''
   | Some b \<Rightarrow> andThen (calling (HeaderByNumber N c ctx (Some b))) (\<lambda>header. ret (unix_time (hd_Time header))))"

section \<open>Contracts and bundles\<close>

definition hex_error_text :: string where "hex_error_text = ''invalid hex''"

definition loadContractArtifact :: "'w node \<Rightarrow> host \<Rightarrow> string \<Rightarrow> string \<Rightarrow> ('w, abi \<times> byte list) cmd" where
  "loadContractArtifact N H artifactsDir contractName =
     andThen (calling (ReadFile N (PathJoin H artifactsDir (contractName @ ''.abi'')))) (\<lambda>abiBytes.
     andThen (lift (AbiJSON H abiBytes)) (\<lambda>abiObj.
     andThen (calling (ReadFile N (PathJoin H artifactsDir (contractName @ ''.bin'')))) (\<lambda>binBytes.
     andThen (lift (case DecodeString (TrimSpace binBytes) of Inl _ \<Rightarrow> Inl hex_error_text | Inr b \<Rightarrow> Inr b)) (\<lambda>bytecode.
       ret (abiObj, bytecode)))))"

text \<open>\<^verbatim>\<open>SetBytes\<close> is \<^const>\<open>be_value\<close>.\<close>

definition readLaneHead :: "'w node \<Rightarrow> host \<Rightarrow> ctx \<Rightarrow> client \<Rightarrow> address \<Rightarrow> abi \<Rightarrow> u16 \<Rightarrow> ('w, g1Point) cmd" where
  "readLaneHead N H ctx c certifier abiObj laneID =
     andThen (lift (Pack H abiObj ''laneHead'' [ArgLane laneID])) (\<lambda>data.
     andThen (WithTimeout N ctx (15 * 1000000000)) (\<lambda>callCtx.
     andThen (calling (CallContract N c callCtx
       \<lparr> cm_From = None, cm_To = Some certifier, cm_Value = None, cm_GasPrice = None, cm_Data = data \<rparr>)) (\<lambda>out.
       if length out < 64 then failing (''unexpected laneHead response length: '' @ dec_nat (length out))
       else ret \<lparr> g1_X = int (be_value (go_slice 0 32 out)), g1_Y = int (be_value (go_slice 32 64 out)) \<rparr>)))"

definition load_bundle :: "'w node \<Rightarrow> string \<Rightarrow> ('w, jsonBundle) cmd" where
  "load_bundle N path = andThen (calling (ReadFile N path)) (\<lambda>text. lift (loadBundle (\<lambda>_. Inr text) path))"

definition artifacts_of :: "jsonBundle \<Rightarrow> ('w, batchTransitionArtifact list \<times> u64) cmd" where
  "artifacts_of b = andThen (lift_panic (toArtifacts b)) lift"

end
