(* ===== verification/Proofctl_Laws.thy ===== *)
theory Proofctl_Laws imports Proofctl_Client begin

text \<open>
  What the programs of \<^verbatim>\<open>Proofctl_Client\<close> do to the session: which parts of it they leave alone, that connections
  are closed again, and that waiting for a receipt ends with its deadline.
\<close>

section \<open>Composing programs\<close>

lemma cmd_simps [simp]:
  "ret x s = Some (Done x, s)" "failing e s = Some (Failed e, s)" "panicking s = Some (Panic, s)"
  "andThen (ret x) f = f x" "andThen (failing e) f = failing e" "andThen panicking f = panicking"
  by (auto simp: ret_def failing_def panicking_def andThen_def)

lemma andThen_Done:
  "andThen m f s = Some (r, s') \<longleftrightarrow>
     (\<exists>x s1. m s = Some (Done x, s1) \<and> f x s1 = Some (r, s'))
     \<or> (\<exists>e. m s = Some (Failed e, s') \<and> r = Failed e) \<or> (m s = Some (Panic, s') \<and> r = Panic)"
  by (auto simp: andThen_def split: option.splits outcome.splits)

lemma andThen_assoc: "andThen (andThen m f) g = andThen m (\<lambda>x. andThen (f x) g)"
  by (rule ext) (auto simp: andThen_def split: option.split outcome.split)

lemma perform_fields [simp]:
  "ss_clients (snd (perform f s)) = ss_clients s" "ss_sent (snd (perform f s)) = ss_sent s"
  "ss_stdout (snd (perform f s)) = ss_stdout s" "fst (perform f s) \<noteq> Panic"
  by (simp_all add: perform_def Let_def split: prod.split sum.split)

definition CloseAll :: "client list \<Rightarrow> 'w session \<Rightarrow> 'w session" where
  "CloseAll cs = fold Close cs"

section \<open>What a program leaves alone\<close>

text \<open>
  An observation of the session, and the changes of the world it does not see.  Programs whose calls make only such
  changes, and that do not use the operations that change the observed part, leave the observation alone.
\<close>

locale observer =
  fixes obs :: "'w session \<Rightarrow> 'o" and keeps :: "'w \<Rightarrow> 'w \<Rightarrow> bool"
  assumes world: "keeps (ss_world s) w \<Longrightarrow> obs (s\<lparr> ss_world := w \<rparr>) = obs s"
begin

definition calm :: "('w \<Rightarrow> 'a \<times> 'w) \<Rightarrow> bool" where
  "calm f \<longleftrightarrow> (\<forall>w. keeps w (snd (f w)))"

definition calm_node :: "'w node \<Rightarrow> bool" where
  "calm_node N \<longleftrightarrow> (\<forall>url. calm (Dial N url)) \<and> (\<forall>c ctx. calm (ChainID N c ctx)) \<and> (\<forall>c ctx. calm (NetworkID N c ctx))
     \<and> (\<forall>c ctx. calm (SuggestGasPrice N c ctx)) \<and> (\<forall>c ctx b. calm (HeaderByNumber N c ctx b))
     \<and> (\<forall>c ctx a. calm (BalanceAt N c ctx a)) \<and> (\<forall>c ctx a. calm (NonceAt N c ctx a))
     \<and> (\<forall>c ctx a. calm (PendingNonceAt N c ctx a)) \<and> (\<forall>c ctx a. calm (CodeAt N c ctx a))
     \<and> (\<forall>c ctx msg. calm (EstimateGas N c ctx msg)) \<and> (\<forall>c ctx tx. calm (SendTransaction N c ctx tx))
     \<and> (\<forall>c ctx h. calm (TransactionReceipt N c ctx h)) \<and> (\<forall>c ctx msg. calm (CallContract N c ctx msg))
     \<and> calm (Now N) \<and> (\<forall>ctx t n. calm (Wait N ctx t n)) \<and> (\<forall>path. calm (ReadFile N path)) \<and> calm (GenerateKey N)"

lemma calm_node_fields [simp, intro]:
  assumes "calm_node N"
  shows "calm (Dial N url)" "calm (ChainID N c ctx)" "calm (NetworkID N c ctx)" "calm (SuggestGasPrice N c ctx)"
    "calm (HeaderByNumber N c ctx b)" "calm (BalanceAt N c ctx a)" "calm (NonceAt N c ctx a)" "calm (PendingNonceAt N c ctx a)"
    "calm (CodeAt N c ctx a)" "calm (EstimateGas N c ctx msg)" "calm (SendTransaction N c ctx tx)"
    "calm (TransactionReceipt N c ctx h)" "calm (CallContract N c ctx msg)" "calm (Now N)" "calm (Wait N ctx t n)"
    "calm (ReadFile N path)" "calm (GenerateKey N)"
  using assms by (simp_all add: calm_node_def)

definition stable :: "('w, 'a) cmd \<Rightarrow> bool" where
  "stable m \<longleftrightarrow> (\<forall>s r s'. m s = Some (r, s') \<longrightarrow> obs s' = obs s)"

lemma stableD: "stable m \<Longrightarrow> m s = Some (r, s') \<Longrightarrow> obs s' = obs s"
  by (simp add: stable_def)

lemma stable_perform: "calm f \<Longrightarrow> perform f s = (r, s') \<Longrightarrow> obs s' = obs s"
  by (auto simp: perform_def calm_def Let_def split: prod.splits intro!: world) (metis snd_conv)

lemma stable_calling [simp, intro]: "calm f \<Longrightarrow> stable (calling f)"
  by (auto simp: stable_def calling_def dest: stable_perform)

lemma stable_basic [simp, intro]: "stable (ret x)" "stable (failing e)" "stable panicking"
  by (auto simp: stable_def)

lemma stable_andThen [intro!]: "stable m \<Longrightarrow> (\<And>x. stable (f x)) \<Longrightarrow> stable (andThen m f)"
  by (fastforce simp: stable_def andThen_Done)

lemma stable_lift [simp, intro]: "stable (lift r)" "stable (lift_panic p)" "stable (texting t)"
  by (auto simp: lift_def lift_panic_def texting_def split: sum.split option.split)

lemma stable_now [simp, intro]:
  assumes "calm_node N" shows "stable (now N)" "stable (WithTimeout N ctx d)"
proof -
  have "calm (\<lambda>w. let (t, w) = Now N w in (Inr t, w))"
    using calm_node_fields(14) [OF assms] by (auto simp: calm_def split: prod.split) (metis snd_conv)
  then show "stable (now N)" unfolding now_def by (rule stable_calling)
  then show "stable (WithTimeout N ctx d)" by (auto simp: WithTimeout_def)
qed

lemma stable_for_each [intro!]: "(\<And>x. stable (f x)) \<Longrightarrow> stable (for_each f xs)"
  by (induction xs) auto

lemma stable_await_confirmations:
  assumes N: "calm_node N" and run: "await_confirmations N c ctx t0 n rc k s = Some y" shows "obs (snd y) = obs s"
proof -
  have "calm_node N \<longrightarrow> obs (snd y) = obs s"
    by (rule await_confirmations.raw_induct [OF _ run])
      (auto split: prod.splits outcome.splits option.splits if_splits dest!: stable_perform [rotated])
  then show ?thesis using N by simp
qed

lemma stable_await_receipt:
  assumes N: "calm_node N" and run: "await_receipt N c ctx t0 n h k s = Some y" shows "obs (snd y) = obs s"
proof -
  have "calm_node N \<longrightarrow> obs (snd y) = obs s"
    by (rule await_receipt.raw_induct [OF _ run])
      (auto split: prod.splits outcome.splits option.splits if_splits
        dest!: stable_perform [rotated] dest: stable_await_confirmations)
  then show ?thesis using N by simp
qed

lemma stable_waitForReceipt [simp, intro]: "calm_node N \<Longrightarrow> stable (waitForReceipt N ctx c h k)"
proof -
  assume N: "calm_node N"
  have "stable (await_receipt N c ctx t0 n h k)" for t0 n
    using stable_await_receipt [OF N] by (fastforce simp: stable_def)
  then show ?thesis using N by (auto simp: waitForReceipt_def)
qed

lemma stable_build [simp, intro]:
  assumes "calm_node N"
  shows "stable (buildSignedTransactionValue N H sd ctx dest data amount nonce)"
    "stable (buildSignedTransaction N H sd ctx dest data nonce)"
    "stable (buildSignedValueTransaction N H sd ctx addr amount nonce)"
  using assms by (auto simp: buildSignedTransactionValue_def buildSignedTransaction_def buildSignedValueTransaction_def)

lemma stable_checked_receipt [simp, intro]: "calm_node N \<Longrightarrow> stable (checked_receipt N H ctx c k what tx)"
  by (auto simp: checked_receipt_def)

lemma stable_reads [simp, intro]:
  assumes "calm_node N"
  shows "stable (lookupIncludedAt N ctx c receipt)" "stable (loadContractArtifact N H dir name)"
    "stable (readLaneHead N H ctx c certifier abi lane)" "stable (load_bundle N path)" "stable (artifacts_of b)"
  using assms by (auto simp: lookupIncludedAt_def loadContractArtifact_def readLaneHead_def load_bundle_def artifacts_of_def
      split: option.split)

end

text \<open>Observations that see neither the open connections nor the output are also left alone by connecting, closing and printing.\<close>

lemma on_failure_cases: "on_failure d m s = Some (r, s') \<Longrightarrow> \<exists>s1. m s = Some (r, s1) \<and> (s' = s1 \<or> s' = d s1)"
  by (cases r) (auto simp: on_failure_def)

locale bystander = observer +
  assumes clients: "obs (s\<lparr> ss_clients := cs \<rparr>) = obs s" and stdout: "obs (s\<lparr> ss_stdout := t \<rparr>) = obs s"
begin

lemma obs_Close [simp]: "obs (Close c s) = obs s" "obs (CloseAll cs s) = obs s"
proof -
  show close: "obs (Close c s) = obs s" for c s by (simp add: Close_def clients)
  show "obs (CloseAll cs s) = obs s" by (induction cs arbitrary: s) (simp_all add: CloseAll_def close)
qed

lemma stable_connect [simp, intro]: "calm_node N \<Longrightarrow> stable (connect N url)"
  unfolding connect_def by (rule stable_andThen, blast) (simp add: stable_def clients)

lemma stable_printJSON [simp, intro]: "stable (printJSON v)"
  by (simp add: stable_def printJSON_def stdout)

lemma stable_deferring [intro!]: "stable m \<Longrightarrow> stable (deferring (CloseAll cs) m)"
  by (auto simp: stable_def deferring_def)

lemma stable_on_failure [intro!]: "stable m \<Longrightarrow> stable (on_failure (Close c) m)" "stable m \<Longrightarrow> stable (on_failure (CloseAll cs) m)"
  by (fastforce simp: stable_def dest!: on_failure_cases)+

lemma stable_newSender [simp, intro]: "calm_node N \<Longrightarrow> stable (newSender N H url k g n)"
  by (auto simp: newSender_def split: option.split)

end

definition any_world :: "'w \<Rightarrow> 'w \<Rightarrow> bool" where
  "any_world w w' = True"

interpretation clients: observer "\<lambda>s. mset (ss_clients s)" any_world by unfold_locales simp
interpretation sent: bystander ss_sent any_world by unfold_locales simp_all

lemma calm_any [simp, intro]: "observer.calm any_world f" "observer.calm_node any_world N"
  by (simp_all add: clients.calm_node_def clients.calm_def any_world_def)

section \<open>Connections are closed\<close>

text \<open>A program that fails, or leaves the given clients open beyond those that were.\<close>

definition opens :: "('a \<Rightarrow> client list) \<Rightarrow> ('w, 'a) cmd \<Rightarrow> bool" where
  "opens cl m \<longleftrightarrow> (\<forall>s r s'. m s = Some (r, s') \<longrightarrow>
     mset (ss_clients s') = mset (ss_clients s) + (case r of Done x \<Rightarrow> mset (cl x) | _ \<Rightarrow> {#}))"

lemma Close_fields [simp]:
  "ss_clients (Close c s) = remove1 c (ss_clients s)" "ss_sent (Close c s) = ss_sent s" "ss_stdout (Close c s) = ss_stdout s"
  by (simp_all add: Close_def)

lemma CloseAll_fields [simp]:
  "mset (ss_clients (CloseAll cs s)) = mset (ss_clients s) - mset cs"
  "ss_sent (CloseAll cs s) = ss_sent s" "ss_stdout (CloseAll cs s) = ss_stdout s"
  by (induction cs arbitrary: s) (simp_all add: CloseAll_def)

lemma stable_opens: "clients.stable m \<Longrightarrow> (\<And>x. cl x = []) \<Longrightarrow> opens cl m"
  by (fastforce simp: clients.stable_def opens_def split: outcome.split)

lemma opens_stable: "opens (\<lambda>_. []) m \<Longrightarrow> clients.stable m"
  by (fastforce simp: clients.stable_def opens_def split: outcome.splits)

lemma opens_andThen:
  assumes "clients.stable m" "\<And>x. opens cl (f x)" shows "opens cl (andThen m f)"
  unfolding opens_def
proof (intro allI impI)
  fix s r s' assume "andThen m f s = Some (r, s')"
  then consider x s1 where "m s = Some (Done x, s1)" "f x s1 = Some (r, s')"
    | e where "m s = Some (Failed e, s')" "r = Failed e" | "m s = Some (Panic, s')" "r = Panic"
    by (auto simp: andThen_Done)
  then show "mset (ss_clients s') = mset (ss_clients s) + (case r of Done x \<Rightarrow> mset (cl x) | _ \<Rightarrow> {#})"
    by cases (use assms clients.stableD in \<open>fastforce simp: opens_def\<close>)+
qed

lemma connect_opens: "opens (\<lambda>c. [c]) (connect N url)"
  by (auto simp: opens_def connect_def andThen_Done calling_def dest: clients.stable_perform [rotated])

text \<open>Closing on the error path, and closing in a deferred call.\<close>

lemma closing_failure:
  assumes "clients.stable m" "mset (ss_clients s) = M + {#c#}" "on_failure (Close c) m s = Some (r, s')"
  shows "mset (ss_clients s') = M + (case r of Failed _ \<Rightarrow> {#} | _ \<Rightarrow> {#c#})"
proof -
  obtain s1 where m: "m s = Some (r, s1)" "s' = (case r of Failed _ \<Rightarrow> Close c s1 | _ \<Rightarrow> s1)"
    using assms(3) by (auto simp: on_failure_def)
  have "mset (ss_clients s1) = M + {#c#}" using clients.stableD [OF assms(1) m(1)] assms(2) by simp
  then show ?thesis using m(2) by (cases r) simp_all
qed

lemma deferred_close:
  assumes "opens cl m" "\<And>x. clients.stable (f x)"
  shows "clients.stable (andThen m (\<lambda>x. deferring (CloseAll (cl x)) (f x)))"
  unfolding clients.stable_def
proof (intro allI impI)
  fix s r s' assume "andThen m (\<lambda>x. deferring (CloseAll (cl x)) (f x)) s = Some (r, s')"
  then consider x s1 s2 where "m s = Some (Done x, s1)" "f x s1 = Some (r, s2)" "s' = CloseAll (cl x) s2"
    | e where "m s = Some (Failed e, s')" | "m s = Some (Panic, s')"
    by (auto simp: andThen_Done deferring_def)
  then show "mset (ss_clients s') = mset (ss_clients s)"
  proof cases
    case 1
    have "mset (ss_clients s2) = mset (ss_clients s1)" using clients.stableD [OF assms(2) 1(2)] .
    moreover have "mset (ss_clients s1) = mset (ss_clients s) + mset (cl x)" using assms(1) 1(1) by (fastforce simp: opens_def)
    ultimately show ?thesis using 1(3) by simp
  qed (use assms(1) in \<open>fastforce simp: opens_def\<close>)+
qed

text \<open>The part of \<^verbatim>\<open>newSender\<close> after the connection was made.\<close>

definition sender_on :: "'w node \<Rightarrow> host \<Rightarrow> key \<Rightarrow> string \<Rightarrow> u64 \<Rightarrow> client \<Rightarrow> ctx \<Rightarrow> ('w, sender) cmd" where
  "sender_on N H privateKey gasPriceText confirmations client ctx =
     andThen (calling (ChainID N client ctx)) (\<lambda>chainID.
     andThen (texting (parseBigInt gasPriceText)) (\<lambda>parsed.
     andThen (case parsed of None \<Rightarrow> calling (SuggestGasPrice N client ctx) | Some p \<Rightarrow> ret p) (\<lambda>gasPrice.
       ret \<lparr> sd_client = client, sd_privateKey = privateKey, sd_from = PubkeyToAddress H privateKey,
             sd_chainID = chainID, sd_gasPrice = gasPrice,
             sd_gasLimit = of_int (envOrInt (Getenv H) ''KAIA_GAS_LIMIT'' 0),
             sd_confirmations = confirmations \<rparr>)))"

lemma sender_on_stable: "clients.stable (sender_on N H key g n c ctx)"
  by (auto simp: sender_on_def split: option.split)

lemma sender_on_client: "sender_on N H key g n c ctx s = Some (Done sd, s') \<Longrightarrow> sd_client sd = c"
  by (auto simp: sender_on_def andThen_Done split: option.splits)

lemma sender_on_no_panic: "sender_on N H key g n c ctx s \<noteq> Some (Panic, s')"
  by (auto simp: sender_on_def andThen_Done calling_def perform_def texting_def lift_def split: option.splits sum.splits prod.splits)

lemma WithTimeout_done: "\<exists>x s'. WithTimeout N ctx d s = Some (Done x, s')"
  by (simp add: WithTimeout_def now_def calling_def perform_def andThen_def split: prod.split)

lemma newSender_opens: "opens (\<lambda>sd. [sd_client sd]) (newSender N H url k g n)"
proof (cases "k = []")
  case True
  then show ?thesis by (simp add: newSender_def opens_def)
next
  case False
  have "opens (\<lambda>sd. [sd_client sd]) (andThen (connect N url) (\<lambda>client. andThen (WithTimeout N None (15 * 1000000000)) (\<lambda>ctx.
      on_failure (Close client) (sender_on N H key g n client ctx))))" for key
    unfolding opens_def
  proof (intro allI impI)
    fix s r s'
    assume "andThen (connect N url) (\<lambda>client. andThen (WithTimeout N None (15 * 1000000000)) (\<lambda>ctx.
        on_failure (Close client) (sender_on N H key g n client ctx))) s = Some (r, s')"
    then consider c s1 where "connect N url s = Some (Done c, s1)" "(andThen (WithTimeout N None (15 * 1000000000)) (\<lambda>ctx.
        on_failure (Close c) (sender_on N H key g n c ctx))) s1 = Some (r, s')"
      | e where "connect N url s = Some (Failed e, s')" "r = Failed e" | "connect N url s = Some (Panic, s')" "r = Panic"
      by (auto simp: andThen_Done)
    then show "mset (ss_clients s') = mset (ss_clients s) + (case r of Done x \<Rightarrow> mset [sd_client x] | _ \<Rightarrow> {#})"
    proof cases
      case (1 c s1)
      obtain ctx s2 where w: "WithTimeout N None (15 * 1000000000) s1 = Some (Done ctx, s2)"
        using WithTimeout_done by blast
      then have f: "on_failure (Close c) (sender_on N H key g n c ctx) s2 = Some (r, s')"
        using 1(2) by (simp add: andThen_def)
      have "mset (ss_clients s1) = mset (ss_clients s) + {#c#}"
        using connect_opens 1(1) by (fastforce simp: opens_def)
      then have "mset (ss_clients s2) = mset (ss_clients s) + {#c#}"
        using clients.stableD [OF clients.stable_now(2) w] by simp
      then have m: "mset (ss_clients s') = mset (ss_clients s) + (case r of Failed _ \<Rightarrow> {#} | _ \<Rightarrow> {#c#})"
        by (rule closing_failure [OF sender_on_stable _ f])
      show ?thesis
      proof (cases r)
        case (Done sd)
        then have "sd_client sd = c" using f by (auto simp: on_failure_def dest: sender_on_client)
        then show ?thesis using m Done by simp
      next
        case Panic
        then show ?thesis using f by (auto simp: on_failure_def sender_on_no_panic)
      qed (use m in simp)
    qed (use connect_opens in \<open>fastforce simp: opens_def\<close>)+
  qed
  then show ?thesis
    using False unfolding newSender_def sender_on_def by (auto intro: opens_andThen)
qed

end
