(* ===== verification/Proofctl_Wait.thy ===== *)
theory Proofctl_Wait imports Proofctl_Laws begin

text \<open>
  \<^verbatim>\<open>waitForReceipt\<close> of \<^verbatim>\<open>cmd/kaia-proofctl/main.go\<close>: it ends with its deadline, need not end without one, and returns
  only receipts the node gave, with the asked number of blocks on top.
\<close>

section \<open>Waiting\<close>

text \<open>
  What waiting relies on: a call whose deadline has passed fails with an error that does not say that something was
  not found, and the next tick does not come before its time.
\<close>

definition keeps_deadline :: "'w node \<Rightarrow> ('w \<Rightarrow> int) \<Rightarrow> client \<Rightarrow> byte list \<Rightarrow> int \<Rightarrow> bool" where
  "keeps_deadline N clk c h d \<longleftrightarrow>
     (\<forall>w. d \<le> clk w \<longrightarrow> (\<exists>e. fst (TransactionReceipt N c (Some d) h w) = Inl e \<and> \<not> Contains e ''not found'')
        \<and> (\<exists>e. fst (HeaderByNumber N c (Some d) None w) = Inl e))
     \<and> (\<forall>t n w. fst (Wait N (Some d) t n w) = Inr () \<longrightarrow>
          t + pollInterval * int (Suc n) \<le> clk (snd (Wait N (Some d) t n w)))"

lemma keeps_deadlineD:
  assumes "keeps_deadline N clk c h d"
  shows "d \<le> clk w \<Longrightarrow> \<exists>e. fst (TransactionReceipt N c (Some d) h w) = Inl e \<and> \<not> Contains e ''not found''"
    and "d \<le> clk w \<Longrightarrow> \<exists>e. fst (HeaderByNumber N c (Some d) None w) = Inl e"
    and "fst (Wait N (Some d) t n w) = Inr () \<Longrightarrow> t + pollInterval * int (Suc n) \<le> clk (snd (Wait N (Some d) t n w))"
  using assms unfolding keeps_deadline_def by blast+

lemma perform_Done: "perform f s = (Done x, s') \<Longrightarrow> fst (f (ss_world s)) = Inr x \<and> ss_world s' = snd (f (ss_world s))"
  by (auto simp: perform_def split: prod.splits sum.splits)

lemma perform_Inl: "fst (f (ss_world s)) = Inl e \<Longrightarrow> \<exists>s'. perform f s = (Failed e, s')"
  by (auto simp: perform_def split: prod.splits)

lemma not_Panic: "perform f s \<noteq> (Panic, s')"
  by (metis fst_conv perform_fields(4))

text \<open>The clock after the \<open>n\<close>th tick.\<close>

definition ticked :: "('w \<Rightarrow> int) \<Rightarrow> int \<Rightarrow> nat \<Rightarrow> 'w session \<Rightarrow> bool" where
  "ticked clk t0 n s \<longleftrightarrow> t0 + pollInterval * int n \<le> clk (ss_world s)"

lemma wait_ticks:
  assumes "keeps_deadline N clk c h d" "perform (Wait N (Some d) t0 n) s = (Done u, s')"
  shows "ticked clk t0 (Suc n) s'"
  using keeps_deadlineD(3) [OF assms(1)] perform_Done [OF assms(2)] by (simp add: ticked_def)

lemma before_deadline:
  assumes "ticked clk t0 n s" "clk (ss_world s) < d"
  shows "nat (d - (t0 + pollInterval * int (Suc n))) < nat (d - (t0 + pollInterval * int n))"
  using assms by (simp add: ticked_def pollInterval_def)

lemma header_in_time:
  assumes "keeps_deadline N clk c h d" "perform (HeaderByNumber N c (Some d) None) s = (Done hdr, s')"
  shows "clk (ss_world s) < d"
  using keeps_deadlineD(2) [OF assms(1), of "ss_world s"] perform_Done [OF assms(2)] by (metis not_le sum.distinct(1))

lemma receipt_in_time:
  assumes "keeps_deadline N clk c h d" "perform (TransactionReceipt N c (Some d) h) s = (Failed e, s')" "Contains e ''not found''"
  shows "clk (ss_world s) < d"
proof (rule ccontr)
  assume "\<not> clk (ss_world s) < d"
  then obtain e' where "fst (TransactionReceipt N c (Some d) h (ss_world s)) = Inl e'" "\<not> Contains e' ''not found''"
    using keeps_deadlineD(1) [OF assms(1), of "ss_world s"] by (meson not_le)
  then show False using assms(2,3) by (auto simp: perform_def split: prod.splits)
qed

lemma await_confirmations_returns:
  assumes k: "keeps_deadline N clk c h d" and "ticked clk t0 n s"
  shows "\<exists>a b. await_confirmations N c (Some d) t0 n rc confs s = Some (a, b)"
  using assms(2)
proof (induction "nat (d - (t0 + pollInterval * int n))" arbitrary: n s rule: less_induct)
  case less
  have "\<exists>a b. await_confirmations N c (Some d) t0 (Suc n) rc confs s2 = Some (a, b)"
    if "perform (HeaderByNumber N c (Some d) None) s = (Done hdr, s1)" "perform (Wait N (Some d) t0 n) s1 = (Done u, s2)"
    for hdr u s1 s2
    by (rule less.hyps [OF before_deadline [OF less.prems header_in_time [OF k that(1)]] wait_ticks [OF k that(2)]])
  then show ?case
    by (subst await_confirmations.simps) (auto split: outcome.split option.split prod.split)
qed

lemma await_confirmations_any:
  assumes k: "keeps_deadline N clk c h d"
  shows "\<exists>a b. await_confirmations N c (Some d) t0 n rc confs s = Some (a, b)"
  by (subst await_confirmations.simps)
    (auto split: outcome.split option.split prod.split intro: await_confirmations_returns [OF k] dest!: wait_ticks [OF k])

lemma await_receipt_returns:
  assumes k: "keeps_deadline N clk c h d" and "ticked clk t0 n s"
  shows "\<exists>a b. await_receipt N c (Some d) t0 n h confs s = Some (a, b)"
  using assms(2)
proof (induction "nat (d - (t0 + pollInterval * int n))" arbitrary: n s rule: less_induct)
  case less
  have "\<exists>a b. await_receipt N c (Some d) t0 (Suc n) h confs s2 = Some (a, b)"
    if "perform (TransactionReceipt N c (Some d) h) s = (Failed e, s1)" "Contains e ''not found''"
      "perform (Wait N (Some d) t0 n) s1 = (Done u, s2)" for e u s1 s2
    by (rule less.hyps [OF before_deadline [OF less.prems receipt_in_time [OF k that(1,2)]] wait_ticks [OF k that(3)]])
  then show ?case
    by (subst await_receipt.simps) (auto split: outcome.split prod.split intro: await_confirmations_any [OF k])
qed

lemma await_receipt_any:
  assumes k: "keeps_deadline N clk c h d"
  shows "\<exists>a b. await_receipt N c (Some d) t0 n h confs s = Some (a, b)"
  by (subst await_receipt.simps)
    (auto split: outcome.split prod.split intro: await_receipt_returns [OF k] await_confirmations_any [OF k]
      dest!: wait_ticks [OF k])


text \<open>A node that keeps the deadline: its clock is the world, and it never knows the transaction.\<close>

definition silent_node :: "int node" where
  "silent_node = \<lparr> Dial = (\<lambda>url w. (Inr 0, w)), ChainID = (\<lambda>c ctx w. (Inr 1, w)), NetworkID = (\<lambda>c ctx w. (Inr 1, w)),
     SuggestGasPrice = (\<lambda>c ctx w. (Inr 1, w)), HeaderByNumber = (\<lambda>c ctx n w. (Inl ''not found'', w)),
     BalanceAt = (\<lambda>c ctx a w. (Inr 0, w)), NonceAt = (\<lambda>c ctx a w. (Inr 0, w)),
     PendingNonceAt = (\<lambda>c ctx a w. (Inr 0, w)), CodeAt = (\<lambda>c ctx a w. (Inr [], w)),
     EstimateGas = (\<lambda>c ctx m w. (Inr 21000, w)), SendTransaction = (\<lambda>c ctx t w. (Inr (), w)),
     TransactionReceipt = (\<lambda>c ctx h w. (Inl (case ctx of None \<Rightarrow> ''not found''
        | Some d \<Rightarrow> if d \<le> w then ''context deadline exceeded'' else ''not found''), w)),
     CallContract = (\<lambda>c ctx m w. (Inr [], w)), Now = (\<lambda>w. (w, w)),
     Wait = (\<lambda>ctx t n w. (Inr (), max w (t + pollInterval * int (Suc n)))),
     ReadFile = (\<lambda>p w. (Inl ''no such file'', w)), GenerateKey = (\<lambda>w. (Inr [], w)) \<rparr>"

lemma silent_keeps_deadline: "keeps_deadline silent_node (\<lambda>w. w) c h d"
  by (simp add: keeps_deadline_def silent_node_def HasPrefix_def)


lemma silent_answers:
  "perform (TransactionReceipt silent_node c None h) s = (Failed ''not found'', s)"
  "perform (Wait silent_node None t n) s = (Done (), s\<lparr> ss_world := max (ss_world s) (t + pollInterval * int (Suc n)) \<rparr>)"
  "Contains ''not found'' ''not found''"
  by (simp_all add: perform_def silent_node_def HasPrefix_def)

text \<open>Without a deadline, as the burst commands and the funding call it, waiting for a transaction the node does not know
  never returns.\<close>

theorem waiting_can_hang:
  "waitForReceipt silent_node None c h confs s = None"
proof -
  have "False" if "await_receipt N c None t0 n h confs s = Some y" "N = silent_node" for N c t0 n h confs y and s :: "int session"
    by (rule await_receipt.raw_induct [where P = "\<lambda>N c ctx t0 n h confs s y. ctx = None \<longrightarrow> N = silent_node \<longrightarrow> False",
          OF _ that(1), rule_format])
      (simp add: silent_answers that(2) del: Contains.simps, blast, simp, rule that(2))
  then have "await_receipt silent_node c None t0 0 h confs s1 = None" for t0 s1 by (cases "await_receipt silent_node c None t0 0 h confs s1") blast+
  moreover have "now silent_node s = Some (Done (ss_world s), s)" by (simp add: now_def calling_def perform_def silent_node_def)
  ultimately show ?thesis by (simp add: waitForReceipt_def andThen_def)
qed

lemma confirmed:
  assumes "await_confirmations N c ctx t0 n rc confs s = Some y"
  shows "\<forall>rc' s'. y = (Done rc', s') \<longrightarrow> rc' = rc \<and> (\<exists>b w hdr. rc_BlockNumber rc = Some b
    \<and> fst (HeaderByNumber N c ctx None w) = Inr hdr \<and> b + uint (confs - 1) \<le> hd_Number hdr)"
  by (rule await_confirmations.raw_induct [OF _ assms])
    (fastforce split: prod.splits outcome.splits option.splits if_splits dest: perform_Done)

definition receipt_good :: "'w node \<Rightarrow> client \<Rightarrow> ctx \<Rightarrow> byte list \<Rightarrow> u64 \<Rightarrow> receipt \<Rightarrow> bool" where
  "receipt_good N c ctx h confs rc \<longleftrightarrow> (\<exists>w. fst (TransactionReceipt N c ctx h w) = Inr rc)
     \<and> (1 < confs \<longrightarrow> (\<exists>b w hdr. rc_BlockNumber rc = Some b
          \<and> fst (HeaderByNumber N c ctx None w) = Inr hdr \<and> b + uint (confs - 1) \<le> hd_Number hdr))"

lemma received:
  assumes "await_receipt N c ctx t0 n h confs s = Some y"
  shows "\<forall>rc s'. y = (Done rc, s') \<longrightarrow> receipt_good N c ctx h confs rc"
proof (rule await_receipt.raw_induct [OF _ assms])
  fix self :: "'a node \<Rightarrow> client \<Rightarrow> ctx \<Rightarrow> int \<Rightarrow> nat \<Rightarrow> byte list \<Rightarrow> u64 \<Rightarrow> 'a session \<Rightarrow> (receipt outcome \<times> 'a session) option"
  fix N :: "'a node" and c ctx t0 n h confs s y
  assume IH: "\<And>N c ctx t0 n h confs s y. self N c ctx t0 n h confs s = Some y
      \<Longrightarrow> \<forall>rc s'. y = (Done rc, s') \<longrightarrow> receipt_good N c ctx h confs rc"
    and body: "(case perform (TransactionReceipt N c ctx h) s of
        (Done receipt, s) \<Rightarrow>
          (if confs \<le> 1 then Some (Done receipt, s) else await_confirmations N c ctx t0 n receipt confs s)
      | (Failed e, s) \<Rightarrow>
          (if \<not> Contains e ''not found'' then Some (Failed e, s)
           else (case perform (Wait N ctx t0 n) s of
              (Done _, s) \<Rightarrow> self N c ctx t0 (Suc n) h confs s
            | (Failed e, s) \<Rightarrow> Some (Failed e, s)
            | (Panic, s) \<Rightarrow> Some (Panic, s)))
      | (Panic, s) \<Rightarrow> Some (Panic, s)) = Some y"
  obtain r s1 where T: "perform (TransactionReceipt N c ctx h) s = (r, s1)"
    by (cases "perform (TransactionReceipt N c ctx h) s")
  show "\<forall>rc s'. y = (Done rc, s') \<longrightarrow> receipt_good N c ctx h confs rc"
  proof (cases r)
    case (Done rc)
    have "fst (TransactionReceipt N c ctx h (ss_world s)) = Inr rc" using perform_Done [OF T [unfolded Done]] by blast
    then show ?thesis
      using body T Done confirmed [of N c ctx t0 n rc confs s1]
      by (cases "confs \<le> 1") (fastforce simp: receipt_good_def)+
  next
    case (Failed e)
    then show ?thesis using body T IH
      by (auto split: if_splits prod.splits outcome.splits)
  qed (use body T in auto)
qed

text \<open>C18. A receipt that is returned came from the node, and the node's head had the asked number of blocks from the receipt's
  block on.\<close>

theorem waitForReceipt_sound:
  assumes "waitForReceipt N ctx c h confs s = Some (Done rc, s')"
  shows "(\<exists>w. fst (TransactionReceipt N c ctx h w) = Inr rc)
    \<and> (1 < confs \<longrightarrow> (\<exists>b w hdr. rc_BlockNumber rc = Some b \<and> fst (HeaderByNumber N c ctx None w) = Inr hdr
        \<and> b + int (unat confs) \<le> hd_Number hdr + 1))"
proof -
  have g: "receipt_good N c ctx h confs rc"
    using assms received by (fastforce simp: waitForReceipt_def andThen_Done)
  have "uint (confs - 1) = uint confs - 1" if "1 < confs"
    using that by (metis uint_minus_simple_alt uint_1 order_less_imp_le)
  then show ?thesis using g unfolding receipt_good_def by fastforce
qed

text \<open>A node with the transaction in its block 7 and the head at block 9.\<close>

definition ready_node :: "int node" where
  "ready_node = silent_node\<lparr>
     TransactionReceipt := (\<lambda>c ctx h w. (Inr \<lparr> rc_Status = 1, rc_BlockNumber = Some 7, rc_GasUsed = 21000, rc_ContractAddress = [] \<rparr>, w)),
     HeaderByNumber := (\<lambda>c ctx n w. (Inr \<lparr> hd_Number = 9, hd_Time = 100, hd_BaseFee = None \<rparr>, w)) \<rparr>"

theorem waitForReceipt_sound_witness:
  "\<exists>rc s'. waitForReceipt ready_node None 0 [] 3 \<lparr> ss_world = 0, ss_clients = [], ss_stdout = [], ss_sent = [] \<rparr> = Some (Done rc, s')
     \<and> (\<exists>b w hdr. rc_BlockNumber rc = Some b \<and> fst (HeaderByNumber ready_node 0 None None w) = Inr hdr \<and> b + 3 \<le> hd_Number hdr + 1)"
proof -
  let ?s = "\<lparr> ss_world = 0, ss_clients = [], ss_stdout = [], ss_sent = [] \<rparr>"
  let ?rc = "\<lparr> rc_Status = 1, rc_BlockNumber = Some 7, rc_GasUsed = 21000, rc_ContractAddress = [] \<rparr>"
  have "waitForReceipt ready_node None 0 [] 3 ?s = Some (Done ?rc, ?s)"
    by (simp add: waitForReceipt_def andThen_def now_def calling_def perform_def ready_node_def silent_node_def
        await_receipt.simps await_confirmations.simps)
  then show ?thesis using waitForReceipt_sound [of ready_node None 0 "[]" 3 ?s ?rc ?s] by auto
qed

end
