(* ===== verification/Proofctl_Commands.thy ===== *)
theory Proofctl_Commands imports Proofctl_Wait begin

text \<open>
  The commands of \<^verbatim>\<open>cmd/kaia-proofctl/main.go\<close>, each from its parsed flags on.  The flags of a command are the
  arguments of its definition; \<open>flags\<close> holds those that most commands share.
\<close>

section \<open>Flags and summaries\<close>

record flags =
  fl_rpcURL :: string
  fl_privateKeyHex :: string
  fl_gasPriceHex :: string
  fl_bundlePath :: string
  fl_artifactsDir :: string
  fl_confirmations :: u64

record endpointSummary =
  es_RPCURL :: string
  es_ChainID :: string
  es_NetworkID :: string
  es_GasPriceWei :: string
  es_LatestBlock :: string
  es_LatestTimestamp :: string
  es_BaseFeeWei :: string

record keySummary =
  ks_Address :: string
  ks_PrivateKeyHex :: string

record accountStatusSummary =
  ac_RPCURL :: string
  ac_Address :: string
  ac_ChainID :: string
  ac_NetworkID :: string
  ac_BalanceWei :: string
  ac_BalanceKAIA :: string
  ac_Nonce :: u64
  ac_PendingNonce :: u64
  ac_CodeSizeBytes :: int
  ac_SuggestedGasPriceWei :: string

record txSummary =
  ts_Action :: string
  ts_SenderAddress :: string
  ts_TransactionHash :: string
  ts_ContractAddress :: string
  ts_BlockNumber :: string
  ts_BlockTimestamp :: string
  ts_GasLimit :: u64
  ts_GasUsed :: u64
  ts_BlockInclusionLatencyMS :: int
  ts_ReceiptLatencyMS :: int
  ts_ReceiptVisibilityDelayMS :: int
  ts_Confirmations :: u64
  ts_VerifiedTxTotal :: u64
  ts_TPS :: string
  ts_ReceiptVisibleTPS :: string
  ts_ValueWei :: string

text \<open>A field tagged \<^verbatim>\<open>omitempty\<close> is left out when it is zero.\<close>

definition str :: "string \<Rightarrow> string \<Rightarrow> (string \<times> json) list" where
  "str name v = [(name, JStr v)]"

definition opt_str :: "string \<Rightarrow> string \<Rightarrow> (string \<times> json) list" where
  "opt_str name v = (if v = [] then [] else [(name, JStr v)])"

definition num :: "string \<Rightarrow> int \<Rightarrow> (string \<times> json) list" where
  "num name i = [(name, JNum (dec_int i))]"

definition opt_num :: "string \<Rightarrow> int \<Rightarrow> (string \<times> json) list" where
  "opt_num name i = (if i = 0 then [] else [(name, JNum (dec_int i))])"

definition json_endpointSummary :: "endpointSummary \<Rightarrow> json" where
  "json_endpointSummary e = JObj (str ''rpc_url'' (es_RPCURL e) @ str ''chain_id'' (es_ChainID e)
     @ str ''network_id'' (es_NetworkID e) @ str ''gas_price_wei'' (es_GasPriceWei e)
     @ str ''latest_block'' (es_LatestBlock e) @ str ''latest_timestamp_utc'' (es_LatestTimestamp e)
     @ opt_str ''base_fee_wei'' (es_BaseFeeWei e))"

definition json_keySummary :: "keySummary \<Rightarrow> json" where
  "json_keySummary k = JObj (str ''address'' (ks_Address k) @ str ''private_key_hex'' (ks_PrivateKeyHex k))"

definition json_accountStatusSummary :: "accountStatusSummary \<Rightarrow> json" where
  "json_accountStatusSummary a = JObj (str ''rpc_url'' (ac_RPCURL a) @ str ''address'' (ac_Address a)
     @ str ''chain_id'' (ac_ChainID a) @ str ''network_id'' (ac_NetworkID a) @ str ''balance_wei'' (ac_BalanceWei a)
     @ str ''balance_kaia'' (ac_BalanceKAIA a) @ num ''nonce'' (uint (ac_Nonce a))
     @ num ''pending_nonce'' (uint (ac_PendingNonce a)) @ num ''code_size_bytes'' (ac_CodeSizeBytes a)
     @ str ''suggested_gas_price_wei'' (ac_SuggestedGasPriceWei a))"

definition json_txSummary :: "txSummary \<Rightarrow> json" where
  "json_txSummary t = JObj (str ''action'' (ts_Action t) @ opt_str ''sender_address'' (ts_SenderAddress t)
     @ str ''transaction_hash'' (ts_TransactionHash t) @ opt_str ''contract_address'' (ts_ContractAddress t)
     @ opt_str ''block_number'' (ts_BlockNumber t) @ opt_str ''block_timestamp'' (ts_BlockTimestamp t)
     @ num ''gas_limit'' (uint (ts_GasLimit t)) @ num ''gas_used'' (uint (ts_GasUsed t))
     @ opt_num ''block_inclusion_latency_ms'' (ts_BlockInclusionLatencyMS t)
     @ num ''receipt_latency_ms'' (ts_ReceiptLatencyMS t)
     @ opt_num ''receipt_visibility_delay_ms'' (ts_ReceiptVisibilityDelayMS t)
     @ num ''confirmations'' (uint (ts_Confirmations t))
     @ opt_num ''verified_tx_total'' (uint (ts_VerifiedTxTotal t))
     @ opt_str ''tps'' (ts_TPS t) @ opt_str ''receipt_visible_tps'' (ts_ReceiptVisibleTPS t)
     @ opt_str ''value_wei'' (ts_ValueWei t))"

definition empty_summary :: txSummary where
  "empty_summary = \<lparr> ts_Action = [], ts_SenderAddress = [], ts_TransactionHash = [], ts_ContractAddress = [],
     ts_BlockNumber = [], ts_BlockTimestamp = [], ts_GasLimit = 0, ts_GasUsed = 0, ts_BlockInclusionLatencyMS = 0,
     ts_ReceiptLatencyMS = 0, ts_ReceiptVisibilityDelayMS = 0, ts_Confirmations = 0, ts_VerifiedTxTotal = 0,
     ts_TPS = [], ts_ReceiptVisibleTPS = [], ts_ValueWei = [] \<rparr>"

text \<open>The fields of a summary that every command fills in the same way.\<close>

definition tx_summary :: "host \<Rightarrow> string \<Rightarrow> signed_tx \<Rightarrow> receipt \<Rightarrow> u64 \<Rightarrow> int \<Rightarrow> u64 \<Rightarrow> txSummary" where
  "tx_summary H action tx receipt gasLimit latencyMS confirmations = empty_summary\<lparr>
     ts_Action := action, ts_TransactionHash := HashHex H (TxHash H tx),
     ts_BlockNumber := big_text (rc_BlockNumber receipt), ts_GasLimit := gasLimit, ts_GasUsed := rc_GasUsed receipt,
     ts_ReceiptLatencyMS := latencyMS, ts_Confirmations := confirmations \<rparr>"

text \<open>\<^verbatim>\<open>defer client.Close()\<close>.\<close>

definition with_client :: "'w node \<Rightarrow> string \<Rightarrow> (client \<Rightarrow> ('w, 'a) cmd) \<Rightarrow> ('w, 'a) cmd" where
  "with_client N url f = andThen (connect N url) (\<lambda>c. deferring (CloseAll [c]) (f c))"

definition with_sender :: "'w node \<Rightarrow> host \<Rightarrow> flags \<Rightarrow> (sender \<Rightarrow> ('w, 'a) cmd) \<Rightarrow> ('w, 'a) cmd" where
  "with_sender N H fl f =
     andThen (newSender N H (fl_rpcURL fl) (fl_privateKeyHex fl) (fl_gasPriceHex fl) (fl_confirmations fl)) (\<lambda>sd.
       deferring (CloseAll [sd_client sd]) (f sd))"

section \<open>Keys, accounts and endpoints\<close>

definition runDiscover :: "'w node \<Rightarrow> host \<Rightarrow> string \<Rightarrow> ('w, unit) cmd" where
  "runDiscover N H rpcURL = with_client N rpcURL (\<lambda>client.
     andThen (WithTimeout N None (15 * 1000000000)) (\<lambda>ctx.
     andThen (calling (ChainID N client ctx)) (\<lambda>chainID.
     andThen (calling (NetworkID N client ctx)) (\<lambda>networkID.
     andThen (calling (SuggestGasPrice N client ctx)) (\<lambda>gasPrice.
     andThen (calling (HeaderByNumber N client ctx None)) (\<lambda>header.
       printJSON (json_endpointSummary \<lparr> es_RPCURL = rpcURL, es_ChainID = dec_int chainID, es_NetworkID = dec_int networkID,
         es_GasPriceWei = dec_int gasPrice, es_LatestBlock = dec_int (hd_Number header),
         es_LatestTimestamp = FormatUTC H (unix_time (hd_Time header)),
         es_BaseFeeWei = (case hd_BaseFee header of None \<Rightarrow> [] | Some b \<Rightarrow> dec_int b) \<rparr>)))))))"

definition runGenerateKey :: "'w node \<Rightarrow> host \<Rightarrow> ('w, unit) cmd" where
  "runGenerateKey N H = andThen (calling (GenerateKey N)) (\<lambda>privateKey.
     printJSON (json_keySummary \<lparr> ks_Address = AddressHex H (PubkeyToAddress H privateKey),
       ks_PrivateKeyHex = EncodeToString (FromECDSA H privateKey) \<rparr>))"

text \<open>\<^verbatim>\<open>HexToECDSA\<close> and \<^verbatim>\<open>PubkeyToAddress\<close> together.\<close>

definition key_address :: "host \<Rightarrow> string \<Rightarrow> string + address" where
  "key_address H hex = map_sum id (PubkeyToAddress H) (HexToECDSA H hex)"

definition runAccountStatus :: "'w node \<Rightarrow> host \<Rightarrow> string \<Rightarrow> string \<Rightarrow> string \<Rightarrow> ('w, unit) cmd" where
  "runAccountStatus N H rpcURL privateKeyHex addressText =
     andThen (texting (resolveAccountAddress (IsHexAddress H) (HexToAddress H) (key_address H) addressText privateKeyHex)) (\<lambda>address.
     with_client N rpcURL (\<lambda>client.
     andThen (WithTimeout N None (20 * 1000000000)) (\<lambda>ctx.
     andThen (calling (ChainID N client ctx)) (\<lambda>chainID.
     andThen (calling (NetworkID N client ctx)) (\<lambda>networkID.
     andThen (calling (BalanceAt N client ctx address)) (\<lambda>balance.
     andThen (calling (NonceAt N client ctx address)) (\<lambda>nonce.
     andThen (calling (PendingNonceAt N client ctx address)) (\<lambda>pendingNonce.
     andThen (calling (CodeAt N client ctx address)) (\<lambda>code.
     andThen (calling (SuggestGasPrice N client ctx)) (\<lambda>gasPrice.
       printJSON (json_accountStatusSummary \<lparr> ac_RPCURL = rpcURL, ac_Address = AddressHex H address,
         ac_ChainID = dec_int chainID, ac_NetworkID = dec_int networkID, ac_BalanceWei = dec_int balance,
         ac_BalanceKAIA = weiToEtherString (Some balance), ac_Nonce = nonce, ac_PendingNonce = pendingNonce,
         ac_CodeSizeBytes = int (length code), ac_SuggestedGasPriceWei = dec_int gasPrice \<rparr>)))))))))))"

section \<open>Funding\<close>

record pendingTx =
  pt_to :: address
  pt_tx :: signed_tx
  pt_gasLimit :: u64
  pt_sentAt :: int

text \<open>The loops that send: one transaction for each receiver, with consecutive nonces.\<close>

definition send_item ::
    "'w node \<Rightarrow> client \<Rightarrow> ctx \<Rightarrow> ('w, signed_tx \<times> u64) cmd \<Rightarrow> address \<Rightarrow> ('w, pendingTx) cmd" where
  "send_item N c ctx build dest = andThen build (\<lambda>(signedTx, gasLimit).
     andThen (now N) (\<lambda>sentAt.
     andThen (send N c ctx signedTx) (\<lambda>_.
       ret \<lparr> pt_to = dest, pt_tx = signedTx, pt_gasLimit = gasLimit, pt_sentAt = sentAt \<rparr>)))"

definition fund_send :: "'w node \<Rightarrow> host \<Rightarrow> sender \<Rightarrow> int \<Rightarrow> u64 \<Rightarrow> nat \<times> address \<Rightarrow> ('w, pendingTx) cmd" where
  "fund_send N H sd amountWei nonce = (\<lambda>(i, recipient).
     send_item N (sd_client sd) None (buildSignedValueTransaction N H sd None recipient amountWei (nonce + of_nat i)) recipient)"

text \<open>The receipt of one funding; the result carries when it was seen, for \<^verbatim>\<open>end\<close>.\<close>

definition fund_receipt ::
    "'w node \<Rightarrow> host \<Rightarrow> sender \<Rightarrow> u64 \<Rightarrow> int \<Rightarrow> pendingTx \<Rightarrow> ('w, int \<times> txSummary) cmd" where
  "fund_receipt N H sd confirmations amountWei item =
     andThen (checked_receipt N H None (sd_client sd) (sd_confirmations sd) ''fund transaction'' (pt_tx item)) (\<lambda>receipt.
     andThen (now N) (\<lambda>stop.
     andThen (now N) (\<lambda>t.
       ret (stop, (tx_summary H ''fund-account'' (pt_tx item) receipt (pt_gasLimit item)
                (Milliseconds (time_sub t (pt_sentAt item))) confirmations)
              \<lparr> ts_SenderAddress := AddressHex H (sd_from sd), ts_ContractAddress := AddressHex H (pt_to item),
                ts_ValueWei := dec_int amountWei \<rparr>))))"

definition transactions_json :: "txSummary list \<Rightarrow> json" where
  "transactions_json results = JArr (map json_txSummary results)"

text \<open>\<^verbatim>\<open>if end.IsZero() { end = time.Now() }\<close>.\<close>

definition or_now :: "'w node \<Rightarrow> int \<Rightarrow> ('w, int) cmd" where
  "or_now N t = (if t = zero_time then now N else ret t)"

definition runFundAccounts :: "'w node \<Rightarrow> host \<Rightarrow> flags \<Rightarrow> string \<Rightarrow> string \<Rightarrow> ('w, unit) cmd" where
  "runFundAccounts N H fl recipientsText amountWeiText =
     andThen (texting (parseAddressList (IsHexAddress H) (HexToAddress H) recipientsText)) (\<lambda>recipients.
     if recipients = [] then failing ''missing --recipients''
     else andThen (texting (parseBigInt amountWeiText)) (\<lambda>amount.
     case amount of
       None \<Rightarrow> failing ''missing or invalid --amount-wei''
     | Some amountWei \<Rightarrow>
        if amountWei \<le> 0 then failing ''missing or invalid --amount-wei''
        else with_sender N H fl (\<lambda>sd.
          andThen (calling (PendingNonceAt N (sd_client sd) None (sd_from sd))) (\<lambda>nonce.
          andThen (now N) (\<lambda>start.
          andThen (for_each (fund_send N H sd amountWei nonce) (enumerate 0 recipients)) (\<lambda>pending.
          andThen (for_each (fund_receipt N H sd (fl_confirmations fl) amountWei) pending) (\<lambda>results.
          andThen (or_now N (if results = [] then zero_time else fst (last results))) (\<lambda>stop.
            printJSON (JObj (num ''count'' (int (length results))
              @ num ''window_ms'' (Milliseconds (time_sub stop start))
              @ [(''transactions'', transactions_json (map snd results))]))))))))))"

section \<open>Deployment\<close>

definition deploy ::
    "'w node \<Rightarrow> host \<Rightarrow> flags \<Rightarrow> string \<Rightarrow> string \<Rightarrow> pack_arg list \<Rightarrow> ('w, unit) cmd" where
  "deploy N H fl action contract args = with_sender N H fl (\<lambda>sd.
     andThen (loadContractArtifact N H (fl_artifactsDir fl) contract) (\<lambda>(abiObj, binData).
     andThen (lift (Pack H abiObj '''' args)) (\<lambda>constr.
     andThen (sendTransaction N H sd None None (binData @ constr)) (\<lambda>(receipt, tx, latency, gasLimit).
       printJSON (json_txSummary ((tx_summary H action tx receipt gasLimit (Milliseconds latency) (fl_confirmations fl))
         \<lparr> ts_ContractAddress := AddressHex H (rc_ContractAddress receipt) \<rparr>))))))"

definition runDeployVerifier :: "'w node \<Rightarrow> host \<Rightarrow> flags \<Rightarrow> ('w, unit) cmd" where
  "runDeployVerifier N H fl = deploy N H fl ''deploy-verifier'' ''CCGroth16BatchVerifier'' []"

definition runDeployCertifier :: "'w node \<Rightarrow> host \<Rightarrow> flags \<Rightarrow> string \<Rightarrow> ('w, unit) cmd" where
  "runDeployCertifier N H fl verifierAddress =
     (if verifierAddress = [] then failing ''missing --verifier-address''
      else deploy N H fl ''deploy-certifier'' ''SumPreservingBatchVerifier'' [ArgAddress (HexToAddress H verifierAddress)])"

text \<open>One transaction to a contract, and its summary.\<close>

definition contract_call ::
    "'w node \<Rightarrow> host \<Rightarrow> sender \<Rightarrow> u64 \<Rightarrow> string \<Rightarrow> address \<Rightarrow> byte list \<Rightarrow> ('w, txSummary) cmd" where
  "contract_call N H sd confirmations action dest data =
     andThen (sendTransaction N H sd None (Some dest) data) (\<lambda>(receipt, tx, latency, gasLimit).
       ret (tx_summary H action tx receipt gasLimit (Milliseconds latency) confirmations))"

definition runInitializeVerifyingKey :: "'w node \<Rightarrow> host \<Rightarrow> flags \<Rightarrow> string \<Rightarrow> ('w, unit) cmd" where
  "runInitializeVerifyingKey N H fl verifierAddress =
     (if verifierAddress = [] then failing ''missing --verifier-address''
      else andThen (load_bundle N (fl_bundlePath fl)) (\<lambda>bundle.
           andThen (loadContractArtifact N H (fl_artifactsDir fl) ''CCGroth16BatchVerifier'') (\<lambda>(abiObj, _).
           andThen (lift_panic (toVerifyingKey bundle)) (\<lambda>vk.
           andThen (lift (Pack H abiObj ''initializeVerifyingKey'' [ArgKey vk])) (\<lambda>data.
           with_sender N H fl (\<lambda>sd.
           andThen (contract_call N H sd (fl_confirmations fl) ''init-vk'' (HexToAddress H verifierAddress) data) (\<lambda>t.
             printJSON (json_txSummary t))))))))"

section \<open>Lane heads\<close>

text \<open>The loop over the bundle's lanes: those already initialised are skipped, the others collected.\<close>

fun pick_lanes ::
    "'w node \<Rightarrow> host \<Rightarrow> client \<Rightarrow> address \<Rightarrow> abi \<Rightarrow> bool \<Rightarrow> jsonLaneHead list \<Rightarrow> u16 list \<Rightarrow> (u16 \<times> g1Point) list
     \<Rightarrow> ('w, u16 list \<times> (u16 \<times> g1Point) list) cmd" where
  "pick_lanes N H c dest abiObj skipExisting [] skipped picked = ret (skipped, picked)"
| "pick_lanes N H c dest abiObj skipExisting (lane # lanes) skipped picked =
     andThen (if skipExisting then andThen (readLaneHead N H None c dest abiObj (jh_LaneID lane)) (\<lambda>head.
                ret (g1_X head \<noteq> 0 \<or> g1_Y head \<noteq> 0)) else ret False) (\<lambda>present.
       if present then pick_lanes N H c dest abiObj skipExisting lanes (skipped @ [jh_LaneID lane]) picked
       else andThen (lift_panic (toG1Point (jh_InitialHead lane))) (\<lambda>p.
              pick_lanes N H c dest abiObj skipExisting lanes skipped (picked @ [(jh_LaneID lane, p)])))"

definition init_lanes ::
    "'w node \<Rightarrow> host \<Rightarrow> sender \<Rightarrow> u64 \<Rightarrow> bool \<Rightarrow> address \<Rightarrow> abi \<Rightarrow> (u16 \<times> g1Point) list \<Rightarrow> ('w, txSummary list) cmd" where
  "init_lanes N H sd confirmations bulk dest abiObj picked =
     (if bulk
      then if picked = [] then ret []
           else andThen (lift (Pack H abiObj ''initializeLaneHeads'' [ArgLanes (map fst picked), ArgPoints (map snd picked)])) (\<lambda>data.
                andThen (contract_call N H sd confirmations ''init-lane-heads-bulk'' dest data) (\<lambda>t. ret [t]))
      else for_each (\<lambda>(laneID, p).
             andThen (lift (Pack H abiObj ''initializeLaneHead'' [ArgLane laneID, ArgPoint p])) (\<lambda>data.
               contract_call N H sd confirmations ''init-lane-head'' dest data)) picked)"

definition runInitializeLaneHeads :: "'w node \<Rightarrow> host \<Rightarrow> flags \<Rightarrow> string \<Rightarrow> bool \<Rightarrow> bool \<Rightarrow> ('w, unit) cmd" where
  "runInitializeLaneHeads N H fl certifierAddress skipExisting bulk =
     (if certifierAddress = [] then failing ''missing --certifier-address''
      else andThen (load_bundle N (fl_bundlePath fl)) (\<lambda>bundle.
           andThen (loadContractArtifact N H (fl_artifactsDir fl) ''SumPreservingBatchVerifier'') (\<lambda>(abiObj, _).
           with_sender N H fl (\<lambda>sd.
           let dest = HexToAddress H certifierAddress in
           andThen (pick_lanes N H (sd_client sd) dest abiObj skipExisting (jb_LaneHeads bundle) [] []) (\<lambda>(skipped, picked).
           andThen (init_lanes N H sd (fl_confirmations fl) bulk dest abiObj picked) (\<lambda>results.
             printJSON (JObj (num ''count'' (int (length results))
               @ (if skipped = [] then [] else [(''skipped_lanes'', JArr (map json_word skipped))])
               @ [(''transactions'', if results = [] then JNull else transactions_json results)]))))))))"

end
