(* ===== verification/Proofctl_Submit.thy ===== *)
theory Proofctl_Submit imports Proofctl_Commands begin

text \<open>
  The commands of \<^verbatim>\<open>cmd/kaia-proofctl/main.go\<close> that submit a bundle: the estimate, one submission, a burst from one
  sender and a burst from several; and all commands together.
\<close>

section \<open>The call data of a bundle\<close>

definition bundle_call ::
    "'w node \<Rightarrow> host \<Rightarrow> flags \<Rightarrow> ('w, byte list \<times> u64) cmd" where
  "bundle_call N H fl =
     andThen (load_bundle N (fl_bundlePath fl)) (\<lambda>bundle.
     andThen (artifacts_of bundle) (\<lambda>(artifacts, verifiedTxTotal).
     andThen (loadContractArtifact N H (fl_artifactsDir fl) ''SumPreservingBatchVerifier'') (\<lambda>(abiObj, _).
     andThen (lift (Pack H abiObj ''verifyBatches'' [ArgArtifacts artifacts])) (\<lambda>data.
       ret (data, verifiedTxTotal)))))"

section \<open>estimate-bundle\<close>

text \<open>\<^verbatim>\<open>SetFrac\<close> panics when the denominator is zero.\<close>

definition gas_per_verified_tx :: "u64 \<Rightarrow> u64 \<Rightarrow> string option" where
  "gas_per_verified_tx gasLimit verifiedTxTotal =
     (if sint verifiedTxTotal = 0 then None
      else Some (FloatString 6 (of_int (sint gasLimit) / of_int (sint verifiedTxTotal))))"

definition runEstimateBundle :: "'w node \<Rightarrow> host \<Rightarrow> flags \<Rightarrow> string \<Rightarrow> ('w, unit) cmd" where
  "runEstimateBundle N H fl certifierAddress =
     (if certifierAddress = [] then failing ''missing --certifier-address''
      else andThen (bundle_call N H fl) (\<lambda>(data, verifiedTxTotal).
           with_client N (fl_rpcURL fl) (\<lambda>client.
           andThen (texting (deriveSenderAddress (key_address H) (fl_privateKeyHex fl))) (\<lambda>sender.
           andThen (WithTimeout N None (30 * 1000000000)) (\<lambda>ctx.
           andThen (calling (EstimateGas N client ctx \<lparr> cm_From = Some sender,
             cm_To = Some (HexToAddress H certifierAddress), cm_Value = None, cm_GasPrice = None, cm_Data = data \<rparr>)) (\<lambda>gasLimit.
           andThen (lift_panic (gas_per_verified_tx gasLimit verifiedTxTotal)) (\<lambda>per_tx.
             printJSON (JObj (str ''certifier_address'' certifierAddress @ num ''estimated_gas'' (uint gasLimit)
               @ num ''verified_tx_total'' (uint verifiedTxTotal) @ str ''gas_per_verified_tx'' per_tx)))))))))"

section \<open>submit-bundle\<close>

text \<open>Latencies from the three times of a submission.\<close>

definition timed_summary ::
    "host \<Rightarrow> string \<Rightarrow> signed_tx \<Rightarrow> receipt \<Rightarrow> u64 \<Rightarrow> u64 \<Rightarrow> u64 \<Rightarrow> int \<Rightarrow> int \<Rightarrow> int \<Rightarrow> txSummary" where
  "timed_summary H action tx receipt gasLimit confirmations verifiedTxTotal sentAt includedAt receiptSeenAt =
     (tx_summary H action tx receipt gasLimit (Milliseconds (time_sub receiptSeenAt sentAt)) confirmations)
     \<lparr> ts_BlockTimestamp := FormatLocal H includedAt,
       ts_BlockInclusionLatencyMS := clampLatencyMS (time_sub includedAt sentAt),
       ts_ReceiptVisibilityDelayMS := clampLatencyMS (time_sub receiptSeenAt includedAt),
       ts_VerifiedTxTotal := verifiedTxTotal \<rparr>"

definition runSubmitBundle :: "'w node \<Rightarrow> host \<Rightarrow> flags \<Rightarrow> string \<Rightarrow> ('w, unit) cmd" where
  "runSubmitBundle N H fl certifierAddress =
     (if certifierAddress = [] then failing ''missing --certifier-address''
      else andThen (bundle_call N H fl) (\<lambda>(data, verifiedTxTotal).
           with_sender N H fl (\<lambda>sd.
           let client = sd_client sd; confirmations = sd_confirmations sd; dest = HexToAddress H certifierAddress in
           andThen (WithTimeout N None txTimeout) (\<lambda>ctx.
           andThen (calling (PendingNonceAt N client ctx (sd_from sd))) (\<lambda>nonce.
           andThen (buildSignedTransaction N H sd ctx (Some dest) data nonce) (\<lambda>(tx, gasLimit).
           andThen (now N) (\<lambda>sentAt.
           andThen (send N client ctx tx) (\<lambda>_.
           andThen (checked_receipt N H ctx client confirmations ''transaction'' tx) (\<lambda>receipt.
           andThen (now N) (\<lambda>receiptSeenAt.
           andThen (lookupIncludedAt N ctx client receipt) (\<lambda>includedAt.
             let t = timed_summary H ''submit-bundle'' tx receipt gasLimit (fl_confirmations fl) verifiedTxTotal
                   sentAt includedAt receiptSeenAt
             in printJSON (json_txSummary (t\<lparr>
                  ts_TPS := calculateTPS verifiedTxTotal (ts_BlockInclusionLatencyMS t),
                  ts_ReceiptVisibleTPS := calculateTPS verifiedTxTotal (ts_ReceiptLatencyMS t) \<rparr>)))))))))))))"

section \<open>Bursts\<close>

text \<open>
  The receipt of one item: when it was included, when its receipt was seen, and its summary.  The burst of
  \<open>several\<close> senders checks the status of the receipt and names the sender, the burst of one sender does not.
\<close>

definition burst_receipt ::
    "'w node \<Rightarrow> host \<Rightarrow> bool \<Rightarrow> string \<Rightarrow> u64 \<Rightarrow> u64 \<Rightarrow> sender \<times> pendingTx \<Rightarrow> ('w, int \<times> int \<times> txSummary) cmd" where
  "burst_receipt N H several action confirmations verifiedTxTotal = (\<lambda>(sd, item).
     andThen (if several
              then checked_receipt N H None (sd_client sd) (sd_confirmations sd) ''transaction'' (pt_tx item)
              else waitForReceipt N None (sd_client sd) (TxHash H (pt_tx item)) (sd_confirmations sd)) (\<lambda>receipt.
     andThen (now N) (\<lambda>receiptSeenAt.
     andThen (lookupIncludedAt N None (sd_client sd) receipt) (\<lambda>includedAt.
       ret (includedAt, receiptSeenAt,
         (timed_summary H action (pt_tx item) receipt (pt_gasLimit item) confirmations verifiedTxTotal
            (pt_sentAt item) includedAt receiptSeenAt)
         \<lparr> ts_SenderAddress := (if several then AddressHex H (sd_from sd) else []),
           ts_ContractAddress := AddressHex H (pt_to item) \<rparr>)))))"

text \<open>The latest of the times after the zero time.\<close>

definition latest :: "int list \<Rightarrow> int" where
  "latest ts = fold (\<lambda>t end'. if end' < t then t else end') ts zero_time"

definition burst_report ::
    "'w node \<Rightarrow> int \<Rightarrow> u64 \<Rightarrow> (int \<times> int \<times> txSummary) list \<Rightarrow> ('w, unit) cmd" where
  "burst_report N start totalVerified results =
     andThen (or_now N (latest (map fst results))) (\<lambda>stop.
     andThen (or_now N (latest (map (fst \<circ> snd) results))) (\<lambda>receiptEnd.
       let window = Milliseconds (time_sub stop start);
           receiptWindow = Milliseconds (time_sub receiptEnd start)
       in printJSON (JObj (num ''count'' (int (length results)) @ num ''verified_tx_total'' (uint totalVerified)
            @ num ''window_ms'' window @ str ''tps'' (calculateTPS totalVerified window)
            @ num ''receipt_window_ms'' receiptWindow @ str ''receipt_visible_tps'' (calculateTPS totalVerified receiptWindow)
            @ [(''transactions'', transactions_json (map (snd \<circ> snd) results))]))))"

definition burst_send :: "'w node \<Rightarrow> host \<Rightarrow> sender \<Rightarrow> byte list \<Rightarrow> u64 \<Rightarrow> nat \<times> address \<Rightarrow> ('w, pendingTx) cmd" where
  "burst_send N H sd data nonce = (\<lambda>(i, dest).
     send_item N (sd_client sd) None (buildSignedTransaction N H sd None (Some dest) data (nonce + of_nat i)) dest)"

definition runSubmitBurst :: "'w node \<Rightarrow> host \<Rightarrow> flags \<Rightarrow> string \<Rightarrow> ('w, unit) cmd" where
  "runSubmitBurst N H fl certifierAddressesText =
     andThen (texting (parseAddressList (IsHexAddress H) (HexToAddress H) certifierAddressesText)) (\<lambda>addresses.
     if addresses = [] then failing ''missing --certifier-addresses''
     else andThen (bundle_call N H fl) (\<lambda>(data, verifiedTxTotal).
          with_sender N H fl (\<lambda>sd.
          andThen (calling (PendingNonceAt N (sd_client sd) None (sd_from sd))) (\<lambda>nonce.
          andThen (now N) (\<lambda>start.
          andThen (for_each (burst_send N H sd data nonce) (enumerate 0 addresses)) (\<lambda>pending.
          andThen (for_each (burst_receipt N H False ''submit-burst-item'' (fl_confirmations fl) verifiedTxTotal)
                    (map (\<lambda>item. (sd, item)) pending)) (\<lambda>results.
            burst_report N start (verifiedTxTotal * of_nat (length pending)) results)))))))"

record senderJob =
  sj_sender :: sender
  sj_to :: address
  sj_tx :: signed_tx
  sj_gasLimit :: u64
  sj_sentAt :: int

definition job_clients :: "senderJob list \<Rightarrow> client list" where
  "job_clients jobs = map (\<lambda>job. sd_client (sj_sender job)) jobs"

text \<open>One sender for each key; whenever something fails, the connections made so far are closed.\<close>

fun build_jobs ::
    "'w node \<Rightarrow> host \<Rightarrow> flags \<Rightarrow> byte list \<Rightarrow> (string \<times> address) list \<Rightarrow> senderJob list \<Rightarrow> ('w, senderJob list) cmd" where
  "build_jobs N H fl data [] jobs = ret jobs"
| "build_jobs N H fl data ((privateKeyHex, dest) # rest) jobs =
     andThen (on_failure (CloseAll (job_clients jobs))
       (newSender N H (fl_rpcURL fl) privateKeyHex (fl_gasPriceHex fl) (fl_confirmations fl))) (\<lambda>sd.
     andThen (on_failure (CloseAll (sd_client sd # job_clients jobs))
       (andThen (calling (PendingNonceAt N (sd_client sd) None (sd_from sd))) (\<lambda>nonce.
          buildSignedTransaction N H sd None (Some dest) data nonce))) (\<lambda>(signedTx, gasLimit).
       build_jobs N H fl data rest (jobs @ [\<lparr> sj_sender = sd, sj_to = dest, sj_tx = signedTx,
         sj_gasLimit = gasLimit, sj_sentAt = zero_time \<rparr>])))"

definition send_job :: "'w node \<Rightarrow> senderJob \<Rightarrow> ('w, sender \<times> pendingTx) cmd" where
  "send_job N job = andThen (send_item N (sd_client (sj_sender job)) None (ret (sj_tx job, sj_gasLimit job)) (sj_to job))
     (\<lambda>item. ret (sj_sender job, item))"

definition multisender_submit ::
    "'w node \<Rightarrow> host \<Rightarrow> flags \<Rightarrow> byte list \<Rightarrow> u64 \<Rightarrow> (string \<times> address) list \<Rightarrow> ('w, unit) cmd" where
  "multisender_submit N H fl data verifiedTxTotal keys_addresses =
     andThen (build_jobs N H fl data keys_addresses []) (\<lambda>jobs.
       deferring (CloseAll (job_clients jobs)) (
       andThen (now N) (\<lambda>start.
       andThen (for_each (send_job N) jobs) (\<lambda>items.
       andThen (for_each (burst_receipt N H True ''submit-multisender-burst-item'' (fl_confirmations fl)
                 verifiedTxTotal) items) (\<lambda>results.
         burst_report N start (verifiedTxTotal * of_nat (length jobs)) results)))))"

definition runSubmitMultisenderBurst :: "'w node \<Rightarrow> host \<Rightarrow> flags \<Rightarrow> string \<Rightarrow> string \<Rightarrow> ('w, unit) cmd" where
  "runSubmitMultisenderBurst N H fl privateKeysText certifierAddressesText =
     (let privateKeys = parseCSV privateKeysText in
      if privateKeys = [] then failing ''missing --private-keys''
      else andThen (texting (parseAddressList (IsHexAddress H) (HexToAddress H) certifierAddressesText)) (\<lambda>addresses.
      if addresses = [] then failing ''missing --certifier-addresses''
      else if length privateKeys \<noteq> length addresses
      then failing (''private key count ('' @ dec_nat (length privateKeys) @ '') does not match certifier count (''
             @ dec_nat (length addresses) @ '')'')
      else andThen (bundle_call N H fl) (\<lambda>(data, verifiedTxTotal).
             multisender_submit N H fl data verifiedTxTotal (zip privateKeys addresses))))"

section \<open>All commands\<close>

text \<open>\<^verbatim>\<open>main\<close> chooses the command by its name; its flags are already parsed here.\<close>

datatype command =
    Generate_key
  | Account_status string string string
  | Fund_accounts flags string string
  | Discover string
  | Deploy_verifier flags
  | Init_vk flags string
  | Deploy_certifier flags string
  | Init_lane_heads flags string bool bool
  | Estimate_bundle flags string
  | Submit_bundle flags string
  | Submit_burst flags string
  | Submit_multisender_burst flags string string

fun run_command :: "'w node \<Rightarrow> host \<Rightarrow> command \<Rightarrow> ('w, unit) cmd" where
  "run_command N H Generate_key = runGenerateKey N H"
| "run_command N H (Account_status url k a) = runAccountStatus N H url k a"
| "run_command N H (Fund_accounts fl rs a) = runFundAccounts N H fl rs a"
| "run_command N H (Discover url) = runDiscover N H url"
| "run_command N H (Deploy_verifier fl) = runDeployVerifier N H fl"
| "run_command N H (Init_vk fl v) = runInitializeVerifyingKey N H fl v"
| "run_command N H (Deploy_certifier fl v) = runDeployCertifier N H fl v"
| "run_command N H (Init_lane_heads fl c skip bulk) = runInitializeLaneHeads N H fl c skip bulk"
| "run_command N H (Estimate_bundle fl c) = runEstimateBundle N H fl c"
| "run_command N H (Submit_bundle fl c) = runSubmitBundle N H fl c"
| "run_command N H (Submit_burst fl cs) = runSubmitBurst N H fl cs"
| "run_command N H (Submit_multisender_burst fl ks cs) = runSubmitMultisenderBurst N H fl ks cs"

section \<open>No command leaves a connection open\<close>

lemma clients_printJSON [simp, intro]: "clients.stable (printJSON v)"
  by (simp add: clients.stable_def printJSON_def)

lemma stable_send [simp, intro]: "clients.stable (send N c ctx tx)"
  unfolding send_def by (rule clients.stable_andThen, rule clients.stable_calling [OF calm_any(1)]) (simp add: clients.stable_def)

lemma stable_with_client [intro!]: "(\<And>c. clients.stable (f c)) \<Longrightarrow> clients.stable (with_client N url f)"
  using deferred_close [OF connect_opens] unfolding with_client_def .

lemma stable_with_sender [intro!]: "(\<And>sd. clients.stable (f sd)) \<Longrightarrow> clients.stable (with_sender N H fl f)"
  using deferred_close [OF newSender_opens] unfolding with_sender_def .

lemma stable_transactions [simp, intro]:
  "clients.stable (sendTransaction N H sd ctx dest data)" "clients.stable (contract_call N H sd n action addr data)"
  "clients.stable (or_now N t)" "clients.stable (bundle_call N H fl)"
  by (auto simp: sendTransaction_def sendTransactionValue_def contract_call_def or_now_def bundle_call_def)

lemma stable_burst_parts [simp, intro]:
  "clients.stable build \<Longrightarrow> clients.stable (send_item N c ctx build dest)"
  "clients.stable (burst_receipt N H several action n v si)" "clients.stable (burst_report N start v results)"
  "clients.stable (send_job N job)"
  by (cases si; auto simp: send_item_def burst_receipt_def burst_report_def send_job_def Let_def)+

lemma stable_sends [simp, intro]:
  "clients.stable (fund_send N H sd amount nonce ia)" "clients.stable (burst_send N H sd data nonce ia)"
  "clients.stable (fund_receipt N H sd n amount item)"
  by (cases ia; auto simp: fund_send_def burst_send_def fund_receipt_def)+

lemma stable_pick_lanes [simp, intro]: "clients.stable (pick_lanes N H c dest abiObj skip lanes skipped picked)"
  by (induction lanes arbitrary: skipped picked) auto

lemma stable_init_lanes [simp, intro]: "clients.stable (init_lanes N H sd n bulk dest abiObj picked)"
  by (auto simp: init_lanes_def)

definition panic_free :: "('w, 'a) cmd \<Rightarrow> bool" where
  "panic_free m \<longleftrightarrow> (\<forall>s s'. m s \<noteq> Some (Panic, s'))"

lemma panic_free_basic [simp, intro]:
  "panic_free (ret x)" "panic_free (failing e)" "panic_free (calling f)" "panic_free (lift r)" "panic_free (texting t)"
  by (auto simp: panic_free_def calling_def lift_def texting_def not_Panic split: sum.split)

lemma panic_free_andThen [intro!]: "panic_free m \<Longrightarrow> (\<And>x. panic_free (f x)) \<Longrightarrow> panic_free (andThen m f)"
  by (fastforce simp: panic_free_def andThen_Done)

lemma panic_free_on_failure [intro!]: "panic_free m \<Longrightarrow> panic_free (on_failure d m)"
  by (auto simp: panic_free_def on_failure_def)

lemma panic_free_newSender [simp, intro]: "panic_free (newSender N H url k g n)"
proof -
  have "panic_free (connect N u)" for u
    unfolding connect_def by (rule panic_free_andThen, simp) (simp add: panic_free_def)
  then show ?thesis by (auto simp: newSender_def WithTimeout_def now_def split: option.split)
qed

lemma panic_free_build [simp, intro]: "panic_free (buildSignedTransaction N H sd ctx dest data nonce)"
  by (auto simp: buildSignedTransaction_def buildSignedTransactionValue_def)

text \<open>The connections of the senders built so far stay open, or are all closed when one cannot be built.\<close>

lemma on_failure_CloseAll:
  assumes "on_failure (CloseAll cs) m s = Some (r, s')"
  obtains s1 where "m s = Some (r, s1)" "s' = (case r of Failed _ \<Rightarrow> CloseAll cs s1 | _ \<Rightarrow> s1)"
  using assms by (auto simp: on_failure_def)

lemma build_jobs_clients:
  assumes "build_jobs N H fl data kas jobs s = Some (r, s')" "mset (ss_clients s) = M + mset (job_clients jobs)"
  shows "case r of Done jobs' \<Rightarrow> mset (ss_clients s') = M + mset (job_clients jobs')
    | Failed _ \<Rightarrow> mset (ss_clients s') = M | Panic \<Rightarrow> False"
  using assms
proof (induction N H fl data kas jobs arbitrary: s rule: build_jobs.induct)
  case (1 N H fl data jobs)
  then show ?case by auto
next
  case (2 N H fl data key dest rest jobs)
  define A where "A = on_failure (CloseAll (job_clients jobs))
    (newSender N H (fl_rpcURL fl) key (fl_gasPriceHex fl) (fl_confirmations fl))"
  define B where "B sd = on_failure (CloseAll (sd_client sd # job_clients jobs))
    (andThen (calling (PendingNonceAt N (sd_client sd) None (sd_from sd))) (\<lambda>nonce.
       buildSignedTransaction N H sd None (Some dest) data nonce))" for sd
  have e: "andThen A (\<lambda>sd. andThen (B sd) (\<lambda>(tx, gas). build_jobs N H fl data rest (jobs @ [\<lparr> sj_sender = sd, sj_to = dest,
      sj_tx = tx, sj_gasLimit = gas, sj_sentAt = zero_time \<rparr>]))) s = Some (r, s')"
    using "2.prems"(1) by (simp add: A_def B_def)
  have np: "panic_free A" "panic_free (B sd)" for sd unfolding A_def B_def by auto
  from e consider sd s1 where "A s = Some (Done sd, s1)" "andThen (B sd) (\<lambda>(tx, gas). build_jobs N H fl data rest
      (jobs @ [\<lparr> sj_sender = sd, sj_to = dest, sj_tx = tx, sj_gasLimit = gas, sj_sentAt = zero_time \<rparr>])) s1 = Some (r, s')"
    | m where "A s = Some (Failed m, s')" "r = Failed m"
    using np(1) by (auto simp: andThen_Done panic_free_def)
  then show ?case
  proof cases
    case (1 sd s1)
    have "newSender N H (fl_rpcURL fl) key (fl_gasPriceHex fl) (fl_confirmations fl) s = Some (Done sd, s1)"
      using 1(1) unfolding A_def by (rule on_failure_CloseAll) simp
    then have s1: "mset (ss_clients s1) = M + mset (job_clients jobs) + {#sd_client sd#}"
      using newSender_opens "2.prems"(2) by (fastforce simp: opens_def)
    have stable: "clients.stable (andThen (calling (PendingNonceAt N (sd_client sd) None (sd_from sd))) (\<lambda>nonce.
       buildSignedTransaction N H sd None (Some dest) data nonce))" by auto
    from 1(2) consider tx gas s2 where "B sd s1 = Some (Done (tx, gas), s2)" "build_jobs N H fl data rest
        (jobs @ [\<lparr> sj_sender = sd, sj_to = dest, sj_tx = tx, sj_gasLimit = gas, sj_sentAt = zero_time \<rparr>]) s2 = Some (r, s')"
      | m where "B sd s1 = Some (Failed m, s')" "r = Failed m"
      using np(2) by (auto simp: andThen_Done panic_free_def)
    then show ?thesis
    proof cases
      case (1 tx gas s2)
      have "mset (ss_clients s2) = mset (ss_clients s1)"
        using 1(1) unfolding B_def by (rule on_failure_CloseAll) (auto dest: clients.stableD [OF stable])
      then have "mset (ss_clients s2) = M + mset (job_clients (jobs @ [\<lparr> sj_sender = sd, sj_to = dest, sj_tx = tx,
          sj_gasLimit = gas, sj_sentAt = zero_time \<rparr>]))"
        using s1 by (simp add: job_clients_def)
      then show ?thesis using "2.IH" [OF 1(2)] by blast
    next
      case (2 m)
      obtain s2 where "mset (ss_clients s2) = mset (ss_clients s1)" "s' = CloseAll (sd_client sd # job_clients jobs) s2"
        using 2(1) unfolding B_def by (rule on_failure_CloseAll) (auto dest: clients.stableD [OF stable])
      then show ?thesis using s1 2(2) by simp
    qed
  next
    case (2 m)
    obtain s1 where "newSender N H (fl_rpcURL fl) key (fl_gasPriceHex fl) (fl_confirmations fl) s = Some (Failed m, s1)"
        "s' = CloseAll (job_clients jobs) s1"
      using 2(1) unfolding A_def by (rule on_failure_CloseAll) simp
    then have "mset (ss_clients s') = mset (ss_clients s) - mset (job_clients jobs)"
      using newSender_opens by (fastforce simp: opens_def)
    then show ?thesis using "2.prems"(2) 2(2) by simp
  qed
qed

lemma build_jobs_opens: "opens job_clients (build_jobs N H fl data kas [])"
  unfolding opens_def using build_jobs_clients [where jobs = "[]"]
  by (fastforce simp: job_clients_def split: outcome.splits)

lemma stable_multisender_submit [simp, intro]: "clients.stable (multisender_submit N H fl data v kas)"
  unfolding multisender_submit_def by (rule deferred_close [OF build_jobs_opens]) auto

lemma stable_run_command: "clients.stable (run_command N H c)"
  by (cases c) (auto simp: runGenerateKey_def runAccountStatus_def runFundAccounts_def runDiscover_def runDeployVerifier_def
    runInitializeVerifyingKey_def runDeployCertifier_def runInitializeLaneHeads_def runEstimateBundle_def
    runSubmitBundle_def runSubmitBurst_def runSubmitMultisenderBurst_def deploy_def Let_def split: prod.split option.split)

text \<open>C19. Whatever the node answers and however a command ends, with success, an error or a panic: the connections it opened
  are closed, and those that were open before are still open.\<close>

theorem commands_close_connections:
  "case run_command N H c s of None \<Rightarrow> True | Some (r, s') \<Rightarrow> mset (ss_clients s') = mset (ss_clients s)"
  using clients.stableD [OF stable_run_command] by (auto split: option.split)

end
