(* ===== verification/Dashboard.thy ===== *)
theory Dashboard imports Proofctl_Client begin

text \<open>
  The state behind the dashboard of \<^verbatim>\<open>cmd/kaia-proofctl/dashboard.go\<close> and the operations that change it.  Each call of
  \<^verbatim>\<open>mutate\<close> runs under the lock and ends by reading the time, \<open>clock\<close> below; a function that reads the time before that
  takes it as an argument of its own.  \<open>H\<close> formats times.
\<close>

section \<open>State\<close>

record dashboardLog =
  dl_At :: string
  dl_Level :: string
  dl_Message :: string

record dashboardTxSummary =
  dt_SenderAddress :: string
  dt_ContractAddress :: string
  dt_TransactionHash :: string
  dt_BlockNumber :: string
  dt_BlockTimestamp :: string
  dt_GasUsed :: u64
  dt_GasLimit :: u64
  dt_BlockInclusionLatencyMS :: int
  dt_ReceiptLatencyMS :: int
  dt_ReceiptVisibilityDelayMS :: int
  dt_EndToEndLatencyMS :: int
  dt_Status :: string
  dt_Error :: string

record dashboardL1State =
  dl1_Enabled :: bool
  dl1_Mode :: string
  dl1_TotalCalls :: int
  dl1_SentCalls :: int
  dl1_ConfirmedCalls :: int
  dl1_FailedCalls :: int
  dl1_VerifiedTxPerCall :: u64
  dl1_VerifiedTxConfirmed :: u64
  dl1_AggregateReceiptTPS :: string
  dl1_AggregateBlockTPS :: string
  dl1_AggregateEndToEndTPS :: string
  dl1_FirstSendAt :: string
  dl1_FirstInclusionAt :: string
  dl1_LastInclusionAt :: string
  dl1_LastReceiptAt :: string
  dl1_Transactions :: "dashboardTxSummary list"

record dashboardProofState =
  dp_BatchSize :: int
  dp_Total :: int
  dp_Generated :: int
  dp_ReplayLoaded :: int
  dp_CurrentLaneID :: int
  dp_CurrentBatchID :: u64
  dp_SetupDone :: bool
  dp_SetupElapsedMS :: int
  dp_LastProofElapsedMS :: int
  dp_GenerationElapsedMS :: int
  dp_VerifiedTxTotal :: u64

record dashboardSnapshot =
  sn_Title :: string
  sn_Phase :: string
  sn_Done :: bool
  sn_Error :: string
  sn_StartedAt :: string
  sn_UpdatedAt :: string
  sn_BundlePath :: string
  sn_Proof :: dashboardProofState
  sn_L1 :: dashboardL1State
  sn_Logs :: "dashboardLog list"

record dashboardState =
  da_startedAt :: int
  da_updatedAt :: int
  da_snapshot :: dashboardSnapshot

record exporterProgressEvent =
  ev_Event :: string
  ev_BatchSize :: int
  ev_LaneCount :: int
  ev_Seed :: u64
  ev_Current :: int
  ev_Total :: int
  ev_LaneID :: int
  ev_BatchID :: u64
  ev_ElapsedMS :: int
  ev_GeneratedTxTotal :: u64
  ev_VerifiedTxTotal :: u64

record dashboardSubmitJob =
  dj_sender :: sender
  dj_to :: address
  dj_tx :: signed_tx
  dj_gasLimit :: u64
  dj_sentAt :: int

text \<open>The receipt of a job, or the error; \<^const>\<open>zero_time\<close> where a time is not known.\<close>

record dashboardReceiptResult =
  dr_job :: dashboardSubmitJob
  dr_receipt :: "string + receipt"
  dr_includedAt :: int
  dr_receiptSeenAt :: int
  dr_warning :: string

section \<open>Operations\<close>

definition zero_proof_state :: dashboardProofState where
  "zero_proof_state = \<lparr> dp_BatchSize = 0, dp_Total = 0, dp_Generated = 0, dp_ReplayLoaded = 0, dp_CurrentLaneID = 0,
     dp_CurrentBatchID = 0, dp_SetupDone = False, dp_SetupElapsedMS = 0, dp_LastProofElapsedMS = 0,
     dp_GenerationElapsedMS = 0, dp_VerifiedTxTotal = 0 \<rparr>"

definition zero_l1_state :: dashboardL1State where
  "zero_l1_state = \<lparr> dl1_Enabled = False, dl1_Mode = [], dl1_TotalCalls = 0, dl1_SentCalls = 0, dl1_ConfirmedCalls = 0,
     dl1_FailedCalls = 0, dl1_VerifiedTxPerCall = 0, dl1_VerifiedTxConfirmed = 0, dl1_AggregateReceiptTPS = [],
     dl1_AggregateBlockTPS = [], dl1_AggregateEndToEndTPS = [], dl1_FirstSendAt = [], dl1_FirstInclusionAt = [],
     dl1_LastInclusionAt = [], dl1_LastReceiptAt = [], dl1_Transactions = [] \<rparr>"

definition newDashboardState :: "host \<Rightarrow> int \<Rightarrow> string \<Rightarrow> dashboardState" where
  "newDashboardState H clock title = \<lparr> da_startedAt = clock, da_updatedAt = clock,
     da_snapshot = \<lparr> sn_Title = title, sn_Phase = ''starting'', sn_Done = False, sn_Error = [],
       sn_StartedAt = FormatLocal H clock, sn_UpdatedAt = FormatLocal H clock, sn_BundlePath = [],
       sn_Proof = zero_proof_state, sn_L1 = zero_l1_state, sn_Logs = [] \<rparr> \<rparr>"

definition clone :: "dashboardState \<Rightarrow> dashboardSnapshot" where
  "clone s = da_snapshot s"

definition mutate :: "host \<Rightarrow> int \<Rightarrow> (dashboardSnapshot \<Rightarrow> dashboardSnapshot) \<Rightarrow> dashboardState \<Rightarrow> dashboardState" where
  "mutate H clock fn s = s\<lparr> da_updatedAt := clock,
     da_snapshot := (fn (da_snapshot s))\<lparr> sn_UpdatedAt := FormatLocal H clock \<rparr> \<rparr>"

text \<open>The last elements of a list that has grown beyond its bound.\<close>

definition keep_last :: "nat \<Rightarrow> 'a list \<Rightarrow> 'a list" where
  "keep_last n xs = (if n < length xs then drop (length xs - n) xs else xs)"

definition log_line :: "host \<Rightarrow> int \<Rightarrow> int \<Rightarrow> string \<Rightarrow> string \<Rightarrow> dashboardState \<Rightarrow> dashboardState" where
  "log_line H written clock level message = mutate H clock (\<lambda>snapshot. snapshot\<lparr> sn_Logs := keep_last 200 (sn_Logs snapshot
     @ [\<lparr> dl_At = FormatLocal H written, dl_Level = level, dl_Message = message \<rparr>]) \<rparr>)"

definition setPhase :: "host \<Rightarrow> int \<Rightarrow> string \<Rightarrow> dashboardState \<Rightarrow> dashboardState" where
  "setPhase H clock phase = mutate H clock (\<lambda>snapshot. snapshot\<lparr> sn_Phase := phase \<rparr>)"

text \<open>\<^verbatim>\<open>setError\<close> takes the lock twice: once to mark the failure, once to log it.\<close>

definition mark_failed :: "host \<Rightarrow> int \<Rightarrow> string \<Rightarrow> dashboardState \<Rightarrow> dashboardState" where
  "mark_failed H clock e = mutate H clock (\<lambda>snapshot. snapshot\<lparr> sn_Error := e, sn_Phase := ''failed'', sn_Done := True \<rparr>)"

definition setError :: "host \<Rightarrow> int \<Rightarrow> int \<Rightarrow> int \<Rightarrow> string option \<Rightarrow> dashboardState \<Rightarrow> dashboardState" where
  "setError H marked written clock err s = (case err of
     None \<Rightarrow> s
   | Some e \<Rightarrow> log_line H written clock ''error'' e (mark_failed H marked e s))"

definition setDone :: "host \<Rightarrow> int \<Rightarrow> dashboardState \<Rightarrow> dashboardState" where
  "setDone H clock = mutate H clock (\<lambda>snapshot.
     let snapshot = snapshot\<lparr> sn_Done := True \<rparr>
     in if sn_Error snapshot = [] then snapshot\<lparr> sn_Phase := ''completed'' \<rparr> else snapshot)"

text \<open>The fields an event brings are taken over when they are not zero, then the event's kind decides.\<close>

definition take_over :: "exporterProgressEvent \<Rightarrow> dashboardProofState \<Rightarrow> dashboardProofState" where
  "take_over event p =
     (let p = (if ev_BatchSize event \<noteq> 0 then p\<lparr> dp_BatchSize := ev_BatchSize event \<rparr> else p);
          p = (if ev_Total event \<noteq> 0 then p\<lparr> dp_Total := ev_Total event \<rparr> else p);
          p = (if ev_LaneID event \<noteq> 0 \<or> ev_Event event = ''proof_started'' \<or> ev_Event event = ''proof_completed''
               then p\<lparr> dp_CurrentLaneID := ev_LaneID event \<rparr> else p);
          p = (if ev_BatchID event \<noteq> 0 then p\<lparr> dp_CurrentBatchID := ev_BatchID event \<rparr> else p)
      in if ev_VerifiedTxTotal event \<noteq> 0 then p\<lparr> dp_VerifiedTxTotal := ev_VerifiedTxTotal event \<rparr> else p)"

definition applyExporterEvent :: "host \<Rightarrow> int \<Rightarrow> exporterProgressEvent \<Rightarrow> dashboardState \<Rightarrow> dashboardState" where
  "applyExporterEvent H clock event = mutate H clock (\<lambda>snapshot.
     let p = take_over event (sn_Proof snapshot);
         snapshot = snapshot\<lparr> sn_Proof := p \<rparr>
     in if ev_Event event = ''setup_started'' then snapshot\<lparr> sn_Phase := ''proof_setup'' \<rparr>
        else if ev_Event event = ''setup_completed'' then snapshot\<lparr> sn_Phase := ''proof_generation'',
          sn_Proof := p\<lparr> dp_SetupDone := True, dp_SetupElapsedMS := ev_ElapsedMS event \<rparr> \<rparr>
        else if ev_Event event = ''proof_started'' then snapshot\<lparr> sn_Phase := ''proof_generation'',
          sn_Proof := (if ev_Total event \<noteq> 0 then p\<lparr> dp_Total := ev_Total event \<rparr> else p) \<rparr>
        else if ev_Event event = ''proof_completed'' then snapshot\<lparr> sn_Phase := ''proof_generation'',
          sn_Proof := p\<lparr> dp_Generated := ev_Current event, dp_LastProofElapsedMS := ev_ElapsedMS event,
            dp_VerifiedTxTotal := ev_GeneratedTxTotal event \<rparr> \<rparr>
        else if ev_Event event = ''bundle_completed'' then snapshot\<lparr> sn_Phase := ''bundle_ready'',
          sn_Proof := p\<lparr> dp_GenerationElapsedMS := ev_ElapsedMS event, dp_VerifiedTxTotal := ev_VerifiedTxTotal event \<rparr> \<rparr>
        else snapshot)"

definition setBundlePath :: "host \<Rightarrow> int \<Rightarrow> string \<Rightarrow> dashboardState \<Rightarrow> dashboardState" where
  "setBundlePath H clock path = mutate H clock (\<lambda>snapshot. snapshot\<lparr> sn_BundlePath := path \<rparr>)"

definition configureSubmission :: "host \<Rightarrow> int \<Rightarrow> string \<Rightarrow> int \<Rightarrow> u64 \<Rightarrow> dashboardState \<Rightarrow> dashboardState" where
  "configureSubmission H clock mode totalCalls verifiedTxPerCall = mutate H clock (\<lambda>snapshot. snapshot\<lparr> sn_Phase := ''l1_submitting'',
     sn_L1 := (sn_L1 snapshot)\<lparr> dl1_Enabled := True, dl1_Mode := mode, dl1_TotalCalls := totalCalls,
       dl1_VerifiedTxPerCall := verifiedTxPerCall \<rparr> \<rparr>)"

definition job_entry :: "host \<Rightarrow> dashboardSubmitJob \<Rightarrow> dashboardTxSummary" where
  "job_entry H job = \<lparr> dt_SenderAddress = AddressHex H (sd_from (dj_sender job)),
     dt_ContractAddress = AddressHex H (dj_to job), dt_TransactionHash = HashHex H (TxHash H (dj_tx job)),
     dt_BlockNumber = [], dt_BlockTimestamp = [], dt_GasUsed = 0, dt_GasLimit = dj_gasLimit job,
     dt_BlockInclusionLatencyMS = 0, dt_ReceiptLatencyMS = 0, dt_ReceiptVisibilityDelayMS = 0, dt_EndToEndLatencyMS = 0,
     dt_Status = [], dt_Error = [] \<rparr>"

definition noteTxSent :: "host \<Rightarrow> int \<Rightarrow> dashboardSubmitJob \<Rightarrow> dashboardState \<Rightarrow> dashboardState" where
  "noteTxSent H clock job = mutate H clock (\<lambda>snapshot. snapshot\<lparr> sn_L1 :=
     (let l = (sn_L1 snapshot)\<lparr> dl1_SentCalls := wrap64 (dl1_SentCalls (sn_L1 snapshot) + 1) \<rparr>;
          l = (if dl1_FirstSendAt l = [] then l\<lparr> dl1_FirstSendAt := FormatLocal H (dj_sentAt job) \<rparr> else l)
      in l\<lparr> dl1_Transactions := dl1_Transactions l @ [(job_entry H job)\<lparr> dt_Status := ''sent'' \<rparr>] \<rparr>) \<rparr>)"

definition clampNonNegativeMS :: "int \<Rightarrow> int" where
  "clampNonNegativeMS d = (let ms = Milliseconds d in if ms < 0 then 0 else ms)"

text \<open>A throughput is only replaced when time has passed.\<close>

definition tps_or :: "string \<Rightarrow> u64 \<Rightarrow> int \<Rightarrow> string" where
  "tps_or old confirmedVerified elapsedMs = (if 0 < elapsedMs
     then FloatString 6 (of_int (uint confirmedVerified * 1000) / of_int elapsedMs) else old)"

text \<open>A confirmed job: the entry of its transaction, and the totals.\<close>

definition confirmed_entry :: "host \<Rightarrow> dashboardReceiptResult \<Rightarrow> receipt \<Rightarrow> int \<Rightarrow> int \<Rightarrow> dashboardTxSummary" where
  "confirmed_entry H result receipt receiptSeenAt workflowStartedAt =
     (let entry = (job_entry H (dr_job result))\<lparr> dt_Status := ''confirmed'',
            dt_BlockNumber := big_text (rc_BlockNumber receipt), dt_GasUsed := rc_GasUsed receipt,
            dt_ReceiptLatencyMS := Milliseconds (time_sub receiptSeenAt (dj_sentAt (dr_job result))),
            dt_EndToEndLatencyMS := Milliseconds (time_sub receiptSeenAt workflowStartedAt) \<rparr>
      in if dr_includedAt result = zero_time then entry
         else entry\<lparr> dt_BlockTimestamp := FormatLocal H (dr_includedAt result),
            dt_BlockInclusionLatencyMS := clampNonNegativeMS (time_sub (dr_includedAt result) (dj_sentAt (dr_job result))),
            dt_ReceiptVisibilityDelayMS := clampNonNegativeMS (time_sub receiptSeenAt (dr_includedAt result)) \<rparr>)"

definition confirmed_totals ::
    "host \<Rightarrow> int \<Rightarrow> u64 \<Rightarrow> int \<Rightarrow> int \<Rightarrow> int \<Rightarrow> dashboardL1State \<Rightarrow> dashboardL1State" where
  "confirmed_totals H includedAt confirmedVerified receiptSeenAt firstSendAt workflowStartedAt l =
     (let l = l\<lparr> dl1_ConfirmedCalls := wrap64 (dl1_ConfirmedCalls l + 1), dl1_VerifiedTxConfirmed := confirmedVerified,
            dl1_LastReceiptAt := FormatLocal H receiptSeenAt \<rparr>;
          l = (if includedAt = zero_time then l
               else (if dl1_FirstInclusionAt l = [] then l\<lparr> dl1_FirstInclusionAt := FormatLocal H includedAt \<rparr> else l)
                 \<lparr> dl1_LastInclusionAt := FormatLocal H includedAt \<rparr>);
          l = l\<lparr> dl1_AggregateReceiptTPS := tps_or (dl1_AggregateReceiptTPS l) confirmedVerified
                 (Milliseconds (time_sub receiptSeenAt firstSendAt)) \<rparr>;
          l = (if includedAt = zero_time then l
               else l\<lparr> dl1_AggregateBlockTPS := tps_or (dl1_AggregateBlockTPS l) confirmedVerified
                 (Milliseconds (time_sub includedAt firstSendAt)) \<rparr>)
      in l\<lparr> dl1_AggregateEndToEndTPS := tps_or (dl1_AggregateEndToEndTPS l) confirmedVerified
           (Milliseconds (time_sub receiptSeenAt workflowStartedAt)) \<rparr>)"

definition noteReceipt ::
    "host \<Rightarrow> int \<Rightarrow> int \<Rightarrow> dashboardReceiptResult \<Rightarrow> u64 \<Rightarrow> int \<Rightarrow> int \<Rightarrow> dashboardState \<Rightarrow> dashboardState" where
  "noteReceipt H seen clock result confirmedVerified firstSendAt workflowStartedAt = mutate H clock (\<lambda>snapshot.
     let l = sn_L1 snapshot;
         (l, entry) = (case dr_receipt result of
            Inl err \<Rightarrow> (l\<lparr> dl1_FailedCalls := wrap64 (dl1_FailedCalls l + 1) \<rparr>,
              (job_entry H (dr_job result))\<lparr> dt_Status := ''failed'', dt_Error := err \<rparr>)
          | Inr receipt \<Rightarrow>
              let receiptSeenAt = (if dr_receiptSeenAt result = zero_time then seen else dr_receiptSeenAt result)
              in (confirmed_totals H (dr_includedAt result) confirmedVerified receiptSeenAt firstSendAt workflowStartedAt l,
                  confirmed_entry H result receipt receiptSeenAt workflowStartedAt))
     in snapshot\<lparr> sn_L1 := l\<lparr> dl1_Transactions := keep_last 100 (dl1_Transactions l @ [entry]) \<rparr> \<rparr>)"

text \<open>The two changes the workflow makes itself: an existing bundle was loaded, a merged bundle was written.\<close>

definition note_loaded :: "host \<Rightarrow> int \<Rightarrow> string \<Rightarrow> int \<Rightarrow> u64 \<Rightarrow> dashboardState \<Rightarrow> dashboardState" where
  "note_loaded H clock path artifacts verifiedTxTotal = mutate H clock (\<lambda>snapshot. snapshot\<lparr> sn_BundlePath := path,
     sn_Proof := (sn_Proof snapshot)\<lparr> dp_Total := artifacts, dp_Generated := artifacts,
       dp_VerifiedTxTotal := verifiedTxTotal \<rparr> \<rparr>)"

definition note_merged :: "host \<Rightarrow> int \<Rightarrow> int \<Rightarrow> int \<Rightarrow> int \<Rightarrow> dashboardState \<Rightarrow> dashboardState" where
  "note_merged H clock laneCount replayCount batchSize = mutate H clock (\<lambda>snapshot. snapshot\<lparr> sn_Phase := ''bundle_ready'',
     sn_Proof := (sn_Proof snapshot)\<lparr> dp_Total := laneCount, dp_Generated := laneCount, dp_ReplayLoaded := replayCount,
       dp_VerifiedTxTotal := word_of_int (batchSize * laneCount) \<rparr> \<rparr>)"

section \<open>The dashboard shows the history of its operations\<close>

text \<open>The sections that run under the lock, each with the times it may read.\<close>

datatype dash_op =
    Op_log string string
  | Op_phase string
  | Op_failed string
  | Op_done
  | Op_event exporterProgressEvent
  | Op_bundle string
  | Op_loaded string int u64
  | Op_merged int int int
  | Op_configure string int u64
  | Op_sent dashboardSubmitJob
  | Op_receipt dashboardReceiptResult u64 int int

fun apply_op :: "host \<Rightarrow> int \<times> int \<times> dash_op \<Rightarrow> dashboardState \<Rightarrow> dashboardState" where
  "apply_op H (t, u, Op_log level message) = log_line H t u level message"
| "apply_op H (t, u, Op_phase phase) = setPhase H u phase"
| "apply_op H (t, u, Op_failed e) = mark_failed H u e"
| "apply_op H (t, u, Op_done) = setDone H u"
| "apply_op H (t, u, Op_event event) = applyExporterEvent H u event"
| "apply_op H (t, u, Op_bundle path) = setBundlePath H u path"
| "apply_op H (t, u, Op_loaded path n v) = note_loaded H u path n v"
| "apply_op H (t, u, Op_merged n k b) = note_merged H u n k b"
| "apply_op H (t, u, Op_configure mode calls per_call) = configureSubmission H u mode calls per_call"
| "apply_op H (t, u, Op_sent job) = noteTxSent H u job"
| "apply_op H (t, u, Op_receipt result confirmed first started) = noteReceipt H t u result confirmed first started"

lemma setError_ops: "setError H m t u (Some e) = apply_op H (t, u, Op_log ''error'' e) \<circ> apply_op H (m0, m, Op_failed e)"
  by (auto simp: setError_def)

text \<open>What the operations were about: log lines, the last error, whether one of them ended the workflow, and counts.\<close>

fun op_lines :: "host \<Rightarrow> int \<times> int \<times> dash_op \<Rightarrow> dashboardLog list" where
  "op_lines H (t, u, Op_log level message) = [\<lparr> dl_At = FormatLocal H t, dl_Level = level, dl_Message = message \<rparr>]"
| "op_lines H _ = []"

fun op_error :: "dash_op \<Rightarrow> string \<Rightarrow> string" where
  "op_error (Op_failed e) old = e"
| "op_error _ old = old"

fun op_ends :: "dash_op \<Rightarrow> bool" where
  "op_ends (Op_failed e) = True"
| "op_ends Op_done = True"
| "op_ends _ = False"

fun op_sends :: "dash_op \<Rightarrow> bool" where
  "op_sends (Op_sent job) = True"
| "op_sends _ = False"

fun op_confirms :: "dash_op \<Rightarrow> bool" where
  "op_confirms (Op_receipt result _ _ _) = (case dr_receipt result of Inr _ \<Rightarrow> True | Inl _ \<Rightarrow> False)"
| "op_confirms _ = False"

fun op_fails :: "dash_op \<Rightarrow> bool" where
  "op_fails (Op_receipt result _ _ _) = (case dr_receipt result of Inr _ \<Rightarrow> False | Inl _ \<Rightarrow> True)"
| "op_fails _ = False"

definition op_of :: "int \<times> int \<times> dash_op \<Rightarrow> dash_op" where
  "op_of = snd \<circ> snd"

definition count_ops :: "(dash_op \<Rightarrow> bool) \<Rightarrow> (int \<times> int \<times> dash_op) list \<Rightarrow> int" where
  "count_ops P ops = int (length (filter (P \<circ> op_of) ops))"

lemma op_of_simp [simp]: "op_of (t, u, op) = op"
  by (simp add: op_of_def)

lemma keep_last_snoc: "keep_last n (keep_last n xs @ ys) = keep_last n (xs @ ys)"
  by (auto simp: keep_last_def add.commute)

lemma keep_last_again [simp]: "keep_last n (keep_last n xs) = keep_last n xs"
  using keep_last_snoc [of n xs "[]"] by simp

lemma wrap64_count: "wrap64 (wrap64 i + 1) = wrap64 (i + 1)" "wrap64 (1 + wrap64 i) = wrap64 (1 + i)"
  unfolding wrap64_def by (metis signed_take_bit_add signed_take_bit_signed_take_bit min.idem)+

lemma mutate_fields [simp]:
  "da_snapshot (mutate H t fn s) = (fn (da_snapshot s))\<lparr> sn_UpdatedAt := FormatLocal H t \<rparr>"
  by (simp add: mutate_def)

lemmas dash_ops = log_line_def setPhase_def mark_failed_def setDone_def applyExporterEvent_def setBundlePath_def
  note_loaded_def note_merged_def configureSubmission_def noteTxSent_def noteReceipt_def confirmed_totals_def

lemma op_logs: "sn_Logs (da_snapshot (apply_op H (t, u, op) s)) = (case op of
    Op_log _ _ \<Rightarrow> keep_last 200 (sn_Logs (da_snapshot s) @ op_lines H (t, u, op)) | _ \<Rightarrow> sn_Logs (da_snapshot s))"
  by (cases op) (simp_all add: dash_ops Let_def split: prod.split option.split sum.split)

lemma op_status:
  "sn_Error (da_snapshot (apply_op H (t, u, op) s)) = op_error op (sn_Error (da_snapshot s))"
  "sn_Done (da_snapshot (apply_op H (t, u, op) s)) = (sn_Done (da_snapshot s) \<or> op_ends op)"
  by (cases op; simp add: dash_ops Let_def split: prod.split option.split sum.split)+

lemma op_counts:
  "dl1_SentCalls (sn_L1 (da_snapshot (apply_op H (t, u, op) s)))
     = (if op_sends op then wrap64 (dl1_SentCalls (sn_L1 (da_snapshot s)) + 1) else dl1_SentCalls (sn_L1 (da_snapshot s)))"
  "dl1_ConfirmedCalls (sn_L1 (da_snapshot (apply_op H (t, u, op) s)))
     = (if op_confirms op then wrap64 (dl1_ConfirmedCalls (sn_L1 (da_snapshot s)) + 1) else dl1_ConfirmedCalls (sn_L1 (da_snapshot s)))"
  "dl1_FailedCalls (sn_L1 (da_snapshot (apply_op H (t, u, op) s)))
     = (if op_fails op then wrap64 (dl1_FailedCalls (sn_L1 (da_snapshot s)) + 1) else dl1_FailedCalls (sn_L1 (da_snapshot s)))"
  by (cases op; simp add: dash_ops Let_def split: prod.split option.split sum.split)+

text \<open>C22. Whatever sections, in whatever order and from whichever goroutines, the lock lets through: the log holds the last
  200 of all lines, the error is the last one reported, the dashboard is done exactly after an error or the end of the workflow,
  and the three counters count the transactions sent, confirmed and failed.\<close>

theorem dashboard_shows_history:
  "let d = clone (fold (apply_op H) ops (newDashboardState H t0 title))
   in sn_Logs d = keep_last 200 (concat (map (op_lines H) ops))
    \<and> sn_Error d = fold (op_error \<circ> op_of) ops []
    \<and> sn_Done d = list_ex (op_ends \<circ> op_of) ops
    \<and> dl1_SentCalls (sn_L1 d) = wrap64 (count_ops op_sends ops)
    \<and> dl1_ConfirmedCalls (sn_L1 d) = wrap64 (count_ops op_confirms ops)
    \<and> dl1_FailedCalls (sn_L1 d) = wrap64 (count_ops op_fails ops)"
  unfolding Let_def clone_def
proof (induction ops rule: rev_induct)
  case Nil
  then show ?case by (simp add: newDashboardState_def zero_l1_state_def keep_last_def count_ops_def wrap64_def)
next
  case (snoc x ops)
  obtain t u op where x: "x = (t, u, op)" by (cases x)
  let ?s = "fold (apply_op H) ops (newDashboardState H t0 title)"
  have logs: "sn_Logs (da_snapshot (apply_op H (t, u, op) ?s)) = keep_last 200 (concat (map (op_lines H) (ops @ [(t, u, op)])))"
    using snoc.IH by (auto simp: op_logs keep_last_snoc split: dash_op.split)
  have count: "count_ops P (ops @ [(t, u, op)]) = count_ops P ops + (if P op then 1 else 0)" for P
    by (simp add: count_ops_def)
  show ?case
    using snoc.IH logs by (simp add: x op_status op_counts count wrap64_count)
qed

text \<open>An error is shown as the phase \<open>failed\<close> only until the next change of the phase: the server's error, reported while
  the workflow runs, leaves a dashboard that is done and has an error, but shows another phase.\<close>

theorem error_phase_overwritten:
  "let d = da_snapshot (configureSubmission H t' mode calls per_call (setError H m w t (Some e) s))
   in sn_Done d \<and> sn_Error d = e \<and> sn_Phase d = ''l1_submitting''"
  by (simp add: dash_ops setError_def Let_def)

end
