(* ===== verification/Dashboard_Workflow.thy ===== *)
theory Dashboard_Workflow imports Proofctl_Submit Dashboard begin

text \<open>
  The workflow of \<^verbatim>\<open>cmd/kaia-proofctl/dashboard.go\<close>: proofs are generated by the exporter or loaded, merged with replayed
  ones, and submitted, while the dashboard is kept up to date.

  The programs are those of \<^verbatim>\<open>Proofctl_Client\<close> over a world that also holds the dashboard.  The exporter process and the file
  system are the parameter \<open>machine\<close>.
\<close>

section \<open>World\<close>

record dashboardOptions =
  do_ManifestPath :: string
  do_BundlePath :: string
  do_SkipGenerate :: bool
  do_BatchSize :: int
  do_LaneCount :: int
  do_LiveLaneCount :: int
  do_ReplayBundlePath :: string
  do_BatchIDBase :: u64
  do_Seed :: u64
  do_RPCURL :: string
  do_PrivateKeysText :: string
  do_GasPriceHex :: string
  do_CertifierAddresses :: string
  do_ArtifactsDir :: string
  do_Confirmations :: u64

text \<open>The exporter is started with its command line; its standard error is read line by line, and when it has ended its
  standard output is taken.\<close>

record 'w machine =
  Dir :: "string \<Rightarrow> string"
  MkdirAll :: "string \<Rightarrow> 'w \<Rightarrow> (string + unit) \<times> 'w"
  WriteFile :: "string \<Rightarrow> string \<Rightarrow> 'w \<Rightarrow> (string + unit) \<times> 'w"
  StartExporter :: "string list \<Rightarrow> 'w \<Rightarrow> (string + unit) \<times> 'w"
  ScanLine :: "'w \<Rightarrow> string option \<times> 'w"
  ScanErr :: "'w \<Rightarrow> string option \<times> 'w"
  WaitExporter :: "'w \<Rightarrow> (string + string) \<times> 'w"

definition on_world :: "('w \<Rightarrow> 'a \<times> 'w) \<Rightarrow> 'w \<times> dashboardState \<Rightarrow> 'a \<times> 'w \<times> dashboardState" where
  "on_world f = (\<lambda>(w, d). let (x, w) = f w in (x, w, d))"

text \<open>The node does not see the dashboard.\<close>

definition dash_node :: "'w node \<Rightarrow> ('w \<times> dashboardState) node" where
  "dash_node N = \<lparr> Dial = \<lambda>url. on_world (Dial N url), ChainID = \<lambda>c ctx. on_world (ChainID N c ctx),
     NetworkID = \<lambda>c ctx. on_world (NetworkID N c ctx), SuggestGasPrice = \<lambda>c ctx. on_world (SuggestGasPrice N c ctx),
     HeaderByNumber = \<lambda>c ctx b. on_world (HeaderByNumber N c ctx b), BalanceAt = \<lambda>c ctx a. on_world (BalanceAt N c ctx a),
     NonceAt = \<lambda>c ctx a. on_world (NonceAt N c ctx a), PendingNonceAt = \<lambda>c ctx a. on_world (PendingNonceAt N c ctx a),
     CodeAt = \<lambda>c ctx a. on_world (CodeAt N c ctx a), EstimateGas = \<lambda>c ctx msg. on_world (EstimateGas N c ctx msg),
     SendTransaction = \<lambda>c ctx tx. on_world (SendTransaction N c ctx tx),
     TransactionReceipt = \<lambda>c ctx h. on_world (TransactionReceipt N c ctx h),
     CallContract = \<lambda>c ctx msg. on_world (CallContract N c ctx msg), Now = on_world (Now N),
     Wait = \<lambda>ctx t0 n. on_world (Wait N ctx t0 n), ReadFile = \<lambda>path. on_world (ReadFile N path),
     GenerateKey = on_world (GenerateKey N) \<rparr>"

text \<open>A section under the lock: the time is read at its end, and by some sections also before.\<close>

fun reads_first :: "dash_op \<Rightarrow> bool" where
  "reads_first (Op_log _ _) = True"
| "reads_first (Op_receipt result _ _ _) = (case dr_receipt result of Inl _ \<Rightarrow> False | Inr _ \<Rightarrow> dr_receiptSeenAt result = zero_time)"
| "reads_first _ = False"

definition run_op :: "'w node \<Rightarrow> host \<Rightarrow> dash_op \<Rightarrow> ('w \<times> dashboardState, unit) cmd" where
  "run_op N H op = calling (\<lambda>(w, d).
     let (t, w) = (if reads_first op then Now N w else (zero_time, w));
         (u, w) = Now N w
     in (Inr (), w, apply_op H (t, u, op) d))"

abbreviation logging :: "'w node \<Rightarrow> host \<Rightarrow> string \<Rightarrow> string \<Rightarrow> ('w \<times> dashboardState, unit) cmd" where
  "logging N H level message \<equiv> run_op N H (Op_log level message)"

text \<open>An error that is looked at instead of returned, and one that is wrapped.\<close>

definition attempt :: "('w, 'a) cmd \<Rightarrow> ('w, string + 'a) cmd" where
  "attempt m s = map_option (\<lambda>(r, s'). (case r of Done x \<Rightarrow> Done (Inr x) | Failed e \<Rightarrow> Done (Inl e) | Panic \<Rightarrow> Panic, s')) (m s)"

definition wrapping :: "string \<Rightarrow> ('w, 'a) cmd \<Rightarrow> ('w, 'a) cmd" where
  "wrapping prefix m = andThen (attempt m) (\<lambda>r. case r of Inl e \<Rightarrow> failing (prefix @ e) | Inr x \<Rightarrow> ret x)"

section \<open>The exporter\<close>

definition zero_event :: exporterProgressEvent where
  "zero_event = \<lparr> ev_Event = [], ev_BatchSize = 0, ev_LaneCount = 0, ev_Seed = 0, ev_Current = 0, ev_Total = 0,
     ev_LaneID = 0, ev_BatchID = 0, ev_ElapsedMS = 0, ev_GeneratedTxTotal = 0, ev_VerifiedTxTotal = 0 \<rparr>"

definition into_event :: "exporterProgressEvent into" where
  "into_event = into_struct
    [(''event'', field_into into_string ev_Event (\<lambda>v. ev_Event_update (\<lambda>_. v))),
     (''batchSize'', field_into into_int64 ev_BatchSize (\<lambda>v. ev_BatchSize_update (\<lambda>_. v))),
     (''laneCount'', field_into into_int64 ev_LaneCount (\<lambda>v. ev_LaneCount_update (\<lambda>_. v))),
     (''seed'', field_into into_uint ev_Seed (\<lambda>v. ev_Seed_update (\<lambda>_. v))),
     (''current'', field_into into_int64 ev_Current (\<lambda>v. ev_Current_update (\<lambda>_. v))),
     (''total'', field_into into_int64 ev_Total (\<lambda>v. ev_Total_update (\<lambda>_. v))),
     (''laneId'', field_into into_int64 ev_LaneID (\<lambda>v. ev_LaneID_update (\<lambda>_. v))),
     (''batchId'', field_into into_uint ev_BatchID (\<lambda>v. ev_BatchID_update (\<lambda>_. v))),
     (''elapsedMs'', field_into into_int64 ev_ElapsedMS (\<lambda>v. ev_ElapsedMS_update (\<lambda>_. v))),
     (''generatedTxTotal'', field_into into_uint ev_GeneratedTxTotal (\<lambda>v. ev_GeneratedTxTotal_update (\<lambda>_. v))),
     (''verifiedTxTotal'', field_into into_uint ev_VerifiedTxTotal (\<lambda>v. ev_VerifiedTxTotal_update (\<lambda>_. v)))]"

text \<open>A line is an event when it is JSON of an event with a name.\<close>

definition line_event :: "string \<Rightarrow> exporterProgressEvent option" where
  "line_event line = (case Option.bind (json_whole line) (into_event zero_event) of
     Some event \<Rightarrow> if ev_Event event \<noteq> [] then Some event else None
   | None \<Rightarrow> None)"

definition event_message :: "exporterProgressEvent \<Rightarrow> string option" where
  "event_message event =
     (let proof = ''proof '' @ dec_int (ev_Current event) @ ''/'' @ dec_int (ev_Total event);
          elapsed = dec_int (ev_ElapsedMS event) @ '' ms''
      in if ev_Event event = ''setup_started'' then Some ''proof setup started''
         else if ev_Event event = ''setup_completed'' then Some (''proof setup completed in '' @ elapsed)
         else if ev_Event event = ''proof_started'' then Some (proof @ '' started (lane='' @ dec_int (ev_LaneID event) @ '')'')
         else if ev_Event event = ''proof_completed'' then Some (proof @ '' completed in '' @ elapsed)
         else if ev_Event event = ''bundle_completed'' then Some (''bundle completed in '' @ elapsed)
         else None)"

definition line_prefixes :: "string list" where
  "line_prefixes = [''Compiling '', ''Finished '', ''Running '' @ [CHR 0x60], ''warning:'', ''error:'']"

definition exporter_line :: "'w node \<Rightarrow> host \<Rightarrow> string \<Rightarrow> ('w \<times> dashboardState, unit) cmd" where
  "exporter_line N H line = (case line_event line of
     Some event \<Rightarrow> andThen (run_op N H (Op_event event)) (\<lambda>_.
       case event_message event of None \<Rightarrow> ret () | Some message \<Rightarrow> logging N H ''info'' message)
   | None \<Rightarrow>
       let text = TrimSpace line in
       if text = [] then ret ()
       else if list_ex (HasPrefix text) line_prefixes then logging N H ''info'' text
       else ret ())"

partial_function (option) scan_lines ::
    "'w node \<Rightarrow> 'w machine \<Rightarrow> host \<Rightarrow> ('w \<times> dashboardState) session \<Rightarrow> (unit outcome \<times> ('w \<times> dashboardState) session) option" where
  "scan_lines N M H s =
     (case perform (on_world (\<lambda>w. let (line, w) = ScanLine M w in (Inr line, w))) s of
        (Done None, s) \<Rightarrow> Some (Done (), s)
      | (Done (Some line), s) \<Rightarrow>
          (case exporter_line N H line s of
             None \<Rightarrow> None
           | Some (Done _, s) \<Rightarrow> scan_lines N M H s
           | Some (Failed e, s) \<Rightarrow> Some (Failed e, s)
           | Some (Panic, s) \<Rightarrow> Some (Panic, s))
      | (Failed e, s) \<Rightarrow> Some (Failed e, s)
      | (Panic, s) \<Rightarrow> Some (Panic, s))"

definition exporter_args :: "dashboardOptions \<Rightarrow> int \<Rightarrow> string list" where
  "exporter_args opts laneCount = [''cargo'', ''+stable'', ''run'', ''--manifest-path'', do_ManifestPath opts,
     ''--bin'', ''export_sumproof_bundle'', ''--release'', ''--'', ''--batch-size'', dec_int (do_BatchSize opts),
     ''--lane-count'', dec_int laneCount, ''--batch-id-base'', dec_nat (unat (do_BatchIDBase opts)),
     ''--seed'', dec_nat (unat (do_Seed opts)), ''--progress-json'']"

definition runExporterWithProgress ::
    "'w node \<Rightarrow> 'w machine \<Rightarrow> host \<Rightarrow> dashboardOptions \<Rightarrow> int \<Rightarrow> ('w \<times> dashboardState, string) cmd" where
  "runExporterWithProgress N M H opts laneCount =
     andThen (calling (on_world (StartExporter M (exporter_args opts laneCount)))) (\<lambda>_.
     andThen (scan_lines N M H) (\<lambda>_.
     andThen (calling (on_world (\<lambda>w. let (e, w) = ScanErr M w in (case e of None \<Rightarrow> Inr () | Some m \<Rightarrow> Inl m, w)))) (\<lambda>_.
       calling (on_world (WaitExporter M)))))"

section \<open>Generating the bundle\<close>

definition live_lanes :: "dashboardOptions \<Rightarrow> int" where
  "live_lanes opts = (if do_LiveLaneCount opts \<le> 0 \<or> do_LaneCount opts < do_LiveLaneCount opts
     then do_LaneCount opts else do_LiveLaneCount opts)"

definition write_file :: "'w machine \<Rightarrow> string \<Rightarrow> string \<Rightarrow> ('w \<times> dashboardState, unit) cmd" where
  "write_file M path text = calling (on_world (WriteFile M path text))"

definition generateBundleWithProgress ::
    "'w node \<Rightarrow> 'w machine \<Rightarrow> host \<Rightarrow> dashboardOptions \<Rightarrow> string \<Rightarrow> ('w \<times> dashboardState, unit) cmd" where
  "generateBundleWithProgress N M H opts bundlePath =
     (let liveLaneCount = live_lanes opts; laneCount = do_LaneCount opts; written = ''bundle written: '' @ bundlePath in
      if liveLaneCount = laneCount
      then andThen (runExporterWithProgress N M H opts laneCount) (\<lambda>text.
           andThen (write_file M bundlePath text) (\<lambda>_.
           andThen (run_op N H (Op_bundle bundlePath)) (\<lambda>_.
             logging N H ''info'' written)))
      else let replayCount = laneCount - liveLaneCount; replayPath = do_ReplayBundlePath opts in
           andThen (logging N H ''info'' (''live/replay mode enabled: live='' @ dec_int liveLaneCount @ '' replay='' @ dec_int replayCount)) (\<lambda>_.
           andThen (runExporterWithProgress N M H opts liveLaneCount) (\<lambda>liveData.
           andThen (lift (case Unmarshal_bundle liveData of None \<Rightarrow> Inl ''invalid bundle json'' | Some b \<Rightarrow> Inr b)) (\<lambda>liveBundle.
           andThen (wrapping ''load replay bundle: '' (load_bundle (dash_node N) replayPath)) (\<lambda>replayBundle.
           andThen (lift_panic (mergeBundles liveBundle replayBundle liveLaneCount laneCount)) (\<lambda>result.
           andThen (lift result) (\<lambda>merged.
           andThen (write_file M bundlePath (MarshalIndent (json_bundle merged))) (\<lambda>_.
           andThen (run_op N H (Op_merged laneCount replayCount (do_BatchSize opts))) (\<lambda>_.
           andThen (run_op N H (Op_bundle bundlePath)) (\<lambda>_.
           andThen (logging N H ''info'' (''loaded '' @ dec_int replayCount @ '' replay proofs from '' @ replayPath)) (\<lambda>_.
             logging N H ''info'' written)))))))))))"

section \<open>Submitting the bundle\<close>

definition submission_mode :: "nat \<Rightarrow> nat \<Rightarrow> string option" where
  "submission_mode keys addresses =
     (if keys = 1 \<and> 1 < addresses then Some ''same_sender_burst''
      else if keys = addresses \<and> 1 < keys then Some ''multisender_burst''
      else if keys = 1 \<and> addresses = 1 then Some ''single''
      else None)"

definition sender_flags :: "dashboardOptions \<Rightarrow> flags" where
  "sender_flags opts = \<lparr> fl_rpcURL = do_RPCURL opts, fl_privateKeyHex = [], fl_gasPriceHex = do_GasPriceHex opts,
     fl_bundlePath = [], fl_artifactsDir = do_ArtifactsDir opts, fl_confirmations = do_Confirmations opts \<rparr>"

definition dash_job :: "sender \<Rightarrow> address \<Rightarrow> signed_tx \<times> u64 \<Rightarrow> dashboardSubmitJob" where
  "dash_job sd dest = (\<lambda>(tx, gasLimit). \<lparr> dj_sender = sd, dj_to = dest, dj_tx = tx, dj_gasLimit = gasLimit, dj_sentAt = zero_time \<rparr>)"

text \<open>One sender for all addresses.\<close>

definition same_sender_jobs ::
    "'w node \<Rightarrow> host \<Rightarrow> sender \<Rightarrow> byte list \<Rightarrow> address list \<Rightarrow> ('w, dashboardSubmitJob list) cmd" where
  "same_sender_jobs N H sd data addresses =
     andThen (calling (PendingNonceAt N (sd_client sd) None (sd_from sd))) (\<lambda>nonce.
       for_each (\<lambda>(i, address). andThen (buildSignedTransaction N H sd None (Some address) data (nonce + of_nat i)) (\<lambda>tx.
         ret (dash_job sd address tx))) (enumerate 0 addresses))"

text \<open>One sender for each address; the loop is that of \<^verbatim>\<open>submit-multisender-burst\<close>.\<close>

definition multi_sender_jobs ::
    "'w node \<Rightarrow> host \<Rightarrow> dashboardOptions \<Rightarrow> string list \<Rightarrow> address list \<Rightarrow> byte list
     \<Rightarrow> ('w, dashboardSubmitJob list \<times> client list) cmd" where
  "multi_sender_jobs N H opts privateKeys addresses data =
     (if length privateKeys \<noteq> length addresses
      then failing (''private key count ('' @ dec_nat (length privateKeys) @ '') does not match certifier count (''
             @ dec_nat (length addresses) @ '')'')
      else andThen (build_jobs N H (sender_flags opts) data (zip privateKeys addresses) []) (\<lambda>jobs.
             ret (map (\<lambda>job. dash_job (sj_sender job) (sj_to job) (sj_tx job, sj_gasLimit job)) jobs, job_clients jobs)))"

text \<open>The jobs, and the connections that the cleanup closes; whenever something fails they are closed at once.\<close>

definition buildDashboardJobs ::
    "'w node \<Rightarrow> host \<Rightarrow> dashboardOptions \<Rightarrow> string list \<Rightarrow> address list \<Rightarrow> byte list
     \<Rightarrow> ('w, dashboardSubmitJob list \<times> client list) cmd" where
  "buildDashboardJobs N H opts privateKeys addresses data = (case privateKeys of
     [privateKey] \<Rightarrow>
       andThen (newSender N H (do_RPCURL opts) privateKey (do_GasPriceHex opts) (do_Confirmations opts)) (\<lambda>sd.
       andThen (on_failure (CloseAll [sd_client sd]) (same_sender_jobs N H sd data addresses)) (\<lambda>jobs.
         ret (jobs, [sd_client sd])))
   | _ \<Rightarrow> multi_sender_jobs N H opts privateKeys addresses data)"

definition job_hash :: "host \<Rightarrow> dashboardSubmitJob \<Rightarrow> string" where
  "job_hash H job = HashHex H (TxHash H (dj_tx job))"

definition dash_send :: "'w node \<Rightarrow> host \<Rightarrow> dashboardSubmitJob \<Rightarrow> ('w \<times> dashboardState, dashboardSubmitJob) cmd" where
  "dash_send N H job =
     andThen (now (dash_node N)) (\<lambda>sentAt.
     let job = job\<lparr> dj_sentAt := sentAt \<rparr> in
     andThen (send (dash_node N) (sd_client (dj_sender job)) None (dj_tx job)) (\<lambda>_.
     andThen (run_op N H (Op_sent job)) (\<lambda>_.
     andThen (logging N H ''info'' (''submitted tx '' @ job_hash H job @ '' to '' @ AddressHex H (dj_to job))) (\<lambda>_.
       ret job))))"

text \<open>What the goroutine of a job sends on the channel.\<close>

definition dash_receipt :: "'w node \<Rightarrow> host \<Rightarrow> dashboardSubmitJob \<Rightarrow> ('w, dashboardReceiptResult) cmd" where
  "dash_receipt N H job =
     (let client = sd_client (dj_sender job);
          failed = \<lparr> dr_job = job, dr_receipt = Inl [], dr_includedAt = zero_time, dr_receiptSeenAt = zero_time, dr_warning = [] \<rparr> in
      andThen (attempt (checked_receipt N H None client (sd_confirmations (dj_sender job)) ''transaction'' (dj_tx job))) (\<lambda>r.
      case r of
        Inl err \<Rightarrow> ret (failed\<lparr> dr_receipt := Inl err \<rparr>)
      | Inr receipt \<Rightarrow>
          andThen (now N) (\<lambda>receiptSeenAt.
          andThen (attempt (calling (HeaderByNumber N client None (rc_BlockNumber receipt)))) (\<lambda>header.
            let result = failed\<lparr> dr_receipt := Inr receipt, dr_receiptSeenAt := receiptSeenAt \<rparr> in
            ret (case header of
                Inr h \<Rightarrow> result\<lparr> dr_includedAt := unix_time (hd_Time h) \<rparr>
              | Inl headerErr \<Rightarrow> result\<lparr> dr_warning := ''header lookup unavailable for '' @ job_hash H job @ '': '' @ headerErr \<rparr>)))))"

text \<open>The results are taken from the channel in the order they arrive, given by \<open>arrival\<close>; the calls of one goroutine are made
  together when its result arrives.  \<open>confirmed\<close> and \<open>firstErr\<close> are the loop's variables.\<close>

definition dash_log_result :: "'w node \<Rightarrow> host \<Rightarrow> dashboardReceiptResult \<Rightarrow> ('w \<times> dashboardState, unit) cmd" where
  "dash_log_result N H result = (case dr_receipt result of
     Inr receipt \<Rightarrow>
       andThen (logging N H ''info'' (''confirmed tx '' @ job_hash H (dr_job result) @ '' in block '' @ big_text (rc_BlockNumber receipt))) (\<lambda>_.
         if dr_warning result \<noteq> [] then logging N H ''warn'' (dr_warning result) else ret ())
   | Inl err \<Rightarrow> logging N H ''error'' err)"

fun dash_collect ::
    "'w node \<Rightarrow> host \<Rightarrow> u64 \<Rightarrow> int \<Rightarrow> int \<Rightarrow> dashboardSubmitJob list \<Rightarrow> u64 \<Rightarrow> string option \<Rightarrow> ('w \<times> dashboardState, unit) cmd" where
  "dash_collect N H verifiedTxTotal firstSendAt startedAt [] confirmed firstErr =
     (case firstErr of None \<Rightarrow> ret () | Some e \<Rightarrow> failing e)"
| "dash_collect N H verifiedTxTotal firstSendAt startedAt (job # jobs) confirmed firstErr =
     andThen (dash_receipt (dash_node N) H job) (\<lambda>result.
     let ok = (case dr_receipt result of Inr _ \<Rightarrow> True | Inl _ \<Rightarrow> False);
         confirmed = (if ok then confirmed + verifiedTxTotal else confirmed);
         firstErr = (case (firstErr, dr_receipt result) of (None, Inl err) \<Rightarrow> Some err | _ \<Rightarrow> firstErr) in
     andThen (dash_log_result N H result) (\<lambda>_.
     andThen (run_op N H (Op_receipt result confirmed firstSendAt startedAt)) (\<lambda>_.
       dash_collect N H verifiedTxTotal firstSendAt startedAt jobs confirmed firstErr)))"

text \<open>\<^verbatim>\<open>state.startedAt\<close>.\<close>

definition started_at :: "('w \<times> dashboardState, int) cmd" where
  "started_at = calling (\<lambda>(w, d). (Inr (da_startedAt d), w, d))"

definition dash_submit_jobs ::
    "'w node \<Rightarrow> host \<Rightarrow> (dashboardSubmitJob \<Rightarrow> int) \<Rightarrow> u64 \<Rightarrow> dashboardSubmitJob list
     \<Rightarrow> ('w \<times> dashboardState, unit) cmd" where
  "dash_submit_jobs N H arrival verifiedTxTotal jobs =
     andThen (now (dash_node N)) (\<lambda>t.
     andThen (for_each (dash_send N H) jobs) (\<lambda>sent.
     andThen started_at (\<lambda>startedAt.
       dash_collect N H verifiedTxTotal (case sent of [] \<Rightarrow> t | job # _ \<Rightarrow> dj_sentAt job) startedAt (sort_key arrival sent) 0 None)))"

text \<open>\<^verbatim>\<open>defer cleanup()\<close>.\<close>

definition submit_calls ::
    "'w node \<Rightarrow> host \<Rightarrow> (dashboardSubmitJob \<Rightarrow> int) \<Rightarrow> dashboardOptions \<Rightarrow> string list \<Rightarrow> address list \<Rightarrow> byte list \<Rightarrow> u64
     \<Rightarrow> ('w \<times> dashboardState, unit) cmd" where
  "submit_calls N H arrival opts privateKeys addresses data verifiedTxTotal =
     andThen (buildDashboardJobs (dash_node N) H opts privateKeys addresses data) (\<lambda>x.
       deferring (CloseAll (snd x)) (dash_submit_jobs N H arrival verifiedTxTotal (fst x)))"

definition submitBundleWithProgress ::
    "'w node \<Rightarrow> host \<Rightarrow> (dashboardSubmitJob \<Rightarrow> int) \<Rightarrow> dashboardOptions \<Rightarrow> string \<Rightarrow> string list
     \<Rightarrow> address list \<Rightarrow> ('w \<times> dashboardState, unit) cmd" where
  "submitBundleWithProgress N H arrival opts bundlePath privateKeys addresses =
     andThen (bundle_call (dash_node N) H ((sender_flags opts)\<lparr> fl_bundlePath := bundlePath \<rparr>)) (\<lambda>(data, verifiedTxTotal).
     case submission_mode (length privateKeys) (length addresses) of
       None \<Rightarrow> failing (''unsupported key/address layout: private_keys='' @ dec_nat (length privateKeys)
                 @ '' certifier_addresses='' @ dec_nat (length addresses))
     | Some mode \<Rightarrow>
         andThen (run_op N H (Op_configure mode (int (length addresses)) verifiedTxTotal)) (\<lambda>_.
         andThen (logging N H ''info'' (''starting L1 submission: mode='' @ mode @ '' calls='' @ dec_nat (length addresses)
           @ '' verified_tx_per_call='' @ dec_nat (unat verifiedTxTotal))) (\<lambda>_.
           submit_calls N H arrival opts privateKeys addresses data verifiedTxTotal)))"

section \<open>The workflow\<close>

definition load_existing :: "'w node \<Rightarrow> host \<Rightarrow> string \<Rightarrow> ('w \<times> dashboardState, unit) cmd" where
  "load_existing N H bundlePath =
     andThen (run_op N H (Op_phase ''bundle_ready'')) (\<lambda>_.
     andThen (logging N H ''info'' (''loading existing bundle: '' @ bundlePath)) (\<lambda>_.
     andThen (load_bundle (dash_node N) bundlePath) (\<lambda>bundle.
     andThen (artifacts_of bundle) (\<lambda>(artifacts, verifiedTxTotal).
       run_op N H (Op_loaded bundlePath (int (length artifacts)) verifiedTxTotal)))))"

definition runDashboardWorkflow ::
    "'w node \<Rightarrow> 'w machine \<Rightarrow> host \<Rightarrow> (dashboardSubmitJob \<Rightarrow> int) \<Rightarrow> dashboardOptions
     \<Rightarrow> ('w \<times> dashboardState, unit) cmd" where
  "runDashboardWorkflow N M H arrival opts =
     (let bundlePath = do_BundlePath opts in
      andThen (if do_SkipGenerate opts then load_existing N H bundlePath
               else andThen (calling (on_world (MkdirAll M (Dir M bundlePath)))) (\<lambda>_.
                    andThen (logging N H ''info'' (''starting proof generation: batch_size='' @ dec_int (do_BatchSize opts)
                      @ '' lane_count='' @ dec_int (do_LaneCount opts))) (\<lambda>_.
                      generateBundleWithProgress N M H opts bundlePath))) (\<lambda>_.
      andThen (run_op N H (Op_bundle bundlePath)) (\<lambda>_.
      let privateKeys = parseCSV (do_PrivateKeysText opts) in
      andThen (texting (parseAddressList (IsHexAddress H) (HexToAddress H) (do_CertifierAddresses opts))) (\<lambda>addresses.
        if privateKeys = [] \<or> addresses = []
        then logging N H ''info'' ''submission skipped: provide --private-keys and --certifier-addresses to enable L1 submit''
        else submitBundleWithProgress N H arrival opts bundlePath privateKeys addresses))))"

text \<open>The goroutine of \<^verbatim>\<open>runDashboard\<close> that runs the workflow and shows how it ended.\<close>

definition dashboard_worker ::
    "'w node \<Rightarrow> 'w machine \<Rightarrow> host \<Rightarrow> (dashboardSubmitJob \<Rightarrow> int) \<Rightarrow> dashboardOptions
     \<Rightarrow> ('w \<times> dashboardState, unit) cmd" where
  "dashboard_worker N M H arrival opts =
     andThen (attempt (runDashboardWorkflow N M H arrival opts)) (\<lambda>r. case r of
       Inl err \<Rightarrow> andThen (run_op N H (Op_failed err)) (\<lambda>_. logging N H ''error'' err)
     | Inr _ \<Rightarrow> andThen (run_op N H Op_done) (\<lambda>_. logging N H ''info'' ''workflow completed''))"

text \<open>
  \<^verbatim>\<open>runDashboard\<close> after its flags, on the new state: two lines of log, then the goroutine above.  The HTTP server
  that shows the state runs beside it until the process is interrupted.
\<close>

definition runDashboard ::
    "'w node \<Rightarrow> 'w machine \<Rightarrow> host \<Rightarrow> (dashboardSubmitJob \<Rightarrow> int) \<Rightarrow> string \<Rightarrow> dashboardOptions
     \<Rightarrow> ('w \<times> dashboardState, unit) cmd" where
  "runDashboard N M H arrival listen opts =
     andThen (logging N H ''info'' (''dashboard listening on http://127.0.0.1'' @ listen)) (\<lambda>_.
     andThen (logging N H ''info'' (''bundle path: '' @ do_BundlePath opts)) (\<lambda>_.
       dashboard_worker N M H arrival opts))"

end
