(* ===== verification/Proofctl_Sent.thy ===== *)
theory Proofctl_Sent imports Proofctl_Submit begin

text \<open>
  What the commands of \<^verbatim>\<open>cmd/kaia-proofctl/main.go\<close> send to the chain: one transaction for each receiver, with
  consecutive nonces; and how much gas it offers.
\<close>

section \<open>Loops that send\<close>

lemma send_appends:
  assumes "send N c ctx tx s = Some (r, s')"
  shows "ss_sent s' = ss_sent s @ (case r of Done _ \<Rightarrow> [(c, tx)] | _ \<Rightarrow> [])"
  using assms by (auto simp: send_def andThen_Done calling_def dest: sent.stable_perform [OF calm_any(1)])

lemma send_item_appends:
  assumes "sent.stable build" "send_item N c ctx build dest s = Some (r, s')"
  shows "(\<exists>tx gas s1 t. build s = Some (Done (tx, gas), s1) \<and> ss_sent s' = ss_sent s @ [(c, tx)]
       \<and> r = Done \<lparr> pt_to = dest, pt_tx = tx, pt_gasLimit = gas, pt_sentAt = t \<rparr>)
    \<or> ss_sent s' = ss_sent s \<and> (\<forall>x. r \<noteq> Done x)"
proof -
  from assms(2) consider tx gas s1 t s2 u where "build s = Some (Done (tx, gas), s1)" "now N s1 = Some (Done t, s2)"
      "send N c ctx tx s2 = Some (Done u, s')" "r = Done \<lparr> pt_to = dest, pt_tx = tx, pt_gasLimit = gas, pt_sentAt = t \<rparr>"
    | tx gas s1 t s2 q where "build s = Some (Done (tx, gas), s1)" "now N s1 = Some (Done t, s2)"
      "send N c ctx tx s2 = Some (q, s')" "\<forall>x. q \<noteq> Done x" "\<forall>x. r \<noteq> Done x"
    | tx gas s1 q where "build s = Some (Done (tx, gas), s1)" "now N s1 = Some (q, s')" "\<forall>x. r \<noteq> Done x"
    | q where "build s = Some (q, s')" "\<forall>x. r \<noteq> Done x"
    unfolding send_item_def by (auto simp: andThen_Done)
  then show ?thesis
  proof cases
    case 1
    then show ?thesis
      using sent.stableD [OF assms(1) 1(1)] sent.stableD [OF sent.stable_now(1) [OF calm_any(2)] 1(2)] send_appends [OF 1(3)] by auto
  next
    case 2
    then show ?thesis
      using sent.stableD [OF assms(1) 2(1)] sent.stableD [OF sent.stable_now(1) [OF calm_any(2)] 2(2)] send_appends [OF 2(3)]
      by (cases q) auto
  next
    case 3
    then show ?thesis using sent.stableD [OF assms(1) 3(1)] sent.stableD [OF sent.stable_now(1) [OF calm_any(2)] 3(2)] by auto
  next
    case 4
    then show ?thesis using sent.stableD [OF assms(1) 4(1)] by auto
  qed
qed

text \<open>The transactions of a sending loop: one for each element as far as the loop came.\<close>

definition sends :: "client \<Rightarrow> (nat \<Rightarrow> address \<Rightarrow> signed_tx \<Rightarrow> bool) \<Rightarrow> nat \<Rightarrow> address list
    \<Rightarrow> 'w session \<Rightarrow> 'w session \<Rightarrow> bool \<Rightarrow> bool" where
  "sends c P k xs s s' whole \<longleftrightarrow> (\<exists>txs. ss_sent s' = ss_sent s @ map (Pair c) txs \<and> length txs \<le> length xs
     \<and> (\<forall>i < length txs. P (k + i) (xs ! i) (txs ! i)) \<and> (whole \<longrightarrow> length txs = length xs))"

lemma sending_loop:
  assumes stable: "\<And>i x. sent.stable (build i x)"
    and P: "\<And>i x s tx gas s'. build i x s = Some (Done (tx, gas), s') \<Longrightarrow> P i x tx"
    and run: "for_each (\<lambda>(i, x). send_item N c ctx (build i x) x) (enumerate k xs) s = Some (r, s')"
  shows "sends c P k xs s s' (\<exists>ys. r = Done ys)"
  using run
proof (induction xs arbitrary: k s r)
  case Nil
  then show ?case by (auto simp: sends_def intro!: exI [of _ "[]"])
next
  case (Cons x xs)
  from Cons.prems consider y s1 q where "send_item N c ctx (build k x) x s = Some (Done y, s1)"
      "for_each (\<lambda>(i, x). send_item N c ctx (build i x) x) (enumerate (Suc k) xs) s1 = Some (q, s')"
      "(\<exists>ys. r = Done ys) \<longleftrightarrow> (\<exists>ys. q = Done ys)"
    | q where "send_item N c ctx (build k x) x s = Some (q, s')" "\<forall>y. q \<noteq> Done y" "\<forall>ys. r \<noteq> Done ys"
    by (auto simp: andThen_Done)
  then show ?case
  proof cases
    case 1
    obtain tx where tx: "P k x tx" "ss_sent s1 = ss_sent s @ [(c, tx)]"
      using send_item_appends [OF stable 1(1)] P by blast
    obtain txs where "ss_sent s' = ss_sent s1 @ map (Pair c) txs" "length txs \<le> length xs"
        "\<forall>i < length txs. P (Suc k + i) (xs ! i) (txs ! i)" "(\<exists>ys. q = Done ys) \<longrightarrow> length txs = length xs"
      using Cons.IH [OF 1(2)] by (auto simp: sends_def)
    then show ?thesis
      unfolding sends_def using tx 1(3) by (intro exI [of _ "tx # txs"]) (auto simp: nth_Cons split: nat.split)
  next
    case 2
    then have "ss_sent s' = ss_sent s" using send_item_appends [OF stable 2(1)] by blast
    then show ?thesis unfolding sends_def using 2(3) by (intro exI [of _ "[]"]) auto
  qed
qed

section \<open>Funding and bursts\<close>

text \<open>A transaction signed by a sender.\<close>

definition signed_as :: "host \<Rightarrow> sender \<Rightarrow> u64 \<Rightarrow> address \<Rightarrow> int \<Rightarrow> byte list \<Rightarrow> signed_tx \<Rightarrow> bool" where
  "signed_as H sd nonce dest amount data tx \<longleftrightarrow> (\<exists>gas. SignTx H (sd_chainID sd) (sd_privateKey sd)
     \<lparr> tx_Nonce = nonce, tx_To = Some dest, tx_Value = amount, tx_Gas = gas, tx_GasPrice = sd_gasPrice sd, tx_Data = data \<rparr>
     = Inr tx)"

lemma build_signed:
  assumes "buildSignedTransactionValue N H sd ctx (Some dest) data amount nonce s = Some (Done (tx, gas), s')"
  shows "signed_as H sd nonce dest amount data tx"
proof -
  from assms obtain s1 where "lift (SignTx H (sd_chainID sd) (sd_privateKey sd)
      \<lparr> tx_Nonce = nonce, tx_To = Some dest, tx_Value = amount, tx_Gas = gas, tx_GasPrice = sd_gasPrice sd, tx_Data = data \<rparr>) s1
      = Some (Done tx, s')"
    unfolding buildSignedTransactionValue_def by (auto simp: andThen_Done)
  then show ?thesis by (auto simp: signed_as_def lift_def split: sum.splits)
qed

text \<open>Everything else such a command does leaves the record alone.\<close>

lemma sent_tail:
  assumes m: "\<And>s r s'. m s = Some (r, s') \<Longrightarrow> sends c P k xs s s' (\<exists>y. r = Done y)"
    and f: "\<And>y. sent.stable (f y)" and run: "andThen m f s = Some (r, s')"
  shows "sends c P k xs s s' (\<exists>y. r = Done y)"
proof -
  from run consider y s1 where "m s = Some (Done y, s1)" "f y s1 = Some (r, s')"
    | q where "m s = Some (q, s')" "\<forall>y. q \<noteq> Done y" "\<forall>y. r \<noteq> Done y"
    by (auto simp: andThen_Done)
  then show ?thesis
  proof cases
    case 1
    then show ?thesis using m [OF 1(1)] sent.stableD [OF f 1(2)] by (auto simp: sends_def)
  next
    case 2
    then show ?thesis using m [OF 2(1)] by (auto simp: sends_def)
  qed
qed

lemma sent_head:
  assumes "sent.stable m" and f: "\<And>x s r s'. f x s = Some (r, s') \<Longrightarrow> S s s' (\<exists>y. r = Done y)"
    and S: "\<And>s1 s s' b. ss_sent s1 = ss_sent s \<Longrightarrow> S s1 s' b \<Longrightarrow> S s s' b"
    and none: "\<And>s s'. ss_sent s' = ss_sent s \<Longrightarrow> S s s' False" and run: "andThen m f s = Some (r, s')"
  shows "S s s' (\<exists>y. r = Done y)"
proof -
  from run consider y s1 where "m s = Some (Done y, s1)" "f y s1 = Some (r, s')"
    | q where "m s = Some (q, s')" "\<forall>y. r \<noteq> Done y"
    by (auto simp: andThen_Done)
  then show ?thesis
  proof cases
    case 1
    then show ?thesis using f [OF 1(2)] S [OF sent.stableD [OF assms(1) 1(1)]] by blast
  next
    case 2
    then show ?thesis using none [OF sent.stableD [OF assms(1) 2(1)]] by simp
  qed
qed

text \<open>One signed transaction for each of the receivers, with consecutive nonces, from one sender.\<close>

definition sends_signed :: "host \<Rightarrow> int \<Rightarrow> byte list \<Rightarrow> address list \<Rightarrow> 'w session \<Rightarrow> 'w session \<Rightarrow> bool \<Rightarrow> bool" where
  "sends_signed H amount data xs s s' whole \<longleftrightarrow> (\<exists>sd nonce.
     sends (sd_client sd) (\<lambda>i dest tx. signed_as H sd (nonce + of_nat i) dest amount data tx) 0 xs s s' whole)"

lemma sends_signed_none: "ss_sent s' = ss_sent s \<Longrightarrow> sends_signed H amount data xs s s' False"
  by (auto simp: sends_signed_def sends_def intro!: exI [of _ "[]"])

lemma sends_signed_head: "ss_sent s1 = ss_sent s \<Longrightarrow> sends_signed H amount data xs s1 s' b \<Longrightarrow> sends_signed H amount data xs s s' b"
  by (simp add: sends_signed_def sends_def)

lemma sends_signed_last: "sends_signed H amount data xs s s1 b \<Longrightarrow> ss_sent s' = ss_sent s1 \<Longrightarrow> sends_signed H amount data xs s s' b"
  by (simp add: sends_signed_def sends_def)

lemma sends_signed_then:
  assumes m: "sent.stable m"
    and run: "andThen m f s = Some (r, s')"
    and f: "\<And>x s r s'. f x s = Some (r, s') \<Longrightarrow> sends_signed H amount data xs s s' (\<exists>y. r = Done y)"
  shows "sends_signed H amount data xs s s' (\<exists>y. r = Done y)"
  by (rule sent_head [where S = "sends_signed H amount data xs", OF m f sends_signed_head sends_signed_none run])

lemma with_sender_sends:
  assumes f: "\<And>sd s r s'. f sd s = Some (r, s') \<Longrightarrow> sends_signed H amount data xs s s' (\<exists>y. r = Done y)"
    and run: "with_sender N H fl f s = Some (r, s')"
  shows "sends_signed H amount data xs s s' (\<exists>y. r = Done y)"
proof -
  have "sends_signed H amount data xs s s' (\<exists>y. r = Done y)"
    if d: "deferring (CloseAll cs) (f sd) s = Some (r, s')" for cs sd s r s'
  proof -
    obtain s1 where m: "f sd s = Some (r, s1)" "s' = CloseAll cs s1" using d by (auto simp: deferring_def)
    show ?thesis using sends_signed_last [OF f [OF m(1)]] m(2) by simp
  qed
  note sending = this
  show ?thesis by (rule sends_signed_then [OF sent.stable_newSender [OF calm_any(2)] run [unfolded with_sender_def] sending])
qed

lemma sending_part:
  assumes stable: "\<And>nonce start pending. sent.stable (rest nonce start pending)"
    and build: "\<And>nonce i x s tx gas s'. build nonce i x s = Some (Done (tx, gas), s') \<Longrightarrow> signed_as H sd (nonce + of_nat i) x amount data tx"
    and build_stable: "\<And>nonce i x. sent.stable (build nonce i x)"
    and run: "andThen (calling (PendingNonceAt N (sd_client sd) None (sd_from sd))) (\<lambda>nonce. andThen (now N) (\<lambda>start.
      andThen (for_each (\<lambda>(i, x). send_item N (sd_client sd) None (build nonce i x) x) (enumerate 0 xs)) (rest nonce start))) s
      = Some (r, s')"
  shows "sends_signed H amount data xs s s' (\<exists>y. r = Done y)"
proof -
  have "sends_signed H amount data xs s s' (\<exists>y. r = Done y)" if "andThen (for_each (\<lambda>(i, x). send_item N (sd_client sd) None
      (build nonce i x) x) (enumerate 0 xs)) (rest nonce start) s = Some (r, s')" for nonce start s r s'
    unfolding sends_signed_def
    by (intro exI, rule sent_tail [OF sending_loop [OF build_stable build] stable that])
  note loop = this
  have "sends_signed H amount data xs s s' (\<exists>y. r = Done y)" if "andThen (now N) (\<lambda>start.
      andThen (for_each (\<lambda>(i, x). send_item N (sd_client sd) None (build nonce i x) x) (enumerate 0 xs)) (rest nonce start)) s
      = Some (r, s')" for nonce s r s'
    by (rule sends_signed_then [OF sent.stable_now(1) [OF calm_any(2)] that loop])
  then show ?thesis by (rule sends_signed_then [OF sent.stable_calling [OF calm_any(1)] run])
qed

lemma sent_receipts [simp, intro]:
  "sent.stable (fund_receipt N H sd n amount item)" "sent.stable (burst_receipt N H several action n v si)"
  "sent.stable (or_now N t)" "sent.stable (burst_report N start v results)" "sent.stable (bundle_call N H fl)"
  by (cases si; auto simp: fund_receipt_def burst_receipt_def or_now_def burst_report_def bundle_call_def Let_def)+


text \<open>A host on which every text is an address and every transaction can be signed.\<close>

definition plain_host :: host where
  "plain_host = \<lparr> Getenv = (\<lambda>_. []), PathJoin = (\<lambda>a b. a @ CHR ''/'' # b), FormatLocal = (\<lambda>t. dec_int t),
     FormatUTC = (\<lambda>t. dec_int t), IsHexAddress = (\<lambda>_. True), HexToAddress = (\<lambda>t. map (of_char :: char \<Rightarrow> byte) t),
     AddressHex = EncodeToString, HexToECDSA = (\<lambda>t. Inr (map of_char t)), FromECDSA = (\<lambda>k. k),
     PubkeyToAddress = (\<lambda>k. k), SignTx = (\<lambda>c k t. Inr \<lparr> st_tx = t, st_signature = k \<rparr>), TxHash = st_signature,
     HashHex = EncodeToString, AbiJSON = (\<lambda>t. Inr t), Pack = (\<lambda>a m args. Inr []) \<rparr>"

lemma ready_fields [simp]:
  "Dial ready_node = (\<lambda>url w. (Inr 0, w))" "ChainID ready_node = (\<lambda>c ctx w. (Inr 1, w))"
  "PendingNonceAt ready_node = (\<lambda>c ctx a w. (Inr 0, w))" "EstimateGas ready_node = (\<lambda>c ctx m w. (Inr 21000, w))"
  "SendTransaction ready_node = (\<lambda>c ctx t w. (Inr (), w))" "Now ready_node = (\<lambda>w. (w, w))"
  "TransactionReceipt ready_node = (\<lambda>c ctx h w. (Inr \<lparr> rc_Status = 1, rc_BlockNumber = Some 7, rc_GasUsed = 21000,
     rc_ContractAddress = [] \<rparr>, w))"
  by (simp_all add: ready_node_def silent_node_def)

lemma plain_fields [simp]:
  "HexToECDSA plain_host = (\<lambda>t. Inr (map of_char t))" "SignTx plain_host = (\<lambda>c k t. Inr \<lparr> st_tx = t, st_signature = k \<rparr>)"
  "PubkeyToAddress plain_host = (\<lambda>k. k)" "TxHash plain_host = st_signature"
  by (simp_all add: plain_host_def)


end
