(* ===== verification/Dashboard_Run.thy ===== *)
theory Dashboard_Run imports Dashboard_Workflow Proofctl_Sent begin

text \<open>
  What the dashboard shows of a run of its workflow: the connections are closed again, and a dashboard that says
  \<open>completed\<close> tells the truth.
\<close>

section \<open>The quiet part of the workflow\<close>

text \<open>The sections that touch neither the calls nor the error of the dashboard.\<close>

fun plain_op :: "dash_op \<Rightarrow> bool" where
  "plain_op (Op_failed _) = False"
| "plain_op (Op_configure _ _ _) = False"
| "plain_op (Op_sent _) = False"
| "plain_op (Op_receipt _ _ _ _) = False"
| "plain_op _ = True"

locale dash_observer = observer obs keeps
  for obs :: "('w \<times> dashboardState) session \<Rightarrow> 'o" and keeps :: "'w \<times> dashboardState \<Rightarrow> 'w \<times> dashboardState \<Rightarrow> bool" +
  assumes same: "keeps (w, d) (w', d)"
    and plain: "plain_op op \<Longrightarrow> keeps (w, d) (w', apply_op H (t, u, op) d)"
begin

lemma calm_on_world [simp, intro]: "calm (on_world f)"
  by (auto simp: calm_def on_world_def same split: prod.split)

lemma calm_dash_node [simp, intro]: "calm_node (dash_node N)"
  by (simp add: calm_node_def dash_node_def)

lemma stable_plain_op [simp, intro]: "plain_op op \<Longrightarrow> stable (run_op N H op)"
  unfolding run_op_def by (rule stable_calling) (auto simp: calm_def plain split: prod.split)

lemma stable_attempt [intro!]: "stable m \<Longrightarrow> stable (attempt m)"
  by (auto simp: stable_def attempt_def)

lemma stable_wrapping [intro!]: "stable m \<Longrightarrow> stable (wrapping prefix m)"
  by (auto simp: wrapping_def split: sum.split)

lemma stable_exporter_line [simp, intro]: "stable (exporter_line N H line)"
  by (auto simp: exporter_line_def Let_def split: option.split)

lemma stable_scan_lines [simp, intro]: "stable (scan_lines N M H)"
proof -
  have "obs (snd y) = obs s" if run: "scan_lines N M H s = Some y" for s y
    by (rule scan_lines.raw_induct [OF _ run])
      (auto split: prod.splits outcome.splits option.splits
        dest!: stable_perform [OF calm_on_world] stableD [OF stable_exporter_line])
  then show ?thesis by (fastforce simp: stable_def)
qed

lemma stable_generate [simp, intro]: "stable (generateBundleWithProgress N M H opts path)"
  by (auto simp: generateBundleWithProgress_def runExporterWithProgress_def Let_def write_file_def)

lemma stable_load_existing [simp, intro]: "stable (load_existing N H path)"
  by (auto simp: load_existing_def)

lemma stable_bundle_call [simp, intro]: "stable (bundle_call (dash_node N) H fl)"
  by (auto simp: bundle_call_def)

lemma stable_dash_receipt [simp, intro]: "stable (dash_receipt (dash_node N) H job)" "stable (dash_log_result N H result)"
  by (auto simp: dash_receipt_def dash_log_result_def Let_def split: sum.split)

end

interpretation dash_clients: dash_observer "\<lambda>s. mset (ss_clients s)" any_world
  by unfold_locales (simp_all add: any_world_def)

section \<open>Connections\<close>

lemma stable_run_op [simp, intro]: "clients.stable (run_op N H op)"
  by (auto simp: run_op_def)

lemma opens_or_close:
  assumes A: "opens (\<lambda>x. [c x]) A" and m: "\<And>x. clients.stable (m x)" "\<And>x. panic_free (m x)"
  shows "opens snd (andThen A (\<lambda>x. andThen (on_failure (CloseAll [c x]) (m x)) (\<lambda>y. ret (y, [c x]))))"
  unfolding opens_def
proof (intro allI impI)
  fix s r s'
  assume "andThen A (\<lambda>x. andThen (on_failure (CloseAll [c x]) (m x)) (\<lambda>y. ret (y, [c x]))) s = Some (r, s')"
  then consider x s1 y where "A s = Some (Done x, s1)" "on_failure (CloseAll [c x]) (m x) s1 = Some (Done y, s')" "r = Done (y, [c x])"
    | x s1 e where "A s = Some (Done x, s1)" "on_failure (CloseAll [c x]) (m x) s1 = Some (Failed e, s')" "r = Failed e"
    | x s1 where "A s = Some (Done x, s1)" "on_failure (CloseAll [c x]) (m x) s1 = Some (Panic, s')" "r = Panic"
    | e where "A s = Some (Failed e, s')" "r = Failed e" | "A s = Some (Panic, s')" "r = Panic"
    by (auto simp: andThen_Done)
  then show "mset (ss_clients s') = mset (ss_clients s) + (case r of Done x \<Rightarrow> mset (snd x) | _ \<Rightarrow> {#})"
  proof cases
    case (1 x s1 y)
    then have "m x s1 = Some (Done y, s')" by (auto simp: on_failure_def)
    then show ?thesis using A 1 clients.stableD [OF m(1)] by (fastforce simp: opens_def)
  next
    case (2 x s1 e)
    then obtain s2 where "m x s1 = Some (Failed e, s2)" "s' = CloseAll [c x] s2" by (auto simp: on_failure_def)
    then show ?thesis using A 2 clients.stableD [OF m(1)] by (fastforce simp: opens_def)
  next
    case (3 x s1)
    then show ?thesis using m(2) by (auto simp: on_failure_def panic_free_def)
  qed (use A in \<open>fastforce simp: opens_def\<close>)+
qed

lemma opens_ret: "opens cl m \<Longrightarrow> (\<And>x. cl' (g x) = cl x) \<Longrightarrow> opens cl' (andThen m (\<lambda>x. ret (g x)))"
  by (fastforce simp: opens_def andThen_Done)

lemma panic_free_for_each [intro!]: "(\<And>x. panic_free (f x)) \<Longrightarrow> panic_free (for_each f xs)"
  by (induction xs) auto

lemma buildDashboardJobs_multi:
  "(\<nexists>k. keys = [k]) \<Longrightarrow> buildDashboardJobs N H opts keys addresses data = multi_sender_jobs N H opts keys addresses data"
  unfolding buildDashboardJobs_def by (cases keys; cases "tl keys") simp_all

lemma buildDashboardJobs_opens: "opens snd (buildDashboardJobs N H opts keys addresses data)"
proof (cases "\<exists>k. keys = [k]")
  case True
  then obtain k where "keys = [k]" by blast
  then show ?thesis
    unfolding buildDashboardJobs_def by (auto intro!: opens_or_close newSender_opens simp: same_sender_jobs_def)
next
  case False
  show ?thesis
    unfolding buildDashboardJobs_multi [OF False] multi_sender_jobs_def
    by (cases "length keys = length addresses") (simp_all add: opens_ret [OF build_jobs_opens] opens_def [of _ "failing _"])
qed

lemma stable_submit_jobs [simp, intro]: "clients.stable (dash_submit_jobs N H arrival v jobs)"
proof -
  have "clients.stable (dash_collect N H v first started js confirmed firstErr)" for first started js confirmed firstErr
    by (induction N H v first started js confirmed firstErr rule: dash_collect.induct)
      (auto simp: Let_def split: option.split sum.split)
  then show ?thesis by (auto simp: dash_submit_jobs_def dash_send_def started_at_def Let_def)
qed

lemma stable_submitBundle [simp, intro]: "clients.stable (submitBundleWithProgress N H arrival opts path keys addresses)"
proof -
  have [simp, intro]: "clients.stable (submit_calls N H arrival opts keys addresses data v)" for data v
    unfolding submit_calls_def by (rule deferred_close [OF buildDashboardJobs_opens]) simp
  show ?thesis by (auto simp: submitBundleWithProgress_def split: option.split)
qed

theorem dashboard_closes_connections:
  "case dashboard_worker N M H arrival opts s of None \<Rightarrow> True | Some (r, s') \<Rightarrow> mset (ss_clients s') = mset (ss_clients s)"
proof -
  have "clients.stable (dashboard_worker N M H arrival opts)"
    by (auto simp: dashboard_worker_def runDashboardWorkflow_def Let_def split: sum.split)
  then show ?thesis by (auto split: option.split dest: clients.stableD)
qed

section \<open>What the dashboard shows\<close>

definition calls_of :: "dashboardState \<Rightarrow> string \<times> dashboardL1State" where
  "calls_of d = (sn_Error (clone d), sn_L1 (clone d))"

definition same_calls :: "'w \<times> dashboardState \<Rightarrow> 'w \<times> dashboardState \<Rightarrow> bool" where
  "same_calls w w' \<longleftrightarrow> calls_of (snd w') = calls_of (snd w)"

lemma plain_op_calls: "plain_op op \<Longrightarrow> calls_of (apply_op H (t, u, op) d) = calls_of d"
  by (cases op) (simp_all add: calls_of_def clone_def dash_ops Let_def)

interpretation calls: bystander "\<lambda>s. (calls_of (snd (ss_world s)), ss_sent s)" same_calls
  by unfold_locales (auto simp: same_calls_def)

interpretation dash_calls: dash_observer "\<lambda>s. (calls_of (snd (ss_world s)), ss_sent s)" same_calls
  by unfold_locales (auto simp: same_calls_def plain_op_calls)

text \<open>
  No error was reported, \<open>n\<close> of the \<open>T\<close> announced calls were sent, \<open>c\<close> of them confirmed and \<open>f\<close> failed; \<open>sent0\<close> was
  sent before.
\<close>

definition tells ::
    "(client \<times> signed_tx) list \<Rightarrow> int \<Rightarrow> u64 \<Rightarrow> nat \<Rightarrow> nat \<Rightarrow> nat \<Rightarrow> string \<times> dashboardL1State \<Rightarrow> (client \<times> signed_tx) list \<Rightarrow> bool" where
  "tells sent0 T v n c f = (\<lambda>(e, l) sent.
     e = [] \<and> dl1_TotalCalls l = T \<and> dl1_VerifiedTxPerCall l = v
     \<and> dl1_SentCalls l = wrap64 (int n) \<and> dl1_ConfirmedCalls l = wrap64 (int c) \<and> dl1_FailedCalls l = wrap64 (int f)
     \<and> dl1_VerifiedTxConfirmed l = of_nat c * v \<and> (\<exists>txs. sent = sent0 @ txs \<and> length txs = n))"

text \<open>What holds before and after a program, of the calls the dashboard shows and of the transactions sent.\<close>

definition triple ::
    "(string \<times> dashboardL1State \<Rightarrow> (client \<times> signed_tx) list \<Rightarrow> bool) \<Rightarrow> ('w \<times> dashboardState, 'a) cmd
     \<Rightarrow> ('a outcome \<Rightarrow> string \<times> dashboardL1State \<Rightarrow> (client \<times> signed_tx) list \<Rightarrow> bool) \<Rightarrow> bool" where
  "triple P m Q \<longleftrightarrow> (\<forall>s r s'. P (calls_of (snd (ss_world s))) (ss_sent s) \<longrightarrow> m s = Some (r, s')
     \<longrightarrow> Q r (calls_of (snd (ss_world s'))) (ss_sent s'))"

lemma tripleD: "triple P m Q \<Longrightarrow> P (calls_of (snd (ss_world s))) (ss_sent s) \<Longrightarrow> m s = Some (r, s')
    \<Longrightarrow> Q r (calls_of (snd (ss_world s'))) (ss_sent s')"
  by (simp add: triple_def)

lemma triple_andThen:
  assumes m: "triple P m Q" and f: "\<And>x. triple (Q (Done x)) (f x) R"
    and fails: "\<And>e k t. Q (Failed e) k t \<Longrightarrow> R (Failed e) k t" "\<And>k t. Q Panic k t \<Longrightarrow> R Panic k t"
  shows "triple P (andThen m f) R"
  unfolding triple_def
proof (intro allI impI)
  fix s r s' assume P: "P (calls_of (snd (ss_world s))) (ss_sent s)" and "andThen m f s = Some (r, s')"
  then consider x s1 where "m s = Some (Done x, s1)" "f x s1 = Some (r, s')"
    | e where "m s = Some (Failed e, s')" "r = Failed e" | "m s = Some (Panic, s')" "r = Panic"
    by (auto simp: andThen_Done)
  then show "R r (calls_of (snd (ss_world s'))) (ss_sent s')"
    by cases (use tripleD [OF m P] tripleD [OF f] fails in blast)+
qed

lemma triple_stable: "calls.stable m \<Longrightarrow> triple P m (\<lambda>r. P)"
  using calls.stableD by (fastforce simp: triple_def)

lemma triple_first: "calls.stable m \<Longrightarrow> (\<And>x. triple P (f x) R) \<Longrightarrow> (\<And>r k t. P k t \<Longrightarrow> \<forall>x. r \<noteq> Done x \<Longrightarrow> R r k t)
    \<Longrightarrow> triple P (andThen m f) R"
  by (rule triple_andThen [OF triple_stable]) auto

lemma triple_weaken: "triple P m Q \<Longrightarrow> (\<And>k t. P' k t \<Longrightarrow> P k t) \<Longrightarrow> (\<And>r k t. Q r k t \<Longrightarrow> Q' r k t) \<Longrightarrow> triple P' m Q'"
  unfolding triple_def by blast

lemma triple_deferring: "triple P m Q \<Longrightarrow> triple P (deferring (CloseAll cs) m) Q"
proof -
  have "ss_world (CloseAll cs s) = ss_world s" for cs and s :: "('a \<times> dashboardState) session"
    by (induction cs arbitrary: s) (simp_all add: CloseAll_def Close_def)
  then show "triple P m Q \<Longrightarrow> triple P (deferring (CloseAll cs) m) Q"
    by (fastforce simp: triple_def deferring_def)
qed

lemma run_op_result:
  assumes "run_op N H op s = Some (r, s')"
  shows "r = Done () \<and> ss_sent s' = ss_sent s \<and> (\<exists>t u. snd (ss_world s') = apply_op H (t, u, op) (snd (ss_world s)))"
proof -
  obtain w d where w: "ss_world s = (w, d)" by (cases "ss_world s")
  obtain t w1 where t: "(if reads_first op then Now N w else (zero_time, w)) = (t, w1)" by fastforce
  obtain u w2 where u: "Now N w1 = (u, w2)" by fastforce
  show ?thesis
    using assms unfolding run_op_def calling_def perform_def w by (auto simp: t u Let_def) blast
qed

lemma triple_run_op:
  assumes "\<And>t u d sent. P (calls_of d) sent \<Longrightarrow> Q (Done ()) (calls_of (apply_op H (t, u, op) d)) sent"
  shows "triple P (run_op N H op) Q"
  unfolding triple_def using assms by (auto dest!: run_op_result)

lemma triple_if: "(A \<Longrightarrow> triple P m Q) \<Longrightarrow> triple (\<lambda>k t. A \<and> P k t) m Q"
  by (auto simp: triple_def)

text \<open>Sections never fail.\<close>

lemma triple_op_then:
  assumes "\<And>t u d sent. P (calls_of d) sent \<Longrightarrow> P' (calls_of (apply_op H (t, u, op) d)) sent" "triple P' m Q"
  shows "triple P (andThen (run_op N H op) (\<lambda>_. m)) Q"
  by (rule triple_andThen [where Q = "\<lambda>r k sent. case r of Done _ \<Rightarrow> P' k sent | _ \<Rightarrow> False", OF triple_run_op])
    (use assms in auto)

lemma triple_plain_then: "plain_op op \<Longrightarrow> triple P m Q \<Longrightarrow> triple P (andThen (run_op N H op) (\<lambda>_. m)) Q"
  by (rule triple_op_then) (simp_all add: plain_op_calls)

lemma triple_plain: "plain_op op \<Longrightarrow> (\<And>k t. P k t \<Longrightarrow> Q (Done ()) k t) \<Longrightarrow> triple P (run_op N H op) Q"
  by (rule triple_run_op) (simp add: plain_op_calls)

lemma triple_ret: "(\<And>k t. P k t \<Longrightarrow> Q (Done x) k t) \<Longrightarrow> triple P (ret x) Q"
  by (auto simp: triple_def)

section \<open>Sending, collecting and submitting\<close>

lemma tells_configure:
  "tells sent0 T0 v0 0 0 0 (calls_of d) sent \<Longrightarrow> tells sent0 T v 0 0 0 (calls_of (apply_op H (t, u, Op_configure mode T v) d)) sent"
  by (simp add: tells_def calls_of_def clone_def configureSubmission_def)

lemma tells_sent:
  "tells sent0 T v n c f (calls_of d) sent \<Longrightarrow> tells sent0 T v (Suc n) c f (calls_of (apply_op H (t, u, Op_sent job) d)) (sent @ [x])"
  by (auto simp: tells_def calls_of_def clone_def noteTxSent_def Let_def wrap64_count add.commute)

lemma tells_failed:
  assumes "tells sent0 T v n c f (calls_of d) sent" "dr_receipt result = Inl e"
  shows "tells sent0 T v n c (Suc f) (calls_of (apply_op H (t, u, Op_receipt result k first started) d)) sent"
  using assms by (simp add: tells_def calls_of_def clone_def noteReceipt_def Let_def wrap64_count add.commute)

lemma tells_confirmed:
  assumes "tells sent0 T v n c f (calls_of d) sent" "dr_receipt result = Inr receipt"
  shows "tells sent0 T v n (Suc c) f (calls_of (apply_op H (t, u, Op_receipt result (of_nat c * v + v) first started) d)) sent"
  using assms by (simp add: tells_def calls_of_def clone_def noteReceipt_def confirmed_totals_def Let_def wrap64_count
    algebra_simps)

lemma calls_now [simp, intro]: "calls.stable (now (dash_node N))"
  by (rule calls.stable_now) simp

lemma send_triple:
  assumes "\<And>x k sent. P k sent \<Longrightarrow> Q (Done ()) k (sent @ [(c, tx)])" "\<And>e k sent. P k sent \<Longrightarrow> Q (Failed e) k sent"
  shows "triple P (send (dash_node N) c ctx tx) Q"
  unfolding triple_def
proof (intro allI impI)
  fix s r s' assume P: "P (calls_of (snd (ss_world s))) (ss_sent s)" and run: "send (dash_node N) c ctx tx s = Some (r, s')"
  obtain q s1 where q: "perform (SendTransaction (dash_node N) c ctx tx) s = (q, s1)" by fastforce
  have "(calls_of (snd (ss_world s1)), ss_sent s1) = (calls_of (snd (ss_world s)), ss_sent s)"
    by (rule calls.stable_perform [OF _ q]) simp
  then show "Q r (calls_of (snd (ss_world s'))) (ss_sent s')"
    using run assms(1) [OF P] assms(2) [OF P] q not_Panic [of "SendTransaction (dash_node N) c ctx tx" s s1]
    by (cases q) (auto simp: send_def andThen_def calling_def)
qed

text \<open>Between the sending of a transaction and its recording.\<close>

definition unrecorded ::
    "(string \<times> dashboardL1State \<Rightarrow> (client \<times> signed_tx) list \<Rightarrow> bool) \<Rightarrow> string \<times> dashboardL1State \<Rightarrow> (client \<times> signed_tx) list \<Rightarrow> bool" where
  "unrecorded P k sent \<longleftrightarrow> (\<exists>x rest. sent = rest @ [x] \<and> P k rest)"

lemma unrecordedI: "P k rest \<Longrightarrow> unrecorded P k (rest @ [x])"
  by (auto simp: unrecorded_def)

lemma dash_send_triple:
  "triple (tells sent0 T v n c f) (dash_send N H job)
     (\<lambda>r k sent. case r of Done _ \<Rightarrow> tells sent0 T v (Suc n) c f k sent | _ \<Rightarrow> tells sent0 T v n c f k sent)"
proof -
  let ?Q = "\<lambda>r k sent. case r of Done _ \<Rightarrow> tells sent0 T v (Suc n) c f k sent | _ \<Rightarrow> tells sent0 T v n c f k sent"
  have "triple (unrecorded (tells sent0 T v n c f)) (andThen (run_op N H (Op_sent job)) (\<lambda>_.
      andThen (logging N H ''info'' message) (\<lambda>_. ret job))) ?Q" for job message
    by (rule triple_op_then [where P' = "tells sent0 T v (Suc n) c f"])
      (auto simp: unrecorded_def simp del: apply_op.simps intro!: triple_plain_then triple_ret tells_sent)
  note recorded = this
  have "triple (tells sent0 T v n c f) (andThen (send (dash_node N) (sd_client (dj_sender job)) None (dj_tx job)) (\<lambda>_.
      andThen (run_op N H (Op_sent job)) (\<lambda>_. andThen (logging N H ''info'' message) (\<lambda>_. ret job)))) ?Q" for job message
    by (rule triple_andThen [where Q = "\<lambda>r k sent. case r of Done _ \<Rightarrow> unrecorded (tells sent0 T v n c f) k sent
        | _ \<Rightarrow> tells sent0 T v n c f k sent", OF send_triple]) (auto intro: unrecordedI recorded)
  note sending = this
  show ?thesis unfolding dash_send_def Let_def
    by (rule triple_first [OF calls_now], rule sending) (auto split: outcome.split)
qed

lemma dash_sends_triple:
  "triple (tells sent0 T v n c f) (for_each (dash_send N H) jobs)
     (\<lambda>r k sent. case r of Done js \<Rightarrow> length js = length jobs \<and> tells sent0 T v (n + length jobs) c f k sent
      | _ \<Rightarrow> \<exists>n. tells sent0 T v n c f k sent)"
proof (induction jobs arbitrary: n)
  case Nil
  then show ?case unfolding for_each.simps by (intro triple_ret) simp
next
  case (Cons job jobs)
  have "triple (tells sent0 T v (Suc n) c f) (andThen (for_each (dash_send N H) jobs) (\<lambda>js. ret (j # js)))
     (\<lambda>r k sent. case r of Done js \<Rightarrow> length js = length (job # jobs) \<and> tells sent0 T v (n + length (job # jobs)) c f k sent
      | _ \<Rightarrow> \<exists>n. tells sent0 T v n c f k sent)" for j
    by (rule triple_andThen [OF Cons.IH]) (auto intro!: triple_ret)
  then show ?case
    unfolding for_each.simps by (intro triple_andThen [OF dash_send_triple]) auto
qed

lemma dash_collect_triple:
  "triple (tells sent0 T v n c f) (dash_collect N H v first started jobs (of_nat c * v) firstErr)
     (\<lambda>r k sent. case r of Done _ \<Rightarrow> firstErr = None \<and> tells sent0 T v n (c + length jobs) f k sent
      | _ \<Rightarrow> \<exists>c f. tells sent0 T v n c f k sent)"
proof (induction jobs arbitrary: c f firstErr)
  case Nil
  then show ?case by (cases firstErr) (auto simp: triple_def)
next
  case (Cons job jobs)
  let ?Q = "\<lambda>r k sent. case r of Done _ \<Rightarrow> firstErr = None \<and> tells sent0 T v n (c + length (job # jobs)) f k sent
      | _ \<Rightarrow> \<exists>c f. tells sent0 T v n c f k sent"
  have failed: "triple (tells sent0 T v n c f) (andThen (dash_log_result N H result) (\<lambda>_.
      andThen (run_op N H (Op_receipt result (of_nat c * v) first started)) (\<lambda>_.
      dash_collect N H v first started jobs (of_nat c * v) (Some e')))) ?Q"
    if "dr_receipt result = Inl e" for result e e'
  proof (rule triple_first)
    show "triple (tells sent0 T v n c f) (andThen (run_op N H (Op_receipt result (of_nat c * v) first started)) (\<lambda>_.
        dash_collect N H v first started jobs (of_nat c * v) (Some e'))) ?Q"
      by (rule triple_op_then [where P' = "tells sent0 T v n c (Suc f)"], erule tells_failed [OF _ that], rule triple_weaken [OF Cons.IH])
        (auto split: outcome.splits)
  qed (auto split: outcome.split)
  have confirmed: "triple (tells sent0 T v n c f) (andThen (dash_log_result N H result) (\<lambda>_.
      andThen (run_op N H (Op_receipt result (of_nat c * v + v) first started)) (\<lambda>_.
      dash_collect N H v first started jobs (of_nat c * v + v) firstErr))) ?Q"
    if "dr_receipt result = Inr receipt" for result receipt
  proof (rule triple_first)
    have c: "of_nat c * v + v = of_nat (Suc c) * v" by (simp add: distrib_right)
    show "triple (tells sent0 T v n c f) (andThen (run_op N H (Op_receipt result (of_nat c * v + v) first started)) (\<lambda>_.
        dash_collect N H v first started jobs (of_nat c * v + v) firstErr)) ?Q"
      by (rule triple_op_then [where P' = "tells sent0 T v n (Suc c) f"], erule tells_confirmed [OF _ that], unfold c, rule triple_weaken [OF Cons.IH])
        (auto split: outcome.splits)
  qed (auto split: outcome.split)
  show ?case
    unfolding dash_collect.simps Let_def
  proof (rule triple_first, goal_cases)
    case (2 result)
    show ?case
    proof (cases "dr_receipt result")
      case (Inl e)
      then show ?thesis using failed [OF Inl] by (cases firstErr) simp_all
    next
      case (Inr receipt)
      then show ?thesis using confirmed [OF Inr] by (cases firstErr) simp_all
    qed
  qed (auto split: outcome.split)
qed

lemma dash_submit_jobs_triple:
  "triple (tells sent0 T v 0 0 0) (dash_submit_jobs N H arrival v jobs)
     (\<lambda>r k sent. case r of Done _ \<Rightarrow> tells sent0 T v (length jobs) (length jobs) 0 k sent
      | _ \<Rightarrow> \<exists>n c f. tells sent0 T v n c f k sent)"
proof -
  have started [simp]: "calls.stable started_at"
    unfolding started_at_def by (rule calls.stable_calling) (auto simp: calls.calm_def same_calls_def)
  let ?Q = "\<lambda>r k sent. case r of Done _ \<Rightarrow> tells sent0 T v (length jobs) (length jobs) 0 k sent
      | _ \<Rightarrow> \<exists>n c f. tells sent0 T v n c f k sent"
  have collect: "triple (tells sent0 T v (length jobs) 0 0) (dash_collect N H v first started (sort_key arrival sent) 0 None) ?Q"
    if "length sent = length jobs" for first started sent
  proof -
    have "triple (tells sent0 T v (length jobs) 0 0) (dash_collect N H v first started (sort_key arrival sent) (of_nat 0 * v) None) ?Q"
      by (rule triple_weaken [OF dash_collect_triple]) (use that in \<open>auto split: outcome.splits\<close>)
    then show ?thesis by simp
  qed
  have rest: "triple (\<lambda>k t. length sent = length jobs \<and> tells sent0 T v (length jobs) 0 0 k t)
      (andThen started_at (\<lambda>started. dash_collect N H v (first sent) started (sort_key arrival sent) 0 None)) ?Q" for first sent
    by (rule triple_if, rule triple_first [OF started], erule collect) (auto split: outcome.split)
  have "triple (tells sent0 T v 0 0 0) (andThen (for_each (dash_send N H) jobs) (\<lambda>sent.
      andThen started_at (\<lambda>started. dash_collect N H v (first sent) started (sort_key arrival sent) 0 None))) ?Q" for first
    by (rule triple_andThen [OF dash_sends_triple], simp only: outcome.case add_0, rule rest) auto
  then show ?thesis
    unfolding dash_submit_jobs_def by (rule triple_first [OF calls_now]) (auto split: outcome.split)
qed

context bystander begin

lemma stable_build_jobs [simp, intro]: "calm_node N \<Longrightarrow> stable (build_jobs N H fl data kas jobs)"
  by (induction N H fl data kas jobs rule: build_jobs.induct) auto

lemma stable_buildDashboardJobs [simp, intro]: "calm_node N \<Longrightarrow> stable (buildDashboardJobs N H opts keys addresses data)"
proof -
  assume N: "calm_node N"
  have "stable (multi_sender_jobs N H opts keys addresses data)"
    unfolding multi_sender_jobs_def using stable_build_jobs [OF N] by (cases "length keys = length addresses") auto
  then show ?thesis
    using N unfolding buildDashboardJobs_def by (auto simp: same_sender_jobs_def split: list.split)
qed

end

text \<open>There is one job for each address.\<close>

lemma length_for_each: "for_each f xs s = Some (Done ys, s') \<Longrightarrow> length ys = length xs"
  by (induction xs arbitrary: s ys) (auto simp: andThen_Done)

lemma length_build_jobs: "build_jobs N H fl data kas jobs s = Some (Done jobs', s') \<Longrightarrow> length jobs' = length jobs + length kas"
  by (induction N H fl data kas jobs arbitrary: s rule: build_jobs.induct) (fastforce simp: andThen_Done)+

lemma length_buildDashboardJobs:
  assumes "buildDashboardJobs N H opts keys addresses data s = Some (Done x, s')"
  shows "length (fst x) = length addresses"
proof (cases "\<exists>k. keys = [k]")
  case True
  then show ?thesis
    using assms by (auto simp: buildDashboardJobs_def same_sender_jobs_def andThen_Done dest!: on_failure_cases length_for_each)
next
  case False
  show ?thesis
    using assms unfolding buildDashboardJobs_multi [OF False] multi_sender_jobs_def
    by (auto simp: andThen_Done dest!: length_build_jobs split: if_splits)
qed

lemma submit_calls_triple:
  "triple (tells sent0 T v 0 0 0) (submit_calls N H arrival opts keys addresses data v)
     (\<lambda>r k sent. case r of Done _ \<Rightarrow> tells sent0 T v (length addresses) (length addresses) 0 k sent
      | _ \<Rightarrow> \<exists>n c f. tells sent0 T v n c f k sent)"
proof -
  have jobs: "triple (tells sent0 T v 0 0 0) (buildDashboardJobs (dash_node N) H opts keys addresses data)
      (\<lambda>r k sent. (case r of Done x \<Rightarrow> length (fst x) = length addresses | _ \<Rightarrow> True) \<and> tells sent0 T v 0 0 0 k sent)"
    unfolding triple_def
    by (auto dest: length_buildDashboardJobs calls.stableD [OF calls.stable_buildDashboardJobs [OF dash_calls.calm_dash_node]] split: outcome.split)
  show ?thesis
    unfolding submit_calls_def
    by (rule triple_andThen [OF jobs], simp only: outcome.case, rule triple_if, rule triple_deferring,
        rule triple_weaken [OF dash_submit_jobs_triple]) (auto split: outcome.splits)
qed

text \<open>After a part of the workflow: all announced calls confirmed when it succeeds, and in any case consistent counts.\<close>

definition told :: "(client \<times> signed_tx) list \<Rightarrow> unit outcome \<Rightarrow> string \<times> dashboardL1State \<Rightarrow> (client \<times> signed_tx) list \<Rightarrow> bool" where
  "told sent0 r k sent = (case r of
     Done _ \<Rightarrow> (\<exists>n v. tells sent0 (int n) v n n 0 k sent)
   | _ \<Rightarrow> (\<exists>T v n c f. tells sent0 T v n c f k sent))"

lemma toldI: "tells sent0 (int n) v n n 0 k sent \<Longrightarrow> told sent0 r k sent"
  by (cases r; simp add: told_def; blast)

lemma told_failed: "tells sent0 T v n c f k sent \<Longrightarrow> r \<noteq> Done () \<Longrightarrow> told sent0 r k sent"
  by (cases r; simp add: told_def; blast)

lemma submitBundle_triple:
  "triple (tells sent0 0 0 0 0 0) (submitBundleWithProgress N H arrival opts path keys addresses) (told sent0)"
proof -
  have calls: "triple (tells sent0 0 0 0 0 0) (andThen (run_op N H (Op_configure mode (int (length addresses)) v)) (\<lambda>_.
      andThen (logging N H ''info'' message) (\<lambda>_. submit_calls N H arrival opts keys addresses data v))) (told sent0)"
    for mode v message data
    by (rule triple_op_then [where P' = "tells sent0 (int (length addresses)) v 0 0 0"], erule tells_configure,
        rule triple_plain_then, simp, rule triple_weaken [OF submit_calls_triple])
      (auto intro: toldI told_failed split: outcome.splits)
  have fails: "triple (tells sent0 0 0 0 0 0) (failing e) (told sent0)" for e
    by (auto simp: triple_def intro: told_failed)
  show ?thesis
    unfolding submitBundleWithProgress_def
    by (rule triple_first) (auto intro: calls fails told_failed split: option.split)
qed

lemma workflow_triple: "triple (tells sent0 0 0 0 0 0) (runDashboardWorkflow N M H arrival opts) (told sent0)"
proof -
  have start: "tells sent0 0 0 0 0 0 k t \<Longrightarrow> told sent0 r k t" for r k t
    using toldI [of sent0 0 0] by simp
  have skip: "triple (tells sent0 0 0 0 0 0) (logging N H ''info'' message) (told sent0)" for message
    by (rule triple_plain) (simp_all add: start)
  have generate: "calls.stable (if do_SkipGenerate opts then load_existing N H path
      else andThen (calling (on_world f)) (\<lambda>_. andThen (logging N H ''info'' message) (\<lambda>_. generateBundleWithProgress N M H opts path)))"
    for path message and f :: "'a \<Rightarrow> (string + unit) \<times> 'a"
    by auto
  show ?thesis
    unfolding runDashboardWorkflow_def Let_def
    by (rule triple_first [OF generate], rule triple_plain_then, simp, rule triple_first)
      (auto intro: skip submitBundle_triple start)
qed

section \<open>The dashboard tells the truth\<close>

definition fresh_session :: "host \<Rightarrow> 'w \<Rightarrow> int \<Rightarrow> string \<Rightarrow> client list \<Rightarrow> (client \<times> signed_tx) list \<Rightarrow> ('w \<times> dashboardState) session" where
  "fresh_session H w t0 title cs sent = \<lparr> ss_world = (w, newDashboardState H t0 title), ss_clients = cs, ss_stdout = [], ss_sent = sent \<rparr>"

lemma fresh_tells:
  "tells sent 0 0 0 0 0 (calls_of (snd (ss_world (fresh_session H w t0 title cs sent)))) (ss_sent (fresh_session H w t0 title cs sent))"
  by (simp add: fresh_session_def tells_def calls_of_def clone_def newDashboardState_def zero_l1_state_def wrap64_def)

lemma worker_ends:
  assumes "dashboard_worker N M H arrival opts s = Some (r, s')"
  obtains q s1 where "runDashboardWorkflow N M H arrival opts s = Some (q, s1)"
    "q = Panic \<longleftrightarrow> r = Panic" "ss_sent s' = ss_sent s1"
    "\<And>x. q = Done x \<Longrightarrow> \<exists>t u t' u'. snd (ss_world s') = log_line H t u ''info'' ''workflow completed'' (setDone H t' (snd (ss_world s1)))"
    "\<And>e. q = Failed e \<Longrightarrow> \<exists>t u t'. snd (ss_world s') = setError H t' t u (Some e) (snd (ss_world s1))"
proof -
  obtain q s1 where q: "runDashboardWorkflow N M H arrival opts s = Some (q, s1)"
    using assms by (auto simp: dashboard_worker_def andThen_Done attempt_def)
  show ?thesis
  proof (cases q)
    case (Done x)
    then obtain s2 where "run_op N H Op_done s1 = Some (Done (), s2)" "logging N H ''info'' ''workflow completed'' s2 = Some (r, s')"
      using assms q unfolding dashboard_worker_def by (auto simp: andThen_Done attempt_def dest: run_op_result)
    then show ?thesis using that [OF q] Done by (fastforce dest!: run_op_result)
  next
    case (Failed e)
    then obtain s2 where "run_op N H (Op_failed e) s1 = Some (Done (), s2)" "logging N H ''error'' e s2 = Some (r, s')"
      using assms q unfolding dashboard_worker_def by (auto simp: andThen_Done attempt_def dest: run_op_result)
    then show ?thesis using that [OF q] Failed by (fastforce simp: setError_def dest!: run_op_result)
  next
    case Panic
    then show ?thesis
      using assms that [OF q] q unfolding dashboard_worker_def by (auto simp: andThen_Done attempt_def)
  qed
qed

text \<open>What the dashboard says at the end, against what the node took since the beginning.\<close>

definition tells_truth :: "(client \<times> signed_tx) list \<Rightarrow> ('w \<times> dashboardState) session \<Rightarrow> bool" where
  "tells_truth sent s' \<longleftrightarrow> (let d = clone (snd (ss_world s')); l = sn_L1 d; n = length (ss_sent s') - length sent in
     sn_Done d \<and> take (length sent) (ss_sent s') = sent \<and> dl1_SentCalls l = wrap64 (int n)
     \<and> (if sn_Phase d = ''completed''
        then dl1_TotalCalls l = int n \<and> dl1_ConfirmedCalls l = wrap64 (int n) \<and> dl1_FailedCalls l = 0
           \<and> dl1_VerifiedTxConfirmed l = of_nat n * dl1_VerifiedTxPerCall l
        else sn_Phase d = ''failed''))"

lemma worker_tells_truth:
  assumes run: "dashboard_worker N M H arrival opts s = Some (r, s')" and "r \<noteq> Panic"
    and fresh: "tells sent 0 0 0 0 0 (calls_of (snd (ss_world s))) (ss_sent s)"
  shows "tells_truth sent s'"
proof -
  obtain q s1 where q: "runDashboardWorkflow N M H arrival opts s = Some (q, s1)"
    "q = Panic \<longleftrightarrow> r = Panic" "ss_sent s' = ss_sent s1"
    and ends: "\<And>x. q = Done x \<Longrightarrow> \<exists>t u t' u'. snd (ss_world s') = log_line H t u ''info'' ''workflow completed'' (setDone H t' (snd (ss_world s1)))"
    and failed: "\<And>e. q = Failed e \<Longrightarrow> \<exists>t u t'. snd (ss_world s') = setError H t' t u (Some e) (snd (ss_world s1))"
    using worker_ends [OF run] by metis
  have told: "told sent q (calls_of (snd (ss_world s1))) (ss_sent s1)"
    by (rule tripleD [OF workflow_triple fresh q(1)])
  have wrap0: "wrap64 0 = 0" by (simp add: wrap64_def)
  show ?thesis
  proof (cases q)
    case (Done x)
    obtain n v where "tells sent (int n) v n n 0 (calls_of (snd (ss_world s1))) (ss_sent s1)"
      using told Done by (auto simp: told_def)
    then show ?thesis
      using ends [OF Done] q(3)
      by (auto simp: tells_truth_def tells_def calls_of_def clone_def log_line_def setDone_def wrap0 Let_def)
  next
    case (Failed e)
    obtain T v n c f where "tells sent T v n c f (calls_of (snd (ss_world s1))) (ss_sent s1)"
      using told Failed by (auto simp: told_def)
    then show ?thesis
      using failed [OF Failed] q(3)
      by (auto simp: tells_truth_def tells_def calls_of_def clone_def log_line_def setError_def mark_failed_def Let_def)
  next
    case Panic
    then show ?thesis using q(2) assms(2) by simp
  qed
qed

lemma logging_calls:
  "logging N H level message s = Some (r, s') \<Longrightarrow>
     r = Done () \<and> ss_sent s' = ss_sent s \<and> calls_of (snd (ss_world s')) = calls_of (snd (ss_world s))"
  by (auto dest!: run_op_result simp: calls_of_def clone_def log_line_def)

lemma runDashboard_worker:
  assumes "runDashboard N M H arrival listen opts s = Some (r, s')"
  obtains s1 where "dashboard_worker N M H arrival opts s1 = Some (r, s')" "ss_sent s1 = ss_sent s"
    "calls_of (snd (ss_world s1)) = calls_of (snd (ss_world s))"
  using assms by (auto simp: runDashboard_def andThen_def split: option.splits outcome.splits dest!: logging_calls)


end
