(* ===== verification/Dashboard_Generate.thy ===== *)
theory Dashboard_Generate imports Dashboard_Workflow begin

text \<open>
  The bundle the dashboard generates: what is written is what a later step of the workflow loads.
\<close>

section \<open>The written bundle is the loaded one\<close>

text \<open>A file that was written is read back, and reading the clock changes no file.\<close>

definition keeps_files :: "'w node \<Rightarrow> 'w machine \<Rightarrow> bool" where
  "keeps_files N M \<longleftrightarrow> (\<forall>path text w w'. WriteFile M path text w = (Inr (), w') \<longrightarrow> fst (ReadFile N path w') = Inr text)
     \<and> (\<forall>path w. fst (ReadFile N path (snd (Now N w))) = fst (ReadFile N path w))"

definition holds_file :: "'w node \<Rightarrow> string \<Rightarrow> string \<Rightarrow> ('w \<times> dashboardState) session \<Rightarrow> bool" where
  "holds_file N path content s \<longleftrightarrow> fst (ReadFile N path (fst (ss_world s))) = Inr content"

lemma holds_run_op:
  assumes "keeps_files N M" "holds_file N path content s" "run_op N H op s = Some (r, s')"
  shows "holds_file N path content s'"
proof -
  obtain w d where w: "ss_world s = (w, d)" by (cases "ss_world s")
  obtain t w1 where t: "(if reads_first op then Now N w else (zero_time, w)) = (t, w1)" by fastforce
  obtain u w2 where u: "Now N w1 = (u, w2)" by fastforce
  have "fst (ReadFile N path w1) = Inr content"
    using assms(1,2) t unfolding holds_file_def w keeps_files_def by (cases "reads_first op") (auto, metis snd_conv)
  then have "fst (ReadFile N path w2) = Inr content"
    using assms(1) u unfolding keeps_files_def by (metis snd_conv)
  then show ?thesis
    using assms(3) by (auto simp: run_op_def calling_def perform_def w t u Let_def holds_file_def)
qed

lemma holds_write:
  assumes "keeps_files N M" "write_file M path content s = Some (Done x, s')"
  shows "holds_file N path content s'"
proof -
  obtain w d where w: "ss_world s = (w, d)" by (cases "ss_world s")
  obtain r w1 where r: "WriteFile M path content w = (r, w1)" by fastforce
  then have "r = Inr ()" "ss_world s' = (w1, d)"
    using assms(2) by (auto simp: write_file_def calling_def perform_def on_world_def w split: sum.splits)
  then show ?thesis using assms(1) r by (simp add: holds_file_def keeps_files_def)
qed

lemma holds_load:
  assumes "holds_file N path (MarshalIndent (json_bundle b)) s"
  shows "\<exists>s'. load_bundle (dash_node N) path s = Some (Done b, s')"
proof -
  obtain w d where w: "ss_world s = (w, d)" by (cases "ss_world s")
  obtain w1 where "ReadFile N path w = (Inr (MarshalIndent (json_bundle b)), w1)"
    using assms by (metis holds_file_def w fst_conv prod.collapse)
  then show ?thesis
    using Unmarshal_bundle_back [of "[]" b]
    by (simp add: load_bundle_def andThen_def calling_def perform_def dash_node_def on_world_def w lift_def loadBundle_def skip_space_def)
qed

lemma lift_Done [simp]: "lift r s = Some (Done x, s') \<longleftrightarrow> r = Inr x \<and> s' = s"
  by (auto simp: lift_def split: sum.split)

lemma lift_panic_Done [simp]: "lift_panic r s = Some (Done x, s') \<longleftrightarrow> r = Some x \<and> s' = s"
  by (auto simp: lift_panic_def split: option.split)

lemma attempt_Done:
  assumes "attempt m s = Some (Done (Inr x), s')" shows "m s = Some (Done x, s')"
proof -
  obtain r where "m s = Some (r, s')" using assms by (auto simp: attempt_def)
  then show ?thesis using assms by (cases r) (auto simp: attempt_def)
qed

lemma wrapping_Done:
  assumes "wrapping p m s = Some (Done x, s')" shows "m s = Some (Done x, s')"
proof -
  obtain y s1 where y: "attempt m s = Some (Done y, s1)" "(case y of Inl e \<Rightarrow> failing (p @ e) | Inr x \<Rightarrow> ret x) s1 = Some (Done x, s')"
    using assms by (auto simp: wrapping_def andThen_Done)
  then show ?thesis by (cases y) (auto dest: attempt_Done)
qed

text \<open>C21. In live and replay mode: the bundle that the exporter printed and the one that was replayed were merged, the result was
  written to the path, and loading the path gives that bundle, with its first lanes from the live and the others from the
  replayed one.\<close>

theorem generated_bundle_loads:
  assumes files: "keeps_files N M"
    and counts: "0 < do_LiveLaneCount opts" "do_LiveLaneCount opts < do_LaneCount opts"
    and run: "generateBundleWithProgress N M H opts path s = Some (Done (), s')"
  shows "\<exists>liveText live replayText replay merged. (\<exists>w. fst (WaitExporter M w) = Inr liveText)
    \<and> Unmarshal_bundle liveText = Some live
    \<and> (\<exists>w. fst (ReadFile N (do_ReplayBundlePath opts) w) = Inr replayText) \<and> Unmarshal_bundle replayText = Some replay
    \<and> (\<exists>s''. load_bundle (dash_node N) path s' = Some (Done merged, s''))
    \<and> length (bundle_source merged) = nat (do_LaneCount opts)
    \<and> (\<forall>i < nat (do_LaneCount opts). bundle_source merged ! i
         = (if i < nat (do_LiveLaneCount opts) then bundle_source live ! i else bundle_source replay ! i))"
proof -
  let ?k = "do_LiveLaneCount opts" and ?n = "do_LaneCount opts"
  have k: "live_lanes opts = ?k" "?k \<noteq> ?n" using counts by (auto simp: live_lanes_def)
  obtain sa sb sc sd se sf ma liveText live replay result merged where
    exporter: "runExporterWithProgress N M H opts ?k sa = Some (Done liveText, sb)"
    and live: "Unmarshal_bundle liveText = Some live"
    and replay: "wrapping ''load replay bundle: '' (load_bundle (dash_node N) (do_ReplayBundlePath opts)) sb = Some (Done replay, sc)"
    and merged: "mergeBundles live replay ?k ?n = Some (Inr merged)"
    and written: "write_file M path (MarshalIndent (json_bundle merged)) sc = Some (Done (), sd)"
    and rest: "andThen (run_op N H (Op_merged ?n (?n - ?k) (do_BatchSize opts))) (\<lambda>_. andThen (run_op N H (Op_bundle path)) (\<lambda>_.
      andThen (logging N H ''info'' (''loaded '' @ dec_int (?n - ?k) @ '' replay proofs from '' @ do_ReplayBundlePath opts)) (\<lambda>_.
        logging N H ''info'' (''bundle written: '' @ path)))) sd = Some (Done (), s')"
    using run k unfolding generateBundleWithProgress_def Let_def
    by (simp add: andThen_Done) (force split: option.splits)
  have "holds_file N path (MarshalIndent (json_bundle merged)) s'"
    using rest holds_write [OF files written] unfolding andThen_Done
    by (elim disjE exE conjE) (drule (1) holds_run_op [OF files] | simp)+
  then have "\<exists>s''. load_bundle (dash_node N) path s' = Some (Done merged, s'')" by (rule holds_load)
  moreover have "\<exists>w. fst (WaitExporter M w) = Inr liveText"
    using exporter by (auto simp: runExporterWithProgress_def andThen_Done calling_def perform_def on_world_def
        split: prod.splits sum.splits) (metis fst_conv)
  moreover have "\<exists>replayText. (\<exists>w. fst (ReadFile N (do_ReplayBundlePath opts) w) = Inr replayText)
      \<and> Unmarshal_bundle replayText = Some replay"
    using wrapping_Done [OF replay]
    by (auto simp: load_bundle_def andThen_Done calling_def perform_def dash_node_def on_world_def loadBundle_def
        split: prod.splits sum.splits option.splits) (metis fst_conv)
  moreover have "length (bundle_source merged) = nat ?n"
      "\<forall>i < nat ?n. bundle_source merged ! i = (if i < nat ?k then bundle_source live ! i else bundle_source replay ! i)"
    using merge_sources [OF merged] counts by auto
  ultimately show ?thesis using live by blast
qed

text \<open>A file system as the world, with an exporter that prints a bundle of one lane and a stored bundle of two lanes.\<close>

definition lanes_bundle :: "nat \<Rightarrow> jsonBundle" where
  "lanes_bundle n = zero_bundle\<lparr> jb_LaneHeads := replicate n zero_head, jb_VerifyBatchesInput := replicate n zero_artifact \<rparr>"

definition file_node :: "(string \<Rightarrow> string + string) node" where
  "file_node = \<lparr> Dial = (\<lambda>url w. (Inr 0, w)), ChainID = (\<lambda>c ctx w. (Inr 1, w)), NetworkID = (\<lambda>c ctx w. (Inr 1, w)),
     SuggestGasPrice = (\<lambda>c ctx w. (Inr 1, w)), HeaderByNumber = (\<lambda>c ctx n w. (Inl ''not found'', w)),
     BalanceAt = (\<lambda>c ctx a w. (Inr 0, w)), NonceAt = (\<lambda>c ctx a w. (Inr 0, w)),
     PendingNonceAt = (\<lambda>c ctx a w. (Inr 0, w)), CodeAt = (\<lambda>c ctx a w. (Inr [], w)),
     EstimateGas = (\<lambda>c ctx m w. (Inr 21000, w)), SendTransaction = (\<lambda>c ctx t w. (Inr (), w)),
     TransactionReceipt = (\<lambda>c ctx h w. (Inl ''not found'', w)), CallContract = (\<lambda>c ctx m w. (Inr [], w)),
     Now = (\<lambda>w. (0, w)), Wait = (\<lambda>ctx t n w. (Inr (), w)), ReadFile = (\<lambda>path w. (w path, w)), GenerateKey = (\<lambda>w. (Inr [], w)) \<rparr>"

definition file_machine :: "(string \<Rightarrow> string + string) machine" where
  "file_machine = \<lparr> Dir = (\<lambda>path. path), MkdirAll = (\<lambda>path w. (Inr (), w)), WriteFile = (\<lambda>path content w. (Inr (), w(path := Inr content))),
     StartExporter = (\<lambda>args w. (Inr (), w)), ScanLine = (\<lambda>w. (None, w)), ScanErr = (\<lambda>w. (None, w)),
     WaitExporter = (\<lambda>w. (Inr (MarshalIndent (json_bundle (lanes_bundle 1))), w)) \<rparr>"

definition demo_options :: dashboardOptions where
  "demo_options = \<lparr> do_ManifestPath = [], do_BundlePath = ''out'', do_SkipGenerate = False, do_BatchSize = 4, do_LaneCount = 2,
     do_LiveLaneCount = 1, do_ReplayBundlePath = ''replay'', do_BatchIDBase = 1, do_Seed = 7, do_RPCURL = [],
     do_PrivateKeysText = [], do_GasPriceHex = [], do_CertifierAddresses = [], do_ArtifactsDir = [], do_Confirmations = 1 \<rparr>"

definition demo_files :: "string \<Rightarrow> string + string" where
  "demo_files = (\<lambda>path. if path = ''replay'' then Inr (MarshalIndent (json_bundle (lanes_bundle 2))) else Inl ''no such file'')"

lemma demo_node_fields [simp]:
  "Now file_node w = (0, w)" "ReadFile file_node path w = (w path, w)"
  "StartExporter file_machine args w = (Inr (), w)" "ScanLine file_machine w = (None, w)" "ScanErr file_machine w = (None, w)"
  "WaitExporter file_machine w = (Inr (MarshalIndent (json_bundle (lanes_bundle 1))), w)"
  "WriteFile file_machine path content w = (Inr (), w(path := Inr content))"
  by (simp_all add: file_node_def file_machine_def)

lemma file_run_op: "run_op file_node H op s = Some (Done (), s\<lparr> ss_world := (fst (ss_world s),
    apply_op H (if reads_first op then 0 else zero_time, 0, op) (snd (ss_world s))) \<rparr>)"
  by (cases "ss_world s") (simp add: run_op_def calling_def perform_def)

lemma file_exporter: "runExporterWithProgress file_node file_machine H opts n s
    = Some (Done (MarshalIndent (json_bundle (lanes_bundle 1))), s)"
  by (cases "ss_world s")
    (simp add: runExporterWithProgress_def andThen_def calling_def perform_def on_world_def scan_lines.simps)

lemma Unmarshal_printed: "Unmarshal_bundle (MarshalIndent (json_bundle b)) = Some b"
  using Unmarshal_bundle_back [of "[]" b] by (simp add: skip_space_def)

theorem generated_bundle_loads_witness:
  "\<forall>H. \<exists>s' merged s''. generateBundleWithProgress file_node file_machine H demo_options ''out''
       \<lparr> ss_world = (demo_files, newDashboardState H 0 []), ss_clients = [], ss_stdout = [], ss_sent = [] \<rparr> = Some (Done (), s')
     \<and> load_bundle (dash_node file_node) ''out'' s' = Some (Done merged, s'') \<and> length (bundle_source merged) = 2"
  (is "\<forall>H. ?P H")
proof
  fix H :: host
  let ?s = "\<lparr> ss_world = (demo_files, newDashboardState H 0 []), ss_clients = [], ss_stdout = [], ss_sent = [] \<rparr>"
  have files: "keeps_files file_node file_machine" by (auto simp: keeps_files_def)
  obtain merged where m: "mergeBundles (lanes_bundle 1) (lanes_bundle 2) 1 2 = Some (Inr merged)"
    by (simp add: mergeBundles_def Let_def slice_ok_def bundle_source_def lanes_bundle_def)
  have load: "load_bundle (dash_node file_node) ''replay'' s = Some (Done (lanes_bundle 2), s)"
    if "fst (ss_world s) = demo_files" for s :: "((string \<Rightarrow> string + string) \<times> dashboardState) session"
    using that by (cases "ss_world s") (simp add: load_bundle_def andThen_def calling_def perform_def dash_node_def on_world_def
        lift_def loadBundle_def demo_files_def Unmarshal_printed)
  obtain s' where run: "generateBundleWithProgress file_node file_machine H demo_options ''out'' ?s = Some (Done (), s')"
    by (simp add: generateBundleWithProgress_def Let_def demo_options_def live_lanes_def andThen_def file_run_op file_exporter
        wrapping_def attempt_def load Unmarshal_printed m [simplified] lift_def lift_panic_def write_file_def calling_def perform_def on_world_def
        del: apply_op.simps)
  show "?P H"
    using generated_bundle_loads [OF files _ _ run] run by (fastforce simp: demo_options_def)
qed

end
