(* ===== verification/Dashboard_Demo.thy ===== *)
theory Dashboard_Demo imports Dashboard_Run Dashboard_Generate begin

text \<open>
  A run of the dashboard's workflow that completes: one key and one address, a stored bundle with one artifact, and a node that
  confirms at once.  It shows that what \<^verbatim>\<open>Dashboard_Run\<close> says of completed runs is not said of nothing.
\<close>

definition demo_artifact :: batchTransitionArtifact where
  "demo_artifact = \<lparr> ba_LaneId = 0, ba_BatchId = 1, ba_TxCount = 4, ba_PrevStateCommitment = \<lparr> g1_X = 1, g1_Y = 2 \<rparr>,
     ba_NextStateCommitment = \<lparr> g1_X = 3, g1_Y = 4 \<rparr>, ba_Proof = \<lparr> bp_A = \<lparr> g1_X = 1, g1_Y = 2 \<rparr>,
     bp_B = \<lparr> g2_X = (1, 2), g2_Y = (3, 4) \<rparr>, bp_C = \<lparr> g1_X = 1, g1_Y = 2 \<rparr>, bp_D = \<lparr> g1_X = 1, g1_Y = 2 \<rparr> \<rparr> \<rparr>"

definition demo_bundle :: jsonBundle where
  "demo_bundle = zero_bundle\<lparr> jb_VerifyBatchesInput := [show_artifact demo_artifact], jb_VerifiedTxTotal := 4 \<rparr>"

definition demo_node :: "int node" where
  "demo_node = ready_node\<lparr> ReadFile := (\<lambda>path w. (Inr (if path = ''b'' then MarshalIndent (json_bundle demo_bundle) else []), w)) \<rparr>"

definition demo_machine :: "int machine" where
  "demo_machine = \<lparr> Dir = (\<lambda>path. path), MkdirAll = (\<lambda>path w. (Inr (), w)), WriteFile = (\<lambda>path content w. (Inr (), w)),
     StartExporter = (\<lambda>args w. (Inr (), w)), ScanLine = (\<lambda>w. (None, w)), ScanErr = (\<lambda>w. (None, w)), WaitExporter = (\<lambda>w. (Inr [], w)) \<rparr>"

definition one_call_options :: dashboardOptions where
  "one_call_options = \<lparr> do_ManifestPath = [], do_BundlePath = ''b'', do_SkipGenerate = True, do_BatchSize = 4, do_LaneCount = 1,
     do_LiveLaneCount = 0, do_ReplayBundlePath = [], do_BatchIDBase = 1, do_Seed = 7, do_RPCURL = [],
     do_PrivateKeysText = ''k'', do_GasPriceHex = ''7'', do_CertifierAddresses = ''a'', do_ArtifactsDir = ''d'', do_Confirmations = 1 \<rparr>"

lemma demo_fields [simp]:
  "Now demo_node = (\<lambda>w. (w, w))"
  "ReadFile demo_node path = (\<lambda>w. (Inr (if path = ''b'' then MarshalIndent (json_bundle demo_bundle) else []), w))"
  "Dial demo_node url = (\<lambda>w. (Inr 0, w))" "ChainID demo_node c ctx = (\<lambda>w. (Inr 1, w))"
  "PendingNonceAt demo_node c ctx a = (\<lambda>w. (Inr 0, w))" "EstimateGas demo_node c ctx msg = (\<lambda>w. (Inr 21000, w))"
  "SendTransaction demo_node c ctx tx = (\<lambda>w. (Inr (), w))"
  "TransactionReceipt demo_node c ctx h
     = (\<lambda>w. (Inr \<lparr> rc_Status = 1, rc_BlockNumber = Some 7, rc_GasUsed = 21000, rc_ContractAddress = [] \<rparr>, w))"
  "HeaderByNumber demo_node c ctx n = (\<lambda>w. (Inr \<lparr> hd_Number = 9, hd_Time = 100, hd_BaseFee = None \<rparr>, w))"
  by (simp_all add: demo_node_def ready_node_def silent_node_def fun_eq_iff)

lemma demo_call [simp]: "calling (on_world (\<lambda>w. (x, w))) s = Some (case x of Inl e \<Rightarrow> Failed e | Inr y \<Rightarrow> Done y, s)"
  by (cases "ss_world s") (simp add: calling_def perform_def on_world_def)

lemma demo_now [simp]: "now (dash_node demo_node) s = Some (Done (fst (ss_world s)), s)"
  by (cases "ss_world s") (simp add: now_def calling_def perform_def on_world_def dash_node_def)

lemma demo_run_op: "run_op demo_node H op s = Some (Done (), s\<lparr> ss_world := (fst (ss_world s),
    apply_op H (if reads_first op then fst (ss_world s) else zero_time, fst (ss_world s), op) (snd (ss_world s))) \<rparr>)"
  by (cases "ss_world s") (simp add: run_op_def calling_def perform_def)

lemma demo_load [simp]:
  "load_bundle (dash_node demo_node) ''b'' s = Some (Done demo_bundle, s)"
  "loadContractArtifact (dash_node demo_node) plain_host ''d'' name s = Some (Done ([], []), s)"
  "artifacts_of demo_bundle s = Some (Done ([demo_artifact], 4), s)"
proof -
  show "load_bundle (dash_node demo_node) ''b'' s = Some (Done demo_bundle, s)"
    by (simp add: load_bundle_def andThen_def dash_node_def lift_def loadBundle_def Unmarshal_printed)
  show "loadContractArtifact (dash_node demo_node) plain_host ''d'' name s = Some (Done ([], []), s)"
    by (simp add: loadContractArtifact_def andThen_def dash_node_def lift_def plain_host_def TrimSpace_def)
  show "artifacts_of demo_bundle s = Some (Done ([demo_artifact], 4), s)"
    using convert_artifacts_show [of "[demo_artifact]"]
    by (simp add: artifacts_of_def toArtifacts_def andThen_def lift_def lift_panic_def demo_bundle_def bundle_source_def zero_bundle_def)
qed

lemma demo_sender: "newSender (dash_node demo_node) plain_host [] ''k'' ''7'' 1 s = Some (Done \<lparr> sd_client = 0, sd_privateKey = [107],
    sd_from = [107], sd_chainID = 1, sd_gasPrice = 7, sd_gasLimit = 0, sd_confirmations = 1 \<rparr>, s\<lparr> ss_clients := 0 # ss_clients s \<rparr>)"
proof -
  have q: "parseBigInt ''7'' = Inr (Some 7)"
    by (simp add: parseBigInt_def TrimSpace_def text_space_def HasPrefix_def SetString_def digit_of_def Let_def)
  have e: "envOrInt (Getenv plain_host) k 0 = 0" for k by (simp add: envOrInt_def plain_host_def TrimSpace_def)
  show ?thesis
    by (simp add: newSender_def connect_def andThen_def WithTimeout_def on_failure_def dash_node_def lift_def texting_def q e
        TrimPrefix_def HasPrefix_def calling_def perform_def on_world_def now_def split: prod.split)
qed

lemma dash_fields [simp]:
  "PendingNonceAt (dash_node N) c ctx a = on_world (PendingNonceAt N c ctx a)"
  "EstimateGas (dash_node N) c ctx msg = on_world (EstimateGas N c ctx msg)"
  "SendTransaction (dash_node N) c ctx tx = on_world (SendTransaction N c ctx tx)"
  "TransactionReceipt (dash_node N) c ctx h = on_world (TransactionReceipt N c ctx h)"
  "HeaderByNumber (dash_node N) c ctx n = on_world (HeaderByNumber N c ctx n)"
  by (simp_all add: dash_node_def)

lemma demo_perform [simp]: "perform (on_world (\<lambda>w. (x, w))) s = ((case x of Inl e \<Rightarrow> Failed e | Inr y \<Rightarrow> Done y), s)"
  by (cases "ss_world s") (simp add: perform_def on_world_def)

definition demo_tx :: signed_tx where
  "demo_tx = \<lparr> st_tx = \<lparr> tx_Nonce = 0, tx_To = Some [97], tx_Value = 0, tx_Gas = 21000 * 12 div 10 + 25000, tx_GasPrice = 7,
     tx_Data = [] \<rparr>, st_signature = [107] \<rparr>"

lemma demo_jobs: "buildDashboardJobs (dash_node demo_node) plain_host one_call_options [''k''] [[97]] [] s
    = Some (Done ([dash_job \<lparr> sd_client = 0, sd_privateKey = [107], sd_from = [107], sd_chainID = 1, sd_gasPrice = 7, sd_gasLimit = 0,
        sd_confirmations = 1 \<rparr> [97] (demo_tx, 21000 * 12 div 10 + 25000)], [0]), s\<lparr> ss_clients := 0 # ss_clients s \<rparr>)"
  by (simp add: buildDashboardJobs_def one_call_options_def andThen_def demo_sender same_sender_jobs_def on_failure_def
      buildSignedTransaction_def buildSignedTransactionValue_def lift_def demo_tx_def)

lemma demo_submit:
  assumes "sd_client (dj_sender job) = 0" "sd_confirmations (dj_sender job) = 1" "dj_tx job = demo_tx"
  shows "\<exists>s'. dash_submit_jobs demo_node plain_host arrival v [job] s = Some (Done (), s') \<and> ss_sent s' = ss_sent s @ [(0, demo_tx)]"
proof -
  have started: "started_at s = Some (Done (da_startedAt (snd (ss_world s))), s)" for s :: "(int \<times> dashboardState) session"
    by (cases "ss_world s") (simp add: started_at_def calling_def perform_def)
  show ?thesis
    using assms
    by (simp add: dash_submit_jobs_def dash_send_def andThen_def demo_run_op send_def Let_def started
      dash_receipt_def checked_receipt_def waitForReceipt_def await_receipt.simps ReceiptStatusSuccessful_def attempt_def
      dash_log_result_def del: apply_op.simps)
qed

lemma demo_texts:
  "parseCSV ''k'' = [''k'']" "parseAddressList (IsHexAddress plain_host) (HexToAddress plain_host) ''a'' = Inr [[97]]"
  by (simp_all add: plain_host_def parseAddressList_def parseCSV_def TrimSpace_def text_space_def)

lemma demo_pack: "Pack plain_host abiObj name args = Inr []"
  by (simp add: plain_host_def)

lemma demo_bundle_call: "bundle_call (dash_node demo_node) plain_host ((sender_flags one_call_options)\<lparr> fl_bundlePath := ''b'' \<rparr>) s
    = Some (Done ([], 4), s)"
  by (simp add: bundle_call_def sender_flags_def one_call_options_def andThen_def lift_def demo_pack)

text \<open>The workflow succeeds after sending one transaction, and the dashboard ends as completed.\<close>

lemma one_call_worker:
  "\<exists>s'. dashboard_worker demo_node demo_machine plain_host arrival one_call_options s = Some (Done (), s')
     \<and> ss_sent s' = ss_sent s @ [(0, demo_tx)]"
proof -
  have load: "\<exists>s'. load_existing demo_node plain_host ''b'' s = Some (Done (), s') \<and> ss_sent s' = ss_sent s" for s
    by (simp add: load_existing_def andThen_def demo_run_op del: apply_op.simps)
  have submit: "\<exists>s'. submitBundleWithProgress demo_node plain_host arrival one_call_options ''b'' [''k''] [[97]] s = Some (Done (), s')
      \<and> ss_sent s' = ss_sent s @ [(0, demo_tx)]" for s
  proof -
    have "\<exists>s'. submit_calls demo_node plain_host arrival one_call_options [''k''] [[97]] [] 4 s = Some (Done (), s')
        \<and> ss_sent s' = ss_sent s @ [(0, demo_tx)]" for s
      using demo_submit [of "dash_job \<lparr> sd_client = 0, sd_privateKey = [107], sd_from = [107], sd_chainID = 1, sd_gasPrice = 7,
          sd_gasLimit = 0, sd_confirmations = 1 \<rparr> [97] (demo_tx, 21000 * 12 div 10 + 25000)" arrival 4 "s\<lparr> ss_clients := 0 # ss_clients s \<rparr>"]
      by (auto simp: submit_calls_def andThen_def demo_jobs deferring_def dash_job_def)
    note calls = this
    show ?thesis
      by (simp add: submitBundleWithProgress_def andThen_def demo_bundle_call submission_mode_def demo_run_op del: apply_op.simps)
        (use calls in fastforce)
  qed
  obtain s2 where s2: "load_existing demo_node plain_host ''b'' s = Some (Done (), s2)"
      "ss_sent s2 = ss_sent s"
    using load [of s] by auto
  obtain s3 where s3: "run_op demo_node plain_host (Op_bundle ''b'') s2 = Some (Done (), s3)" "ss_sent s3 = ss_sent s"
    using s2(2) by (simp add: demo_run_op)
  obtain s1 where s1: "submitBundleWithProgress demo_node plain_host arrival one_call_options ''b'' [''k''] [[97]] s3 = Some (Done (), s1)"
      "ss_sent s1 = ss_sent s @ [(0, demo_tx)]"
    using submit [of s3] s3(2) by auto
  have "do_SkipGenerate one_call_options" "do_BundlePath one_call_options = ''b''" "do_PrivateKeysText one_call_options = ''k''"
      "do_CertifierAddresses one_call_options = ''a''"
    by (simp_all add: one_call_options_def)
  then have "runDashboardWorkflow demo_node demo_machine plain_host arrival one_call_options s = Some (Done (), s1)"
    by (simp add: runDashboardWorkflow_def Let_def andThen_def s2 s3 s1 demo_texts texting_def lift_def)
  then have "runDashboardWorkflow demo_node demo_machine plain_host arrival one_call_options s = Some (Done (), s1)" "ss_sent s1 = ss_sent s @ [(0, demo_tx)]"
    using s1(2) by simp_all
  then show ?thesis
    by (simp add: dashboard_worker_def andThen_def attempt_def demo_run_op del: apply_op.simps)
qed

lemma one_call_completes:
  "\<exists>s'. runDashboard demo_node demo_machine plain_host arrival listen one_call_options (fresh_session plain_host w t0 title cs sent)
      = Some (Done (), s') \<and> ss_sent s' = sent @ [(0, demo_tx)]"
proof -
  obtain s1 where s1: "logging demo_node plain_host ''info'' (''dashboard listening on http://127.0.0.1'' @ listen)
      (fresh_session plain_host w t0 title cs sent) = Some (Done (), s1)" "ss_sent s1 = sent"
    by (simp add: demo_run_op fresh_session_def)
  obtain s2 where s2: "logging demo_node plain_host ''info'' (''bundle path: '' @ do_BundlePath one_call_options) s1 = Some (Done (), s2)"
      "ss_sent s2 = sent"
    using s1(2) by (simp add: demo_run_op)
  have "runDashboard demo_node demo_machine plain_host arrival listen one_call_options (fresh_session plain_host w t0 title cs sent)
      = dashboard_worker demo_node demo_machine plain_host arrival one_call_options s2"
    by (simp only: runDashboard_def andThen_def s1(1) s2(1) option.case prod.case outcome.case)
  then show ?thesis using one_call_worker [where s = s2 and arrival = arrival] s2(2) by simp
qed

end
