(* ===== verification/Dashboard_Server.thy ===== *)
theory Dashboard_Server imports Dashboard_Workflow Metrics begin

text \<open>
  What the dashboard's HTTP server answers: the page, whose text is an argument, and \<^verbatim>\<open>/api/state\<close> with the snapshot as
  JSON.  \<^verbatim>\<open>json.Encoder\<close> writes a value without white space.  What is polled is the snapshot; but empty lists are
  sent as null.
\<close>

section \<open>The compact encoding\<close>

fun json_compact :: "json \<Rightarrow> string"
  and compact_elems :: "json list \<Rightarrow> string"
  and compact_fields :: "(string \<times> json) list \<Rightarrow> string" where
  "json_compact JNull = ''null''"
| "json_compact (JBool b) = FormatBool b"
| "json_compact (JNum s) = s"
| "json_compact (JStr s) = json_string s"
| "json_compact (JArr vs) = CHR ''['' # compact_elems vs @ '']''"
| "json_compact (JObj ms) = CHR ''{'' # compact_fields ms @ ''}''"
| "compact_elems [] = []"
| "compact_elems (v # vs) = json_compact v @ (if vs = [] then [] else CHR '','' # compact_elems vs)"
| "compact_fields [] = []"
| "compact_fields ((k, v) # ms) = json_string k @ CHR '':'' # json_compact v
     @ (if ms = [] then [] else CHR '','' # compact_fields ms)"

lemma compact_start:
  "plain_json v \<Longrightarrow> \<exists>c s. json_compact v = c # s \<and> \<not> json_space c \<and> c \<noteq> CHR '']'' \<and> c \<noteq> CHR ''}''"
proof (cases v)
  case (JNum s)
  assume "plain_json v"
  then show ?thesis using json_text_start [of v 0] by (simp add: JNum)
next
  case (JBool b)
  then show ?thesis by (cases b) (simp_all add: FormatBool_def json_space_def)
qed (simp_all add: json_string_def json_space_def)


lemma compact_open:
  "vs \<noteq> [] \<Longrightarrow> list_all plain_json vs \<Longrightarrow> expect (CHR '']'') (compact_elems vs @ rest) = None"
  "ms \<noteq> [] \<Longrightarrow> expect (CHR ''}'') (compact_fields ms @ rest) = None"
proof -
  show "vs \<noteq> [] \<Longrightarrow> list_all plain_json vs \<Longrightarrow> expect (CHR '']'') (compact_elems vs @ rest) = None"
    by (cases vs) (use compact_start in \<open>fastforce simp: expect_miss\<close>)+
  show "ms \<noteq> [] \<Longrightarrow> expect (CHR ''}'') (compact_fields ms @ rest) = None"
    by (cases ms) (auto simp: json_string_def expect_miss)
qed

lemma stops_brackets: "stops (CHR '']'' # s)" "stops (CHR ''}'' # s)" "stops (CHR 0x0A # s)"
  by (simp_all add: stops_def digit_def)

lemma parse_compact:
  "plain_json v \<Longrightarrow> fuel_json v \<le> n \<Longrightarrow> ((\<exists>s. v = JNum s) \<longrightarrow> stops rest)
    \<Longrightarrow> parse_value n (json_compact v @ rest) = Some (v, rest)"
  "list_all plain_json vs \<Longrightarrow> vs \<noteq> [] \<Longrightarrow> fuel_elems vs \<le> n
    \<Longrightarrow> parse_elements n (compact_elems vs @ CHR '']'' # rest) = Some (vs, rest)"
  "list_all plain_json (map snd ms) \<Longrightarrow> ms \<noteq> [] \<Longrightarrow> fuel_fields ms \<le> n
    \<Longrightarrow> parse_members n (compact_fields ms @ CHR ''}'' # rest) = Some (ms, rest)"
proof (induction v and vs and ms arbitrary: n rest and n rest and n rest rule: json_compact_compact_elems_compact_fields.induct)
  case 1 then show ?case by (cases n) (simp_all add: skip_space_def json_space_def)
next
  case (2 b) then show ?case by (cases n; cases b) (simp_all add: FormatBool_def skip_space_def json_space_def)
next
  case (3 s)
  then obtain i m where i: "s = dec_int i" "n = Suc m" by (cases n) auto
  have "stops rest" using 3 by blast
  then show ?case unfolding i json_compact.simps by (rule parse_dec_int)
next
  case (4 s) then show ?case
    by (cases n) (simp_all add: json_string_def skip_space_def json_space_def parse_string_escaped)
next
  case (5 vs)
  then obtain m where n: "n = Suc m" "fuel_elems vs \<le> m" by (cases n) auto
  show ?case
    using 5 n by (cases "vs = []") (simp_all add: skip_space_def json_space_def expect_def [of "CHR '']''" "CHR '']'' # _"] compact_open(1))
next
  case (6 ms)
  then obtain m where n: "n = Suc m" "fuel_fields ms \<le> m" by (cases n) auto
  show ?case
    using 6 n by (cases "ms = []") (simp_all add: skip_space_def json_space_def expect_def [of "CHR ''}''" "CHR ''}'' # _"] compact_open(2))
next
  case (8 v vs)
  then obtain m where n: "n = Suc m" "fuel_json v \<le> m" "fuel_elems vs \<le> m" by (cases n) auto
  show ?case
    using 8 n by (cases "vs = []") (simp_all add: expect_hit expect_miss stops_brackets)
next
  case (10 k v ms)
  then obtain m where n: "n = Suc m" "fuel_json v \<le> m" "fuel_fields ms \<le> m" by (cases n) auto
  show ?case
    using 10 n by (cases "ms = []") (simp_all add: json_string_def parse_key expect_hit expect_miss stops_brackets)
qed simp_all

lemma fuel_compact:
  "plain_json v \<Longrightarrow> fuel_json v \<le> length (json_compact v)"
  "list_all plain_json vs \<Longrightarrow> fuel_elems vs \<le> Suc (length (compact_elems vs))"
  "list_all plain_json (map snd ms) \<Longrightarrow> fuel_fields ms \<le> Suc (length (compact_fields ms))"
proof (induction v and vs and ms rule: json_compact_compact_elems_compact_fields.induct)
  case (2 b) then show ?case by (cases b) (simp_all add: FormatBool_def)
next
  case (3 s)
  then obtain i where "s = dec_int i" by auto
  then have "s \<noteq> []" using dec_nat_not_Nil by (simp add: dec_int_def)
  then show ?case by (simp add: Suc_le_eq)
next
  case (8 v vs)
  then show ?case by (cases "vs = []") auto
next
  case (10 k v ms)
  then show ?case by (cases "ms = []") (auto simp: json_string_def)
qed (auto simp: json_string_def)

lemma json_whole_compact:
  assumes "bracketed v" shows "json_whole (json_compact v @ newline) = Some v"
proof -
  have p: "plain_json v" "\<not> (\<exists>s. v = JNum s)" using assms by (cases v; simp add: bracketed_def)+
  have "fuel_json v \<le> Suc (length (json_compact v @ newline))"
    using fuel_compact(1) [OF p(1)] by simp
  then have "parse_value (Suc (length (json_compact v @ newline))) (json_compact v @ newline) = Some (v, newline)"
    using p by (intro parse_compact(1)) auto
  then show ?thesis by (simp only: json_whole_def) (simp add: newline_def skip_space_def json_space_def)
qed

section \<open>The snapshot as JSON\<close>

text \<open>Members that are left out when they are empty, and lists: a list without elements is a nil slice after \<^const>\<open>clone\<close>.\<close>

definition omit_text :: "string \<Rightarrow> string \<Rightarrow> (string \<times> json) list" where
  "omit_text name s = (if s = [] then [] else [(name, JStr s)])"

definition omit_word :: "string \<Rightarrow> u64 \<Rightarrow> (string \<times> json) list" where
  "omit_word name n = (if n = 0 then [] else [(name, json_word n)])"

definition omit_int :: "string \<Rightarrow> int \<Rightarrow> (string \<times> json) list" where
  "omit_int name i = (if i = 0 then [] else [(name, JNum (dec_int i))])"

definition json_copied :: "('a \<Rightarrow> json) \<Rightarrow> 'a list \<Rightarrow> json" where
  "json_copied f xs = (if xs = [] then JNull else JArr (map f xs))"

definition json_dashboardLog :: "dashboardLog \<Rightarrow> json" where
  "json_dashboardLog l = JObj [(''at'', JStr (dl_At l)), (''level'', JStr (dl_Level l)), (''message'', JStr (dl_Message l))]"

definition json_dashboardTxSummary :: "dashboardTxSummary \<Rightarrow> json" where
  "json_dashboardTxSummary t = JObj (omit_text ''sender_address'' (dt_SenderAddress t)
     @ omit_text ''contract_address'' (dt_ContractAddress t) @ omit_text ''transaction_hash'' (dt_TransactionHash t)
     @ omit_text ''block_number'' (dt_BlockNumber t) @ omit_text ''block_timestamp'' (dt_BlockTimestamp t)
     @ omit_word ''gas_used'' (dt_GasUsed t) @ omit_word ''gas_limit'' (dt_GasLimit t)
     @ omit_int ''block_inclusion_latency_ms'' (dt_BlockInclusionLatencyMS t)
     @ omit_int ''receipt_latency_ms'' (dt_ReceiptLatencyMS t)
     @ omit_int ''receipt_visibility_delay_ms'' (dt_ReceiptVisibilityDelayMS t)
     @ omit_int ''end_to_end_latency_ms'' (dt_EndToEndLatencyMS t)
     @ [(''status'', JStr (dt_Status t))] @ omit_text ''error'' (dt_Error t))"

definition json_dashboardL1State :: "dashboardL1State \<Rightarrow> json" where
  "json_dashboardL1State l = JObj ([(''enabled'', JBool (dl1_Enabled l)), (''mode'', JStr (dl1_Mode l)),
       (''total_calls'', JNum (dec_int (dl1_TotalCalls l))), (''sent_calls'', JNum (dec_int (dl1_SentCalls l))),
       (''confirmed_calls'', JNum (dec_int (dl1_ConfirmedCalls l))), (''failed_calls'', JNum (dec_int (dl1_FailedCalls l))),
       (''verified_tx_per_call'', json_word (dl1_VerifiedTxPerCall l)),
       (''verified_tx_confirmed'', json_word (dl1_VerifiedTxConfirmed l)),
       (''aggregate_receipt_tps'', JStr (dl1_AggregateReceiptTPS l)), (''aggregate_block_tps'', JStr (dl1_AggregateBlockTPS l)),
       (''aggregate_end_to_end_tps'', JStr (dl1_AggregateEndToEndTPS l))]
     @ omit_text ''first_send_at'' (dl1_FirstSendAt l) @ omit_text ''first_inclusion_at'' (dl1_FirstInclusionAt l)
     @ omit_text ''last_inclusion_at'' (dl1_LastInclusionAt l) @ omit_text ''last_receipt_at'' (dl1_LastReceiptAt l)
     @ [(''transactions'', json_copied json_dashboardTxSummary (dl1_Transactions l))])"

definition json_dashboardProofState :: "dashboardProofState \<Rightarrow> json" where
  "json_dashboardProofState p = JObj [(''batch_size'', JNum (dec_int (dp_BatchSize p))), (''total'', JNum (dec_int (dp_Total p))),
     (''generated'', JNum (dec_int (dp_Generated p))), (''replay_loaded'', JNum (dec_int (dp_ReplayLoaded p))),
     (''current_lane_id'', JNum (dec_int (dp_CurrentLaneID p))), (''current_batch_id'', json_word (dp_CurrentBatchID p)),
     (''setup_done'', JBool (dp_SetupDone p)), (''setup_elapsed_ms'', JNum (dec_int (dp_SetupElapsedMS p))),
     (''last_proof_elapsed_ms'', JNum (dec_int (dp_LastProofElapsedMS p))),
     (''generation_elapsed_ms'', JNum (dec_int (dp_GenerationElapsedMS p))), (''verified_tx_total'', json_word (dp_VerifiedTxTotal p))]"

definition json_dashboardSnapshot :: "dashboardSnapshot \<Rightarrow> json" where
  "json_dashboardSnapshot s = JObj ([(''title'', JStr (sn_Title s)), (''phase'', JStr (sn_Phase s)), (''done'', JBool (sn_Done s))]
     @ omit_text ''error'' (sn_Error s)
     @ [(''started_at'', JStr (sn_StartedAt s)), (''updated_at'', JStr (sn_UpdatedAt s))]
     @ omit_text ''bundle_path'' (sn_BundlePath s)
     @ [(''proof'', json_dashboardProofState (sn_Proof s)), (''l1'', json_dashboardL1State (sn_L1 s)),
        (''logs'', json_copied json_dashboardLog (sn_Logs s))])"

section \<open>The server\<close>

record page =
  pg_ContentType :: string
  pg_Body :: string

text \<open>The handlers behind a path: the page answers every path but one.  Nothing of the request is looked at.\<close>

definition dashboard_page :: "string \<Rightarrow> string \<Rightarrow> dashboardState \<Rightarrow> page" where
  "dashboard_page dashboardHTML path state =
     (if path = ''/api/state''
      then \<lparr> pg_ContentType = ''application/json'', pg_Body = json_compact (json_dashboardSnapshot (clone state)) @ newline \<rparr>
      else \<lparr> pg_ContentType = ''text/html; charset=utf-8'', pg_Body = dashboardHTML \<rparr>)"

text \<open>The goroutine of the server, when \<^verbatim>\<open>ListenAndServe\<close> has returned its error.\<close>

definition server_ended :: "'w node \<Rightarrow> host \<Rightarrow> string \<Rightarrow> ('w \<times> dashboardState, unit) cmd" where
  "server_ended N H err = (if err = ''http: Server closed'' then ret () else run_op N H (Op_failed err))"

section \<open>What is polled is the snapshot\<close>

text \<open>A reader of the answer: members by their names, missing ones empty or zero.\<close>

fun members :: "json \<Rightarrow> string \<Rightarrow> json" where
  "members (JObj ms) name = (case map_of ms name of None \<Rightarrow> JNull | Some v \<Rightarrow> v)"
| "members _ name = JNull"

fun read_text :: "json \<Rightarrow> string" where
  "read_text (JStr s) = s"
| "read_text _ = []"

fun read_int :: "json \<Rightarrow> int" where
  "read_int (JNum s) = (case mustBigInt s of None \<Rightarrow> 0 | Some i \<Rightarrow> i)"
| "read_int _ = 0"

fun read_list :: "(json \<Rightarrow> 'a) \<Rightarrow> json \<Rightarrow> 'a list" where
  "read_list f (JArr vs) = map f vs"
| "read_list f _ = []"

definition read_log :: "json \<Rightarrow> dashboardLog" where
  "read_log v = \<lparr> dl_At = read_text (members v ''at''), dl_Level = read_text (members v ''level''),
     dl_Message = read_text (members v ''message'') \<rparr>"

definition read_tx :: "json \<Rightarrow> dashboardTxSummary" where
  "read_tx v = \<lparr> dt_SenderAddress = read_text (members v ''sender_address''),
     dt_ContractAddress = read_text (members v ''contract_address''), dt_TransactionHash = read_text (members v ''transaction_hash''),
     dt_BlockNumber = read_text (members v ''block_number''), dt_BlockTimestamp = read_text (members v ''block_timestamp''),
     dt_GasUsed = of_int (read_int (members v ''gas_used'')), dt_GasLimit = of_int (read_int (members v ''gas_limit'')),
     dt_BlockInclusionLatencyMS = read_int (members v ''block_inclusion_latency_ms''),
     dt_ReceiptLatencyMS = read_int (members v ''receipt_latency_ms''),
     dt_ReceiptVisibilityDelayMS = read_int (members v ''receipt_visibility_delay_ms''),
     dt_EndToEndLatencyMS = read_int (members v ''end_to_end_latency_ms''),
     dt_Status = read_text (members v ''status''), dt_Error = read_text (members v ''error'') \<rparr>"

definition read_l1 :: "json \<Rightarrow> dashboardL1State" where
  "read_l1 v = \<lparr> dl1_Enabled = (members v ''enabled'' = JBool True), dl1_Mode = read_text (members v ''mode''),
     dl1_TotalCalls = read_int (members v ''total_calls''), dl1_SentCalls = read_int (members v ''sent_calls''),
     dl1_ConfirmedCalls = read_int (members v ''confirmed_calls''), dl1_FailedCalls = read_int (members v ''failed_calls''),
     dl1_VerifiedTxPerCall = of_int (read_int (members v ''verified_tx_per_call'')),
     dl1_VerifiedTxConfirmed = of_int (read_int (members v ''verified_tx_confirmed'')),
     dl1_AggregateReceiptTPS = read_text (members v ''aggregate_receipt_tps''),
     dl1_AggregateBlockTPS = read_text (members v ''aggregate_block_tps''),
     dl1_AggregateEndToEndTPS = read_text (members v ''aggregate_end_to_end_tps''),
     dl1_FirstSendAt = read_text (members v ''first_send_at''), dl1_FirstInclusionAt = read_text (members v ''first_inclusion_at''),
     dl1_LastInclusionAt = read_text (members v ''last_inclusion_at''), dl1_LastReceiptAt = read_text (members v ''last_receipt_at''),
     dl1_Transactions = read_list read_tx (members v ''transactions'') \<rparr>"

definition read_proof_state :: "json \<Rightarrow> dashboardProofState" where
  "read_proof_state v = \<lparr> dp_BatchSize = read_int (members v ''batch_size''), dp_Total = read_int (members v ''total''),
     dp_Generated = read_int (members v ''generated''), dp_ReplayLoaded = read_int (members v ''replay_loaded''),
     dp_CurrentLaneID = read_int (members v ''current_lane_id''), dp_CurrentBatchID = of_int (read_int (members v ''current_batch_id'')),
     dp_SetupDone = (members v ''setup_done'' = JBool True), dp_SetupElapsedMS = read_int (members v ''setup_elapsed_ms''),
     dp_LastProofElapsedMS = read_int (members v ''last_proof_elapsed_ms''),
     dp_GenerationElapsedMS = read_int (members v ''generation_elapsed_ms''),
     dp_VerifiedTxTotal = of_int (read_int (members v ''verified_tx_total'')) \<rparr>"

definition read_snapshot :: "json \<Rightarrow> dashboardSnapshot" where
  "read_snapshot v = \<lparr> sn_Title = read_text (members v ''title''), sn_Phase = read_text (members v ''phase''),
     sn_Done = (members v ''done'' = JBool True), sn_Error = read_text (members v ''error''),
     sn_StartedAt = read_text (members v ''started_at''), sn_UpdatedAt = read_text (members v ''updated_at''),
     sn_BundlePath = read_text (members v ''bundle_path''), sn_Proof = read_proof_state (members v ''proof''),
     sn_L1 = read_l1 (members v ''l1''), sn_Logs = read_list read_log (members v ''logs'') \<rparr>"

lemma read_int_back [simp]: "read_int (JNum (dec_int i)) = i" "of_int (read_int (json_word w)) = (w :: u64)"
  by (simp_all add: json_word_def dec_int_nat)

lemma omit_lookup [simp]:
  "map_of (omit_text name s) k = (if k = name \<and> s \<noteq> [] then Some (JStr s) else None)"
  "map_of (omit_word name w) k = (if k = name \<and> w \<noteq> 0 then Some (json_word w) else None)"
  "map_of (omit_int name i) k = (if k = name \<and> i \<noteq> 0 then Some (JNum (dec_int i)) else None)"
  by (auto simp: omit_text_def omit_word_def omit_int_def)

lemma read_copied [simp]: "(\<And>x. f (g x) = x) \<Longrightarrow> read_list f (json_copied g xs) = xs"
  by (simp add: json_copied_def comp_def)

lemma read_log_back [simp]: "read_log (json_dashboardLog l) = l"
  by (simp add: read_log_def json_dashboardLog_def)

lemma read_proof_state_back [simp]: "read_proof_state (json_dashboardProofState p) = p"
  by (simp add: read_proof_state_def json_dashboardProofState_def)

lemma read_tx_back [simp]: "read_tx (json_dashboardTxSummary t) = t"
  by (simp add: read_tx_def json_dashboardTxSummary_def map_add_def)

lemma read_l1_back [simp]: "read_l1 (json_dashboardL1State l) = l"
  by (simp add: read_l1_def json_dashboardL1State_def map_add_def)

lemma read_snapshot_back: "read_snapshot (json_dashboardSnapshot s) = s"
  by (simp add: read_snapshot_def json_dashboardSnapshot_def map_add_def)

lemma plain_snapshot: "bracketed (json_dashboardSnapshot s)"
proof -
  have omit: "list_all plain_json (map snd (omit_text n t))" "list_all plain_json (map snd (omit_word n w))"
    "list_all plain_json (map snd (omit_int n i))" for n t w i
    by (auto simp: omit_text_def omit_word_def omit_int_def plain_bundle_parts)
  have log: "plain_json (json_dashboardLog l)" for l by (simp add: json_dashboardLog_def)
  have tx: "plain_json (json_dashboardTxSummary t)" for t
    using omit by (simp add: json_dashboardTxSummary_def)
  have copied: "(\<And>x. plain_json (f x)) \<Longrightarrow> plain_json (json_copied f xs)" for f :: "'x \<Rightarrow> json" and xs
    by (simp add: json_copied_def list_all_iff)
  have "plain_json (json_dashboardL1State l)" for l
    using omit copied [OF tx] by (auto simp: json_dashboardL1State_def plain_bundle_parts)
  moreover have "plain_json (json_dashboardProofState p)" for p
    by (auto simp: json_dashboardProofState_def plain_bundle_parts)
  ultimately show ?thesis
    using omit copied [OF log] by (simp add: bracketed_def json_dashboardSnapshot_def)
qed


section \<open>Empty lists are sent as null\<close>

text \<open>
  As long as nothing was sent, the member \<open>transactions\<close> is null: the page asks this null for its last twelve entries, which
  ends its refresh before the log lines are shown.
\<close>

definition polled_transactions :: "dashboardState \<Rightarrow> json" where
  "polled_transactions st = members (members (json_dashboardSnapshot (clone st)) ''l1'') ''transactions''"

lemma no_transactions:
  assumes "\<not> op_sends op" "\<not> op_confirms op" "\<not> op_fails op"
  shows "dl1_Transactions (sn_L1 (da_snapshot (apply_op H (t, u, op) st))) = dl1_Transactions (sn_L1 (da_snapshot st))"
  using assms by (cases op) (auto simp: dash_ops Let_def split: prod.split option.split sum.split sum.splits)

lemma transactions_null:
  assumes "list_all (\<lambda>op. \<not> op_sends (op_of op) \<and> \<not> op_confirms (op_of op) \<and> \<not> op_fails (op_of op)) ops"
  shows "polled_transactions (fold (apply_op H) ops (newDashboardState H t0 title)) = JNull"
proof -
  have "dl1_Transactions (sn_L1 (da_snapshot (fold (apply_op H) ops (newDashboardState H t0 title)))) = []"
    using assms
  proof (induction ops rule: rev_induct)
    case Nil
    then show ?case by (simp add: newDashboardState_def zero_l1_state_def)
  next
    case (snoc x ops)
    then show ?case by (cases x) (simp add: no_transactions)
  qed
  then show ?thesis
    by (simp add: polled_transactions_def clone_def json_dashboardSnapshot_def json_dashboardL1State_def json_copied_def map_add_def)
qed

end
