(* ===== verification/Proofctl_Main.thy ===== *)
theory Proofctl_Main imports Go_Flag Dashboard_Workflow begin

text \<open>
  How \<^verbatim>\<open>kaia-proofctl\<close> starts: the flags of every command with their defaults from the environment, the
  choice of the command, and the exit status.  Every command that can be run can be asked for on a command
  line, whatever the environment says.
\<close>

section \<open>Flags and their defaults\<close>

definition defaultRPCURL :: string where "defaultRPCURL = ''https://testnet.zkrypton.zkrypto.com''"
definition defaultBundlePath :: string where "defaultBundlePath = ''build/kaia-preflight/certification-bundle.json''"
definition defaultConfirmations :: int where "defaultConfirmations = 1"

text \<open>
  The flags that several commands share.  \<^verbatim>\<open>uint64(envOrInt(...))\<close> keeps the low 64 bits: a negative
  number in the environment is a huge one.
\<close>

definition rpc_url :: "host \<Rightarrow> string \<times> flag_value" where
  "rpc_url H = (''rpc-url'', String_value (envOr (Getenv H) ''KAIA_RPC_URL'' defaultRPCURL))"

definition private_key :: "host \<Rightarrow> string \<times> flag_value" where
  "private_key H = (''private-key'', String_value (envOr (Getenv H) ''KAIA_PRIVATE_KEY'' []))"

definition gas_price :: "host \<Rightarrow> string \<times> flag_value" where
  "gas_price H = (''gas-price'', String_value (envOr (Getenv H) ''KAIA_GAS_PRICE'' []))"

definition bundle_path :: "string \<times> flag_value" where
  "bundle_path = (''bundle'', String_value defaultBundlePath)"

definition artifacts_dir :: "host \<Rightarrow> string \<times> flag_value" where
  "artifacts_dir H = (''artifacts-dir'', String_value (envOr (Getenv H) ''KAIA_OUTPUT_DIR'' ''build/kaia-preflight'' @ ''/contracts''))"

definition confirmation_count :: "host \<Rightarrow> string \<times> flag_value" where
  "confirmation_count H =
     (''confirmations'', Uint_value (of_int (envOrInt (Getenv H) ''KAIA_CONFIRMATIONS'' defaultConfirmations)))"

definition verifier_address :: "host \<Rightarrow> string \<times> flag_value" where
  "verifier_address H = (''verifier-address'', String_value (envOr (Getenv H) ''KAIA_VERIFIER_ADDRESS'' []))"

definition certifier_address :: "host \<Rightarrow> string \<times> flag_value" where
  "certifier_address H = (''certifier-address'', String_value (envOr (Getenv H) ''KAIA_CERTIFIER_ADDRESS'' []))"

lemmas shared_flags = rpc_url_def private_key_def gas_price_def bundle_path_def artifacts_dir_def confirmation_count_def
  verifier_address_def certifier_address_def

section \<open>The flags of each command\<close>

definition discover_flags :: "host \<Rightarrow> flag_set" where
  "discover_flags H = [rpc_url H]"

definition generate_key_flags :: flag_set where
  "generate_key_flags = []"

definition account_status_flags :: "host \<Rightarrow> flag_set" where
  "account_status_flags H =
     [rpc_url H, private_key H, (''address'', String_value (envOr (Getenv H) ''KAIA_SENDER'' []))]"

definition fund_accounts_flags :: "host \<Rightarrow> flag_set" where
  "fund_accounts_flags H =
     [rpc_url H, private_key H, gas_price H, (''recipients'', String_value []), (''amount-wei'', String_value []), confirmation_count H]"

definition deploy_verifier_flags :: "host \<Rightarrow> flag_set" where
  "deploy_verifier_flags H = [rpc_url H, private_key H, gas_price H, artifacts_dir H, confirmation_count H]"

definition init_vk_flags :: "host \<Rightarrow> flag_set" where
  "init_vk_flags H =
     [rpc_url H, private_key H, gas_price H, verifier_address H, bundle_path, artifacts_dir H, confirmation_count H]"

definition deploy_certifier_flags :: "host \<Rightarrow> flag_set" where
  "deploy_certifier_flags H =
     [rpc_url H, private_key H, gas_price H, verifier_address H, artifacts_dir H, confirmation_count H]"

definition init_lane_heads_flags :: "host \<Rightarrow> flag_set" where
  "init_lane_heads_flags H =
     [rpc_url H, private_key H, gas_price H, certifier_address H, bundle_path, artifacts_dir H, confirmation_count H,
      (''skip-existing'', Bool_value True), (''bulk'', Bool_value True)]"

definition estimate_bundle_flags :: "host \<Rightarrow> flag_set" where
  "estimate_bundle_flags H = [rpc_url H, private_key H, certifier_address H, bundle_path, artifacts_dir H]"

definition submit_bundle_flags :: "host \<Rightarrow> flag_set" where
  "submit_bundle_flags H =
     [rpc_url H, private_key H, gas_price H, certifier_address H, bundle_path, artifacts_dir H, confirmation_count H]"

definition submit_burst_flags :: "host \<Rightarrow> flag_set" where
  "submit_burst_flags H =
     [rpc_url H, private_key H, gas_price H, (''certifier-addresses'', String_value []), bundle_path, artifacts_dir H,
      confirmation_count H]"

definition submit_multisender_burst_flags :: "host \<Rightarrow> flag_set" where
  "submit_multisender_burst_flags H =
     [rpc_url H, (''private-keys'', String_value []), gas_price H, (''certifier-addresses'', String_value []), bundle_path,
      artifacts_dir H, confirmation_count H]"

definition dashboard_flags :: "host \<Rightarrow> flag_set" where
  "dashboard_flags H =
     [(''listen'', String_value '':8088''), (''title'', String_value ''HyperL2 Progress Dashboard''),
      (''manifest-path'', String_value ''rust/vectis-prover/Cargo.toml''),
      (''bundle-path'', String_value (PathJoin H (PathJoin H ''build'' ''dashboard'') ''certification-bundle.json'')),
      (''skip-generate'', Bool_value False), (''batch-size'', Int_value 20000), (''lane-count'', Int_value 10),
      (''live-lane-count'', Int_value 0), (''replay-bundle-path'', String_value defaultBundlePath),
      (''batch-id-base'', Uint_value 1), (''seed'', Uint_value 7), rpc_url H,
      (''private-keys'', String_value (envOr (Getenv H) ''KAIA_PRIVATE_KEYS'' [])), gas_price H,
      (''certifier-addresses'', String_value (envOr (Getenv H) ''KAIA_CERTIFIER_ADDRESSES'' [])),
      artifacts_dir H, confirmation_count H]"

lemmas command_flags = discover_flags_def generate_key_flags_def account_status_flags_def fund_accounts_flags_def
  deploy_verifier_flags_def init_vk_flags_def deploy_certifier_flags_def init_lane_heads_flags_def estimate_bundle_flags_def
  submit_bundle_flags_def submit_burst_flags_def submit_multisender_burst_flags_def dashboard_flags_def shared_flags

section \<open>The command that is started\<close>

text \<open>A flag the command does not have is read as empty; the command does not look at it.\<close>

definition flags_of :: "flag_set \<Rightarrow> flags" where
  "flags_of fs = \<lparr> fl_rpcURL = string_flag fs ''rpc-url'', fl_privateKeyHex = string_flag fs ''private-key'',
     fl_gasPriceHex = string_flag fs ''gas-price'', fl_bundlePath = string_flag fs ''bundle'',
     fl_artifactsDir = string_flag fs ''artifacts-dir'', fl_confirmations = uint_flag fs ''confirmations'' \<rparr>"

definition options_of :: "flag_set \<Rightarrow> dashboardOptions" where
  "options_of fs = \<lparr> do_ManifestPath = string_flag fs ''manifest-path'', do_BundlePath = string_flag fs ''bundle-path'',
     do_SkipGenerate = bool_flag_value fs ''skip-generate'', do_BatchSize = int_flag fs ''batch-size'',
     do_LaneCount = int_flag fs ''lane-count'', do_LiveLaneCount = int_flag fs ''live-lane-count'',
     do_ReplayBundlePath = string_flag fs ''replay-bundle-path'', do_BatchIDBase = uint_flag fs ''batch-id-base'',
     do_Seed = uint_flag fs ''seed'', do_RPCURL = string_flag fs ''rpc-url'', do_PrivateKeysText = string_flag fs ''private-keys'',
     do_GasPriceHex = string_flag fs ''gas-price'', do_CertifierAddresses = string_flag fs ''certifier-addresses'',
     do_ArtifactsDir = string_flag fs ''artifacts-dir'', do_Confirmations = uint_flag fs ''confirmations'' \<rparr>"

datatype start =
    Usage
  | Bad_flags flag_error
  | Start_command command
  | Start_dashboard string string dashboardOptions

text \<open>\<^verbatim>\<open>switch os.Args[1]\<close>: the flags of each command, and what is made of them.\<close>

definition subcommands :: "host \<Rightarrow> (string \<times> flag_set \<times> (flag_set \<Rightarrow> start)) list" where
  "subcommands H =
     [(''generate-key'', generate_key_flags, \<lambda>fs. Start_command Generate_key),
      (''account-status'', account_status_flags H,
         \<lambda>fs. Start_command (Account_status (string_flag fs ''rpc-url'') (string_flag fs ''private-key'') (string_flag fs ''address''))),
      (''fund-accounts'', fund_accounts_flags H,
         \<lambda>fs. Start_command (Fund_accounts (flags_of fs) (string_flag fs ''recipients'') (string_flag fs ''amount-wei''))),
      (''discover'', discover_flags H, \<lambda>fs. Start_command (Discover (string_flag fs ''rpc-url''))),
      (''deploy-verifier'', deploy_verifier_flags H, \<lambda>fs. Start_command (Deploy_verifier (flags_of fs))),
      (''init-vk'', init_vk_flags H, \<lambda>fs. Start_command (Init_vk (flags_of fs) (string_flag fs ''verifier-address''))),
      (''deploy-certifier'', deploy_certifier_flags H,
         \<lambda>fs. Start_command (Deploy_certifier (flags_of fs) (string_flag fs ''verifier-address''))),
      (''init-lane-heads'', init_lane_heads_flags H,
         \<lambda>fs. Start_command (Init_lane_heads (flags_of fs) (string_flag fs ''certifier-address'')
                (bool_flag_value fs ''skip-existing'') (bool_flag_value fs ''bulk''))),
      (''estimate-bundle'', estimate_bundle_flags H,
         \<lambda>fs. Start_command (Estimate_bundle (flags_of fs) (string_flag fs ''certifier-address''))),
      (''submit-bundle'', submit_bundle_flags H,
         \<lambda>fs. Start_command (Submit_bundle (flags_of fs) (string_flag fs ''certifier-address''))),
      (''submit-burst'', submit_burst_flags H,
         \<lambda>fs. Start_command (Submit_burst (flags_of fs) (string_flag fs ''certifier-addresses''))),
      (''submit-multisender-burst'', submit_multisender_burst_flags H,
         \<lambda>fs. Start_command (Submit_multisender_burst (flags_of fs) (string_flag fs ''private-keys'')
                (string_flag fs ''certifier-addresses''))),
      (''dashboard'', dashboard_flags H,
         \<lambda>fs. Start_dashboard (string_flag fs ''listen'') (string_flag fs ''title'') (options_of fs))]"

definition proofctl_start :: "host \<Rightarrow> string list \<Rightarrow> start" where
  "proofctl_start H args =
     (case args of
        [] \<Rightarrow> Usage
      | name # args \<Rightarrow>
          (case map_of (subcommands H) name of
             None \<Rightarrow> Usage
           | Some (fs, build) \<Rightarrow> (case Parse fs args of Inl e \<Rightarrow> Bad_flags e | Inr (fs, _) \<Rightarrow> build fs)))"

text \<open>
  \<^verbatim>\<open>exitIfErr\<close>: the exit status of the process with what the command left behind.  A panic ends a Go process with
  status 2.  The dashboard runs until it is interrupted.
\<close>

definition exit_status :: "unit outcome \<Rightarrow> int" where
  "exit_status r = (case r of Done _ \<Rightarrow> 0 | Failed _ \<Rightarrow> 1 | Panic \<Rightarrow> 2)"

definition proofctl_main :: "'w node \<Rightarrow> host \<Rightarrow> string list \<Rightarrow> 'w session \<Rightarrow> (int \<times> 'w session) option" where
  "proofctl_main N H args s =
     (case proofctl_start H args of
        Usage \<Rightarrow> Some (1, s)
      | Bad_flags e \<Rightarrow> Some (1, s)
      | Start_command c \<Rightarrow> map_option (\<lambda>(r, s). (exit_status r, s)) (run_command N H c s)
      | Start_dashboard listen title opts \<Rightarrow> None)"

section \<open>Every command can be asked for\<close>

text \<open>The command line that gives every flag of a command explicitly.\<close>

abbreviation rpc_setting :: "flags \<Rightarrow> string \<times> flag_value" where
  "rpc_setting fl \<equiv> (''rpc-url'', String_value (fl_rpcURL fl))"

definition sender_settings :: "flags \<Rightarrow> (string \<times> flag_value) list" where
  "sender_settings fl = [rpc_setting fl, (''private-key'', String_value (fl_privateKeyHex fl)),
     (''gas-price'', String_value (fl_gasPriceHex fl)), (''confirmations'', Uint_value (fl_confirmations fl))]"

definition bundle_settings :: "flags \<Rightarrow> (string \<times> flag_value) list" where
  "bundle_settings fl = [(''bundle'', String_value (fl_bundlePath fl)), (''artifacts-dir'', String_value (fl_artifactsDir fl))]"

fun command_settings :: "command \<Rightarrow> string \<times> (string \<times> flag_value) list" where
  "command_settings Generate_key = (''generate-key'', [])"
| "command_settings (Account_status url k a) =
     (''account-status'', [(''rpc-url'', String_value url), (''private-key'', String_value k), (''address'', String_value a)])"
| "command_settings (Fund_accounts fl rs a) =
     (''fund-accounts'', sender_settings fl @ [(''recipients'', String_value rs), (''amount-wei'', String_value a)])"
| "command_settings (Discover url) = (''discover'', [(''rpc-url'', String_value url)])"
| "command_settings (Deploy_verifier fl) =
     (''deploy-verifier'', sender_settings fl @ [(''artifacts-dir'', String_value (fl_artifactsDir fl))])"
| "command_settings (Init_vk fl v) =
     (''init-vk'', sender_settings fl @ bundle_settings fl @ [(''verifier-address'', String_value v)])"
| "command_settings (Deploy_certifier fl v) =
     (''deploy-certifier'', sender_settings fl
        @ [(''artifacts-dir'', String_value (fl_artifactsDir fl)), (''verifier-address'', String_value v)])"
| "command_settings (Init_lane_heads fl c skip bulk) =
     (''init-lane-heads'', sender_settings fl @ bundle_settings fl
        @ [(''certifier-address'', String_value c), (''skip-existing'', Bool_value skip), (''bulk'', Bool_value bulk)])"
| "command_settings (Estimate_bundle fl c) =
     (''estimate-bundle'', rpc_setting fl # (''private-key'', String_value (fl_privateKeyHex fl)) # bundle_settings fl
        @ [(''certifier-address'', String_value c)])"
| "command_settings (Submit_bundle fl c) =
     (''submit-bundle'', sender_settings fl @ bundle_settings fl @ [(''certifier-address'', String_value c)])"
| "command_settings (Submit_burst fl cs) =
     (''submit-burst'', sender_settings fl @ bundle_settings fl @ [(''certifier-addresses'', String_value cs)])"
| "command_settings (Submit_multisender_burst fl ks cs) =
     (''submit-multisender-burst'', [rpc_setting fl, (''private-keys'', String_value ks), (''gas-price'', String_value (fl_gasPriceHex fl)),
        (''confirmations'', Uint_value (fl_confirmations fl))] @ bundle_settings fl @ [(''certifier-addresses'', String_value cs)])"

definition dashboard_settings :: "string \<Rightarrow> string \<Rightarrow> dashboardOptions \<Rightarrow> (string \<times> flag_value) list" where
  "dashboard_settings listen title opts =
     [(''listen'', String_value listen), (''title'', String_value title), (''manifest-path'', String_value (do_ManifestPath opts)),
      (''bundle-path'', String_value (do_BundlePath opts)), (''skip-generate'', Bool_value (do_SkipGenerate opts)),
      (''batch-size'', Int_value (do_BatchSize opts)), (''lane-count'', Int_value (do_LaneCount opts)),
      (''live-lane-count'', Int_value (do_LiveLaneCount opts)), (''replay-bundle-path'', String_value (do_ReplayBundlePath opts)),
      (''batch-id-base'', Uint_value (do_BatchIDBase opts)), (''seed'', Uint_value (do_Seed opts)),
      (''rpc-url'', String_value (do_RPCURL opts)), (''private-keys'', String_value (do_PrivateKeysText opts)),
      (''gas-price'', String_value (do_GasPriceHex opts)), (''certifier-addresses'', String_value (do_CertifierAddresses opts)),
      (''artifacts-dir'', String_value (do_ArtifactsDir opts)), (''confirmations'', Uint_value (do_Confirmations opts))]"

text \<open>The flags a command does not have are empty in its record.\<close>

fun fits :: "command \<Rightarrow> bool" where
  "fits (Fund_accounts fl rs a) \<longleftrightarrow> fl_bundlePath fl = [] \<and> fl_artifactsDir fl = []"
| "fits (Deploy_verifier fl) \<longleftrightarrow> fl_bundlePath fl = []"
| "fits (Deploy_certifier fl v) \<longleftrightarrow> fl_bundlePath fl = []"
| "fits (Estimate_bundle fl c) \<longleftrightarrow> fl_gasPriceHex fl = [] \<and> fl_confirmations fl = 0"
| "fits (Submit_multisender_burst fl ks cs) \<longleftrightarrow> fl_privateKeyHex fl = []"
| "fits c \<longleftrightarrow> True"

fun startable :: "start \<Rightarrow> bool" where
  "startable (Start_command c) = fits c"
| "startable (Start_dashboard listen title opts) =
     (int64_range (do_BatchSize opts) \<and> int64_range (do_LaneCount opts) \<and> int64_range (do_LiveLaneCount opts))"
| "startable _ = False"

fun command_line :: "start \<Rightarrow> string list" where
  "command_line (Start_command c) = (case command_settings c of (name, sts) \<Rightarrow> name # concat (map show_setting sts))"
| "command_line (Start_dashboard listen title opts) =
     ''dashboard'' # concat (map show_setting (dashboard_settings listen title opts))"
| "command_line _ = []"

lemma proofctl_start_settings:
  assumes "map_of (subcommands H) name = Some (fs, build)" "list_all (settable fs) sts"
  shows "proofctl_start H (name # concat (map show_setting sts)) = build (apply_settings sts fs)"
  using assms(1) settings_parsed [OF assms(2), of "[]"] by (simp add: proofctl_start_def)

lemmas flag_values = string_flag_def int_flag_def uint_flag_def bool_flag_value_def

lemmas setting_lists = sender_settings_def bundle_settings_def dashboard_settings_def

lemma flag_names:
  "flag_name ''rpc-url''" "flag_name ''private-key''" "flag_name ''gas-price''" "flag_name ''confirmations''" "flag_name ''bundle''"
  "flag_name ''artifacts-dir''" "flag_name ''address''" "flag_name ''recipients''" "flag_name ''amount-wei''"
  "flag_name ''verifier-address''" "flag_name ''certifier-address''" "flag_name ''skip-existing''" "flag_name ''bulk''"
  "flag_name ''certifier-addresses''" "flag_name ''private-keys''" "flag_name ''listen''" "flag_name ''title''"
  "flag_name ''manifest-path''" "flag_name ''bundle-path''" "flag_name ''skip-generate''" "flag_name ''batch-size''"
  "flag_name ''lane-count''" "flag_name ''live-lane-count''" "flag_name ''replay-bundle-path''" "flag_name ''batch-id-base''"
  "flag_name ''seed''"
  by (simp_all add: flag_name_def)

text \<open>The settings of a command are settings of its flags, and they give the command back.\<close>

lemma subcommand_lookup:
  "map_of (subcommands H) (fst (command_settings c)) = Some
     (case c of
        Generate_key \<Rightarrow> (generate_key_flags, \<lambda>fs. Start_command Generate_key)
      | Account_status _ _ _ \<Rightarrow> (account_status_flags H,
          \<lambda>fs. Start_command (Account_status (string_flag fs ''rpc-url'') (string_flag fs ''private-key'') (string_flag fs ''address'')))
      | Fund_accounts _ _ _ \<Rightarrow> (fund_accounts_flags H,
          \<lambda>fs. Start_command (Fund_accounts (flags_of fs) (string_flag fs ''recipients'') (string_flag fs ''amount-wei'')))
      | Discover _ \<Rightarrow> (discover_flags H, \<lambda>fs. Start_command (Discover (string_flag fs ''rpc-url'')))
      | Deploy_verifier _ \<Rightarrow> (deploy_verifier_flags H, \<lambda>fs. Start_command (Deploy_verifier (flags_of fs)))
      | Init_vk _ _ \<Rightarrow> (init_vk_flags H, \<lambda>fs. Start_command (Init_vk (flags_of fs) (string_flag fs ''verifier-address'')))
      | Deploy_certifier _ _ \<Rightarrow> (deploy_certifier_flags H,
          \<lambda>fs. Start_command (Deploy_certifier (flags_of fs) (string_flag fs ''verifier-address'')))
      | Init_lane_heads _ _ _ _ \<Rightarrow> (init_lane_heads_flags H,
          \<lambda>fs. Start_command (Init_lane_heads (flags_of fs) (string_flag fs ''certifier-address'')
                 (bool_flag_value fs ''skip-existing'') (bool_flag_value fs ''bulk'')))
      | Estimate_bundle _ _ \<Rightarrow> (estimate_bundle_flags H,
          \<lambda>fs. Start_command (Estimate_bundle (flags_of fs) (string_flag fs ''certifier-address'')))
      | Submit_bundle _ _ \<Rightarrow> (submit_bundle_flags H,
          \<lambda>fs. Start_command (Submit_bundle (flags_of fs) (string_flag fs ''certifier-address'')))
      | Submit_burst _ _ \<Rightarrow> (submit_burst_flags H,
          \<lambda>fs. Start_command (Submit_burst (flags_of fs) (string_flag fs ''certifier-addresses'')))
      | Submit_multisender_burst _ _ _ \<Rightarrow> (submit_multisender_burst_flags H,
          \<lambda>fs. Start_command (Submit_multisender_burst (flags_of fs) (string_flag fs ''private-keys'')
                 (string_flag fs ''certifier-addresses''))))"
  by (cases c) (simp_all add: subcommands_def)

lemma settings_give_command:
  "case map_of (subcommands H) (fst (command_settings c)) of
     None \<Rightarrow> False
   | Some (fs, build) \<Rightarrow> list_all (settable fs) (snd (command_settings c))
       \<and> (fits c \<longrightarrow> build (apply_settings (snd (command_settings c)) fs) = Start_command c)"
  unfolding subcommand_lookup
  by (cases c)
    (simp_all add: command_flags setting_lists settable_def flag_names flag_values flags_of_def settings_in_effect)

lemma settings_give_dashboard:
  assumes "startable (Start_dashboard listen title opts)"
  shows "list_all (settable (dashboard_flags H)) (dashboard_settings listen title opts)
    \<and> string_flag (apply_settings (dashboard_settings listen title opts) (dashboard_flags H)) ''listen'' = listen
    \<and> string_flag (apply_settings (dashboard_settings listen title opts) (dashboard_flags H)) ''title'' = title
    \<and> options_of (apply_settings (dashboard_settings listen title opts) (dashboard_flags H)) = opts"
  using assms
  by (simp add: command_flags setting_lists settable_def flag_names flag_values options_of_def settings_in_effect)

text \<open>C24. For every command with whatever fields, and for every dashboard, there is a command line that starts exactly it, and
  the environment variables have no say in it: every field of every command is reachable by a flag, and an explicit flag
  goes before the environment and the defaults.\<close>

theorem command_line_roundtrip:
  assumes "startable st"
  shows "proofctl_start H (command_line st) = st"
  using assms
proof (cases st)
  case (Start_command c)
  obtain name sts where c: "command_settings c = (name, sts)" by force
  then obtain fs build where t: "map_of (subcommands H) name = Some (fs, build)" "list_all (settable fs) sts"
    "build (apply_settings sts fs) = Start_command c"
    using settings_give_command [where c = c and H = H] assms Start_command by (auto split: option.splits)
  then show ?thesis using proofctl_start_settings [OF t(1,2)] by (simp add: Start_command c)
next
  case (Start_dashboard listen title opts)
  note d = settings_give_dashboard [OF assms [unfolded Start_dashboard], of H]
  have "map_of (subcommands H) ''dashboard'' = Some (dashboard_flags H,
      \<lambda>fs. Start_dashboard (string_flag fs ''listen'') (string_flag fs ''title'') (options_of fs))"
    by (simp add: subcommands_def)
  then show ?thesis
    using proofctl_start_settings [of H "''dashboard''" "dashboard_flags H" _ "dashboard_settings listen title opts"] d
    by (simp add: Start_dashboard)
qed simp_all

definition demo_flags :: flags where
  "demo_flags = \<lparr> fl_rpcURL = ''u'', fl_privateKeyHex = ''k'', fl_gasPriceHex = ''-1'', fl_bundlePath = [], fl_artifactsDir = [],
     fl_confirmations = 3 \<rparr>"

theorem command_line_roundtrip_witness:
  "\<forall>H. proofctl_start H [''fund-accounts'', ''-rpc-url'', ''u'', ''-private-key'', ''k'', ''-gas-price'', ''-1'', ''-confirmations'', ''3'',
       ''-recipients'', ''a,b'', ''-amount-wei'', ''=5'']
     = Start_command (Fund_accounts demo_flags ''a,b'' ''=5'')"
proof
  fix H
  have "startable (Start_command (Fund_accounts demo_flags ''a,b'' ''=5''))" by (simp add: demo_flags_def)
  from command_line_roundtrip [OF this, of H]
  show "proofctl_start H [''fund-accounts'', ''-rpc-url'', ''u'', ''-private-key'', ''k'', ''-gas-price'', ''-1'', ''-confirmations'', ''3'',
       ''-recipients'', ''a,b'', ''-amount-wei'', ''=5''] = Start_command (Fund_accounts demo_flags ''a,b'' ''=5'')"
    by (simp add: demo_flags_def sender_settings_def dec_nat.simps dec_digit_def)
qed

section \<open>What goes wrong\<close>

lemma exit_status_zero: "exit_status r = 0 \<longleftrightarrow> r = Done ()"
  by (cases r) (simp_all add: exit_status_def)

text \<open>
  The process ends with status 0 only after a command that ended without an error, and it sends nothing and
  opens nothing when the command line is wrong.
\<close>

lemma wrong_command_line:
  "proofctl_start H args = Usage \<or> proofctl_start H args = Bad_flags e \<Longrightarrow> proofctl_main N H args s = Some (1, s)"
  by (auto simp: proofctl_main_def)

lemma status_zero:
  "proofctl_main N H args s = Some (0, s') \<Longrightarrow>
     \<exists>c. proofctl_start H args = Start_command c \<and> run_command N H c s = Some (Done (), s')"
  by (auto simp: proofctl_main_def exit_status_zero split: start.splits)

text \<open>A negative confirmation count in the environment is taken for a huge one: no block is ever deep enough.\<close>

lemma negative_confirmations:
  assumes "Getenv H ''KAIA_CONFIRMATIONS'' = ''-1''"
  shows "\<exists>fl. proofctl_start H [''deploy-verifier''] = Start_command (Deploy_verifier fl)
    \<and> fl_confirmations fl = 18446744073709551615"
  using assms
  by (auto simp: proofctl_start_def subcommands_def command_flags flags_of_def flag_values envOrInt_def TrimSpace_def text_space_def
      SetString_def digit_of_def wrap64_def)

end
