(* ===== verification/Spec2Isabelle.thy ===== *)
theory Spec2Isabelle imports Ring_Conc Bench_Main Dashboard_Demo Dashboard_Server Proofctl_Main begin

text \<open>
  HyperL2 is a benchmark of a layer-2 pipeline: transfers of twelve bytes are batched into lanes and blocks, every block is
  certified with a proof on a layer-1 node, and a report says whether the asked rate was reached.  The same stages exist twice,
  as goroutines of one process (\<^verbatim>\<open>internal/pipeline\<close>) and as HTTP services (\<^verbatim>\<open>cmd/l2-ingress\<close>, \<^verbatim>\<open>l2-sequencer\<close>,
  \<^verbatim>\<open>l2-aggregator\<close>, \<^verbatim>\<open>proof-replayer\<close>, \<^verbatim>\<open>l1-cert-node\<close>).  A second part, \<^verbatim>\<open>cmd/kaia-proofctl\<close>, submits real proof bundles to
  a chain and shows the progress on a dashboard.  These theories model the Go code of both parts and prove what it promises.

  Language and library.  \<^verbatim>\<open>HL2_Prelude\<close> has the result type and the lemma collections; \<^verbatim>\<open>Go_Bytes\<close>, \<^verbatim>\<open>Go_Sha256\<close>, \<^verbatim>\<open>Go_Map\<close>,
  \<^verbatim>\<open>Go_Float\<close>, \<^verbatim>\<open>Go_Fmt\<close>, \<^verbatim>\<open>Go_Json\<close>, \<^verbatim>\<open>Go_Unmarshal\<close> and \<^verbatim>\<open>Go_Flag\<close> model what the sources use of the standard library:
  byte order and slices, hexadecimal, SHA-256, maps with their arbitrary order of iteration, float64 (round to nearest, ties to
  even), number formats, encoding/json in both directions, and the parsing of command lines by the package flag.  Integers are words of their width, or \<^verbatim>\<open>int\<close> with the wrap written out
  (\<^const>\<open>wrap64\<close>).  Errors are values of a sum or of an option; a panic is a result of its own.

  The pipeline.
  \<^item> \<^verbatim>\<open>Frame\<close> (\<^verbatim>\<open>internal/frame\<close>): transfers, batch frames and proof records with their binary forms.  Round trip, the exact set of
    accepted payloads, and no panic.
  \<^item> \<^verbatim>\<open>Ring\<close> (\<^verbatim>\<open>internal/queue\<close>): the ring with sequence numbers, its retry loops as partial functions.  \<^verbatim>\<open>Queue_Interface\<close> has
    the locale of a bounded queue; the ring implements it across the wrap of its positions.  \<^verbatim>\<open>Ring_Conc\<close> has the same code as
    single atomic accesses of any number of callers, with the history of their calls: slots are never accessed by two callers at
    once, every value is delivered exactly once and in order, and a refusal was justified at one moment of its call.
  \<^item> \<^verbatim>\<open>Config\<close> (\<^verbatim>\<open>internal/config\<close>), \<^verbatim>\<open>Metrics\<close> (\<^verbatim>\<open>internal/metrics\<close>), \<^verbatim>\<open>Pipeline_Types\<close> (\<^verbatim>\<open>types.go\<close>, \<^verbatim>\<open>api.go\<close>):
    configuration and its arithmetic, counters and their page, jobs and envelopes with the commitments.
  \<^item> \<^verbatim>\<open>Proof_Book\<close> (\<^verbatim>\<open>proof.go\<close>) and \<^verbatim>\<open>L1_Node\<close> (\<^verbatim>\<open>l1.go\<close>): deterministic proofs and their files; the node, which refines a ledger
    of accepted blocks, conserves the sum of balances and never changes an accepted block.
  \<^item> \<^verbatim>\<open>Stages\<close>, \<^verbatim>\<open>Runner\<close>, \<^verbatim>\<open>Runner_Flow\<close>, \<^verbatim>\<open>Runner_Live\<close> (\<^verbatim>\<open>runner.go\<close>): what each goroutine does to one job, and the run as a
    relation of single steps of the ingress loop and three goroutines over three rings.  In every interleaving the node has
    seen a prefix of the plan; a drained run certifies all of it; a completing schedule always exists.
  \<^item> \<^verbatim>\<open>Report\<close> (\<^verbatim>\<open>buildReport\<close>, \<^verbatim>\<open>report.go\<close>), \<^verbatim>\<open>Report_Files\<close> (\<^verbatim>\<open>WriteReport\<close>) and \<^verbatim>\<open>Run_Verdict\<close>: the verdict, its JSON, CSV and
    Markdown texts and their three files, and the verdict of a drained run from the log its stages wrote.  \<^verbatim>\<open>Datasets\<close>
    (\<^verbatim>\<open>datasets.go\<close>): the generated data sets with their manifest.
  \<^item> \<^verbatim>\<open>Envelopes\<close>, \<^verbatim>\<open>Svc_L1\<close>, \<^verbatim>\<open>Svc_Aggregator\<close>, \<^verbatim>\<open>Svc_Sequencer\<close>, \<^verbatim>\<open>Cluster\<close>: the handlers of the services, each a function of the
    request and its state, the stream reader and the select loop of the sequencer, and all services connected.  Handlers are
    total and answer as listed; a tick of the sequencer certifies its block end to end; the posted block commit has the effect
    of the in-process replayer.
  \<^item> \<^verbatim>\<open>Svc_Main\<close> (\<^verbatim>\<open>main\<close> of the five services) and \<^verbatim>\<open>Bench_Main\<close> (\<^verbatim>\<open>cmd/bench-orchestrator\<close>): flags and their checks, the state a
    service starts with, its routes, its listener and connections; the benchmark from its command line to the printed verdict
    and the exit status.

  The control tool (\<^verbatim>\<open>cmd/kaia-proofctl\<close>).
  \<^item> \<^verbatim>\<open>Proofctl_Text\<close>, \<^verbatim>\<open>Proofctl_Bundle\<close>: texts, integers and amounts; the bundle file, its conversion and the merge of two bundles.
  \<^item> \<^verbatim>\<open>Proofctl_Client\<close>: programs over a node.  A program may succeed, fail, panic or not return; its session holds the world, the
    open connections, the output, and the transactions the node took.  The node, cryptography, ABI encoding and the operating
    system are the parameters \<^verbatim>\<open>node\<close> and \<^verbatim>\<open>host\<close>.
  \<^item> \<^verbatim>\<open>Proofctl_Laws\<close>: the locales \<^verbatim>\<open>observer\<close> and \<^verbatim>\<open>bystander\<close>, what programs leave alone; they are interpreted on the open
    connections, on the transactions sent, and (\<^verbatim>\<open>Dashboard_Run\<close>, with the locale \<^verbatim>\<open>dash_observer\<close>) on the calls a dashboard shows.
  \<^item> \<^verbatim>\<open>Proofctl_Wait\<close>, \<^verbatim>\<open>Proofctl_Commands\<close>, \<^verbatim>\<open>Proofctl_Submit\<close>, \<^verbatim>\<open>Proofctl_Sent\<close>: waiting for receipts ends with its deadline (and can hang
    without one); every command from its parsed flags on; connections are closed however a command ends; a funding sends one
    payment to each address.
  \<^item> \<^verbatim>\<open>Dashboard\<close>: the state behind the dashboard and the sections that change it under the lock; in any order of these sections
    it shows their history.  \<^verbatim>\<open>Dashboard_Server\<close>: what the server answers, and that its JSON reads back as the snapshot.
    \<^verbatim>\<open>Dashboard_Workflow\<close>: the exporter process, the merge, the submission, the goroutine that runs them, and \<^verbatim>\<open>runDashboard\<close>.
    \<^verbatim>\<open>Dashboard_Run\<close> proves by triples over programs that a dashboard that says \<open>completed\<close> tells the truth, \<^verbatim>\<open>Dashboard_Generate\<close>
    that the written bundle is the loaded one, and \<^verbatim>\<open>Dashboard_Demo\<close> runs one submission to its end.
  \<^item> \<^verbatim>\<open>Proofctl_Main\<close>: the commands' flags with their defaults from the environment, what a command line is parsed to, the
    dispatch, and the exit status.

  Bounds and fuel.  The JSON parser is given the length of its input plus one, which is enough for every value printed by the
  encoder (\<^verbatim>\<open>Envelopes\<close>, \<^verbatim>\<open>Go_Unmarshal\<close>).  Loops that may not end (the rings' retries, waiting for a receipt, reading the exporter) are
  partial functions, so that not returning is a value, and where they end this is proved.  The concurrent ring is proved for
  schedules of fewer than 2^63 moves, so that a position does not come round while a caller holds it; the verdict of a run
  assumes that its counts fit their machine integers (\<^const>\<open>run_fits\<close>).

  Not modelled.  Usage texts; sockets, the insides of the HTTP server and its cleaning of paths, sleeping and pausing, signals,
  the starting of processes, the metrics server beside a run, and the loop that accepts connections (each accepted one is
  a stream reader of the model).  Functions that several programs repeat (\<^verbatim>\<open>listen\<close>, \<^verbatim>\<open>postJSON\<close>) are modelled once.  The text of the dashboard's page and the shortest decimal text of a float64 are parameters.
  Handlers of one service run one after another: that concurrent ones race on the proof book's map is a
  finding, not part of the model.  A JSON slice is decoded without the capacity it had before.  The receipts of a dashboard's
  submission arrive in any order, but the calls of one goroutine are made together.  The Rust prover and the Solidity contracts
  are other languages, called through a process and a node.
\<close>

end
